theory Spec2Isabelle
  imports Complex_Main "HOL-Library.Word" "HOL-Library.Multiset"
begin

section \<open>JavaScript string and number primitives used by the wallet\<close>

text \<open>
  Strings are lists of 8-bit code units: every string the wallet core builds is ASCII
  (hex digits and base58 characters). Non-negative integral JavaScript numbers and BigInts
  are modelled by \<open>nat\<close>, possibly negative ones by \<open>int\<close>; \<open>NaN\<close> is \<open>None\<close>.
  The rounding of IEEE doubles above \<open>2 ^ 53\<close> is not modelled.
\<close>

type_synonym byte = "8 word"

definition hex_chars :: string where
  "hex_chars = ''0123456789abcdef''"

definition hexdigit :: "nat \<Rightarrow> char" where
  "hexdigit d = hex_chars ! d"

text \<open>\<^verbatim>\<open>num.toString(16)\<close> on a non-negative integer: lower-case digits, no leading zero.\<close>

function toString16 :: "nat \<Rightarrow> string" where
  "toString16 n = (if n < 16 then [hexdigit n] else toString16 (n div 16) @ [hexdigit (n mod 16)])"
  by pat_completeness auto
termination
  by (relation "measure id") auto

declare toString16.simps [simp del]

text \<open>\<^verbatim>\<open>s.padStart(w, c)\<close> with a one-character filler.\<close>

definition padStart :: "nat \<Rightarrow> char \<Rightarrow> string \<Rightarrow> string" where
  "padStart w c s = replicate (w - length s) c @ s"

text \<open>\<^verbatim>\<open>s.toUpperCase()\<close> on ASCII.\<close>

definition upper_char :: "char \<Rightarrow> char" where
  "upper_char c =
     (if 97 \<le> (of_char c :: nat) \<and> (of_char c :: nat) \<le> 122
      then char_of (of_char c - (32::nat)) else c)"

definition toUpperCase :: "string \<Rightarrow> string" where
  "toUpperCase s = map upper_char s"

section \<open>transaction.ts: varint encoder\<close>

text \<open>
  \<^verbatim>\<open>
  function encodeVarInt(num: number): string {
    if (num < 0xfd) { return num.toString(16).padStart(2, '0'); }
    else if (num <= 0xffff) { return 'fd' + num.toString(16).padStart(4, '0'); }
    else if (num <= 0xffffffff) { return 'fe' + num.toString(16).padStart(8, '0'); }
    else { return 'ff' + num.toString(16).padStart(16, '0'); }
  }
  \<close>
\<close>

definition encodeVarInt :: "nat \<Rightarrow> string" where
  "encodeVarInt num =
     (if num < 0xfd then padStart 2 CHR ''0'' (toString16 num)
      else if num \<le> 0xffff then ''fd'' @ padStart 4 CHR ''0'' (toString16 num)
      else if num \<le> 0xffffffff then ''fe'' @ padStart 8 CHR ''0'' (toString16 num)
      else ''ff'' @ padStart 16 CHR ''0'' (toString16 num))"

text \<open>
  \<^verbatim>\<open>reverseTxid\<close> and \<^verbatim>\<open>reverseBytesInPairs\<close> have the same body: cut the string into
  two-character pieces with \<^verbatim>\<open>substr(i, 2)\<close> (the last piece has one character when the
  length is odd), reverse the pieces and join them.
\<close>

fun substr_pairs :: "string \<Rightarrow> string list" where
  "substr_pairs (a # b # rest) = [a, b] # substr_pairs rest"
| "substr_pairs [a] = [[a]]"
| "substr_pairs [] = []"

definition reverseTxid :: "string \<Rightarrow> string" where
  "reverseTxid txid = concat (rev (substr_pairs txid))"

definition reverseBytesInPairs :: "string \<Rightarrow> string" where
  "reverseBytesInPairs hex = concat (rev (substr_pairs hex))"

section \<open>types.ts: the error classes\<close>

text \<open>
  \<^verbatim>\<open>WalletError(message)\<close>, its subclasses \<^verbatim>\<open>InvalidAddressError(address)\<close> and
  \<^verbatim>\<open>InsufficientFundsError(required, available)\<close>, and the built-in \<^verbatim>\<open>Error\<close> (with
  \<^verbatim>\<open>TypeError\<close> and \<^verbatim>\<open>SyntaxError\<close>) carrying its message. A function that can throw
  returns \<open>error + 'a\<close>, with \<open>Inl\<close> for the exception.
\<close>

datatype error =
    WalletError string
  | InvalidAddressError string
  | InsufficientFundsError int int
  | JsError string

section \<open>crypto.ts: base58\<close>

definition alphabet :: string where
  "alphabet = ''123456789ABCDEFGHJKLMNPQRSTUVWXYZabcdefghijkmnopqrstuvwxyz''"

text \<open>\<^verbatim>\<open>for (const byte of buffer) { num = num * 256n + BigInt(byte); }\<close>\<close>

fun bytes_to_num :: "nat \<Rightarrow> byte list \<Rightarrow> nat" where
  "bytes_to_num num [] = num"
| "bytes_to_num num (b # buffer) = bytes_to_num (num * 256 + unat b) buffer"

text \<open>
  \<^verbatim>\<open>while (num > 0n) { encoded = alphabet[Number(num % 58n)] + encoded; num = num / 58n; }\<close>
\<close>

function b58_digits :: "nat \<Rightarrow> string \<Rightarrow> string" where
  "b58_digits num encoded =
     (if num > 0 then b58_digits (num div 58) (alphabet ! (num mod 58) # encoded) else encoded)"
  by pat_completeness auto
termination
  by (relation "measure fst") auto

declare b58_digits.simps [simp del]

text \<open>
  \<^verbatim>\<open>for (const byte of buffer) { if (byte === 0) { encoded = '1' + encoded; } else { break; } }\<close>
\<close>

fun leading_ones :: "byte list \<Rightarrow> string \<Rightarrow> string" where
  "leading_ones [] encoded = encoded"
| "leading_ones (b # buffer) encoded =
     (if b = 0 then leading_ones buffer (CHR ''1'' # encoded) else encoded)"

text \<open>\<^verbatim>\<open>return encoded || '1';\<close>: the empty string is falsy.\<close>

definition toBase58 :: "byte list \<Rightarrow> string" where
  "toBase58 buffer =
     (let num = bytes_to_num 0 buffer;
          encoded = b58_digits num [];
          encoded = leading_ones buffer encoded
      in if encoded = [] then ''1'' else encoded)"

text \<open>\<^verbatim>\<open>alphabet.indexOf(char)\<close>, with \<open>None\<close> for \<open>-1\<close>.\<close>

fun indexOf :: "string \<Rightarrow> char \<Rightarrow> nat option" where
  "indexOf [] c = None"
| "indexOf (a # as) c =
     (if a = c then Some 0 else (case indexOf as c of None \<Rightarrow> None | Some i \<Rightarrow> Some (Suc i)))"

text \<open>
  \<^verbatim>\<open>
  for (const char of str) {
    const index = alphabet.indexOf(char);
    if (index === -1) { throw new Error(`Invalid base58 character: ${char}`); }
    num = num * 58n + BigInt(index);
  }
  \<close>
\<close>

fun b58_to_num :: "nat \<Rightarrow> string \<Rightarrow> error + nat" where
  "b58_to_num num [] = Inr num"
| "b58_to_num num (c # str) =
     (case indexOf alphabet c of
        None \<Rightarrow> Inl (JsError (''Invalid base58 character: '' @ [c]))
      | Some index \<Rightarrow> b58_to_num (num * 58 + index) str)"

text \<open>\<^verbatim>\<open>while (num > 0n) { bytes.unshift(Number(num % 256n)); num = num / 256n; }\<close>\<close>

function num_to_bytes :: "nat \<Rightarrow> byte list \<Rightarrow> byte list" where
  "num_to_bytes num bytes =
     (if num > 0 then num_to_bytes (num div 256) (of_nat (num mod 256) # bytes) else bytes)"
  by pat_completeness auto
termination
  by (relation "measure fst") auto

declare num_to_bytes.simps [simp del]

text \<open>
  \<^verbatim>\<open>for (const char of str) { if (char === '1') { bytes.unshift(0); } else { break; } }\<close>
\<close>

fun leading_zeros :: "string \<Rightarrow> byte list \<Rightarrow> byte list" where
  "leading_zeros [] bytes = bytes"
| "leading_zeros (c # str) bytes =
     (if c = CHR ''1'' then leading_zeros str (0 # bytes) else bytes)"

definition fromBase58 :: "string \<Rightarrow> error + byte list" where
  "fromBase58 str =
     (case b58_to_num 0 str of
        Inl e \<Rightarrow> Inl e
      | Inr num \<Rightarrow> Inr (leading_zeros str (num_to_bytes num [])))"

section \<open>crypto.ts: hashes and hex\<close>

text \<open>
  The hash functions, the HMAC and the elliptic-curve operations come from Node's
  \<^verbatim>\<open>crypto\<close> module and from the \<^verbatim>\<open>elliptic\<close> package, which are not part of the repository.
  They are parameters of the model:
  \<^item> \<open>sha256_digest\<close>: \<^verbatim>\<open>crypto.createHash('sha256').update(input).digest()\<close>;
  \<^item> \<open>ripemd160_digest\<close>: \<^verbatim>\<open>crypto.createHash('ripemd160').update(data).digest()\<close>;
  \<^item> \<open>hmac_sha256 key data\<close>: \<^verbatim>\<open>createHmac('sha256', key).update(data).digest()\<close>;
  \<^item> \<open>ec_public_compressed k\<close>: \<^verbatim>\<open>ec.keyFromPrivate(k, 'hex').getPublic(true, 'hex')\<close>;
  \<^item> \<open>ec_public_hex k\<close>: \<^verbatim>\<open>ec.keyFromPrivate(k).getPublic('hex')\<close>;
  \<^item> \<open>ec_sign k digest\<close>: \<^verbatim>\<open>ec.keyFromPrivate(k).sign(digest)\<close>, giving \<open>(r, s)\<close>.
  The elliptic-curve operations give \<open>None\<close> when the library throws
  (also when \<^verbatim>\<open>require('elliptic')\<close> does).
\<close>

record crypto_lib =
  sha256_digest :: "byte list \<Rightarrow> byte list"
  ripemd160_digest :: "byte list \<Rightarrow> byte list"
  hmac_sha256 :: "byte list \<Rightarrow> byte list \<Rightarrow> byte list"
  ec_public_compressed :: "string \<Rightarrow> string option"
  ec_public_hex :: "string \<Rightarrow> string option"
  ec_sign :: "string \<Rightarrow> byte list \<Rightarrow> (nat \<times> nat) option"

text \<open>The wallet only hashes buffers; the string branch of \<^verbatim>\<open>sha256\<close> is not used by the core.\<close>

definition sha256 :: "crypto_lib \<Rightarrow> byte list \<Rightarrow> byte list" where
  "sha256 lib data = sha256_digest lib data"

definition doubleSha256 :: "crypto_lib \<Rightarrow> byte list \<Rightarrow> byte list" where
  "doubleSha256 lib data = sha256 lib (sha256 lib data)"

definition ripemd160 :: "crypto_lib \<Rightarrow> byte list \<Rightarrow> byte list" where
  "ripemd160 lib data = ripemd160_digest lib data"

definition hash160 :: "crypto_lib \<Rightarrow> byte list \<Rightarrow> byte list" where
  "hash160 lib data = ripemd160 lib (sha256 lib data)"

text \<open>The value of a hexadecimal digit, in either case.\<close>

definition hexval :: "char \<Rightarrow> nat option" where
  "hexval c =
     (let n = (of_char c :: nat)
      in if 48 \<le> n \<and> n \<le> 57 then Some (n - 48)
         else if 97 \<le> n \<and> n \<le> 102 then Some (n - 87)
         else if 65 \<le> n \<and> n \<le> 70 then Some (n - 55)
         else None)"

text \<open>
  \<^verbatim>\<open>Buffer.from(hex, 'hex')\<close>: decodes two characters per byte and stops at the first pair
  that is not two hexadecimal digits; a trailing single character is dropped.
\<close>

fun fromHex :: "string \<Rightarrow> byte list" where
  "fromHex (a # b # rest) =
     (case (hexval a, hexval b) of
        (Some x, Some y) \<Rightarrow> of_nat (16 * x + y) # fromHex rest
      | _ \<Rightarrow> [])"
| "fromHex _ = []"

text \<open>\<^verbatim>\<open>buffer.toString('hex')\<close>: two lower-case digits per byte.\<close>

definition toHex :: "byte list \<Rightarrow> string" where
  "toHex data = concat (map (\<lambda>b. [hexdigit (unat b div 16), hexdigit (unat b mod 16)]) data)"

text \<open>\<^verbatim>\<open>base58check\<close> and \<^verbatim>\<open>base58checkDecode\<close>.\<close>

definition base58check :: "crypto_lib \<Rightarrow> byte list \<Rightarrow> string" where
  "base58check lib data =
     (let checksum = take 4 (doubleSha256 lib data) in toBase58 (data @ checksum))"

definition base58checkDecode :: "crypto_lib \<Rightarrow> string \<Rightarrow> error + byte list" where
  "base58checkDecode lib encoded =
     (case fromBase58 encoded of
        Inl e \<Rightarrow> Inl e
      | Inr data \<Rightarrow>
          (let payload = take (length data - 4) data;
               checksum = drop (length data - 4) data;
               calculatedChecksum = take 4 (doubleSha256 lib payload)
           in if checksum \<noteq> calculatedChecksum
              then Inl (JsError ''Invalid base58check checksum'')
              else Inr payload))"

section \<open>address.ts\<close>

definition TETSUO_ADDRESS_PREFIX :: byte where
  "TETSUO_ADDRESS_PREFIX = 0x41"


text \<open>
  \<^verbatim>\<open>isValidAddress\<close>: false for the empty string, for a string not starting with \<^verbatim>\<open>T\<close>, when
  the base58check decoding throws, when the first payload byte is not the prefix
  (\<^verbatim>\<open>decoded[0]\<close> is \<^verbatim>\<open>undefined\<close> on an empty payload), and when the payload is not 21 bytes.
\<close>

definition isValidAddress :: "crypto_lib \<Rightarrow> string \<Rightarrow> bool" where
  "isValidAddress lib address =
     (if address = [] then False
      else if hd address \<noteq> CHR ''T'' then False
      else (case base58checkDecode lib address of
              Inl e \<Rightarrow> False
            | Inr decoded \<Rightarrow>
                (case decoded of
                   [] \<Rightarrow> False
                 | d0 # ds \<Rightarrow>
                     if d0 \<noteq> TETSUO_ADDRESS_PREFIX then False
                     else if length decoded \<noteq> 21 then False
                     else True)))"

definition validateAddress :: "crypto_lib \<Rightarrow> string \<Rightarrow> error + string" where
  "validateAddress lib address =
     (if \<not> isValidAddress lib address then Inl (InvalidAddressError address) else Inr address)"

definition addressToHash160 :: "crypto_lib \<Rightarrow> string \<Rightarrow> error + byte list" where
  "addressToHash160 lib address =
     (if \<not> isValidAddress lib address then Inl (InvalidAddressError address)
      else (case base58checkDecode lib address of
              Inl e \<Rightarrow> Inl e
            | Inr decoded \<Rightarrow> Inr (drop 1 decoded)))"

section \<open>transaction.ts: building a transaction\<close>

record UTXO =
  utxo_txid :: string
  utxo_vout :: nat
  utxo_value :: int
  utxo_confirmations :: int
  utxo_scriptPubKey :: "string option"

record TransactionInput =
  in_txid :: string
  in_vout :: nat
  in_scriptSig :: "string option"
  in_sequence :: "nat option"

record TransactionOutput =
  out_address :: string
  out_value :: int

record BuiltTransaction =
  inputs :: "TransactionInput list"
  outputs :: "TransactionOutput list"
  fee :: int

definition MIN_FEE :: int where
  "MIN_FEE = 25000"

definition FEE_PER_BYTE :: int where
  "FEE_PER_BYTE = 100"

definition estimateTransactionSize :: "nat \<Rightarrow> nat \<Rightarrow> int" where
  "estimateTransactionSize inputCount outputCount = int inputCount * 148 + int outputCount * 34 + 10"

definition estimateFee :: "nat \<Rightarrow> nat \<Rightarrow> int" where
  "estimateFee inputCount outputCount =
     (let size = estimateTransactionSize inputCount outputCount
      in max MIN_FEE (\<lceil>real_of_int size / 1000\<rceil> * FEE_PER_BYTE))"

text \<open>
  The selection loop of \<^verbatim>\<open>buildTransaction\<close>, from the state \<open>(selectedUTXOs, totalInput)\<close>:
  \<^verbatim>\<open>
  for (const utxo of sortedUTXOs) {
    selectedUTXOs.push(utxo);
    totalInput += utxo.value;
    const estimatedSize = selectedUTXOs.length * 148 + 2 * 34 + 10;
    const estimatedFee = Math.max(MIN_FEE, Math.ceil(estimatedSize / 1000) * FEE_PER_BYTE);
    if (totalInput >= amountSatoshis + estimatedFee) { break; }
  }
  \<close>
\<close>

fun select_loop :: "int \<Rightarrow> UTXO list \<Rightarrow> UTXO list \<Rightarrow> int \<Rightarrow> UTXO list \<times> int" where
  "select_loop amountSatoshis [] selectedUTXOs totalInput = (selectedUTXOs, totalInput)"
| "select_loop amountSatoshis (utxo # rest) selectedUTXOs totalInput =
     (let selectedUTXOs = selectedUTXOs @ [utxo];
          totalInput = totalInput + utxo_value utxo;
          estimatedSize = int (length selectedUTXOs) * 148 + 2 * 34 + 10;
          estimatedFee = max MIN_FEE (\<lceil>real_of_int estimatedSize / 1000\<rceil> * FEE_PER_BYTE)
      in if totalInput \<ge> amountSatoshis + estimatedFee then (selectedUTXOs, totalInput)
         else select_loop amountSatoshis rest selectedUTXOs totalInput)"

text \<open>
  \<^verbatim>\<open>[...utxos].sort((a, b) => a.confirmations - b.confirmations)\<close>: ascending by confirmation
  count; \<^verbatim>\<open>Array.prototype.sort\<close> is stable, as \<open>sort_key\<close> is.
\<close>

definition sortedUTXOs :: "UTXO list \<Rightarrow> UTXO list" where
  "sortedUTXOs utxos = sort_key utxo_confirmations utxos"

text \<open>
  \<^verbatim>\<open>buildTransaction\<close>. The argument \<open>amountSatoshis\<close> is the value of
  \<^verbatim>\<open>Math.floor(amount * COIN_VALUE)\<close>, which the source computes first, in double arithmetic,
  from the amount in coins; \<open>fromAddress\<close> is only validated. The literal \<open>seq\<close> written into
  every input is \<^verbatim>\<open>0xffffffff\<close> in \<^verbatim>\<open>src/transaction.ts\<close> and \<^verbatim>\<open>0xfffffffe\<close> in the earlier copy
  of the file (\<^verbatim>\<open>unnamed/part_001\<close>); the two copies of the function agree in everything else.
\<close>

definition buildTransaction_with ::
  "nat \<Rightarrow> crypto_lib \<Rightarrow> string \<Rightarrow> string \<Rightarrow> int \<Rightarrow> UTXO list \<Rightarrow> string \<Rightarrow> error + BuiltTransaction" where
  "buildTransaction_with seq lib fromAddress toAddress amountSatoshis utxos changeAddress =
     (case validateAddress lib fromAddress of Inl e \<Rightarrow> Inl e | Inr _ \<Rightarrow>
      case validateAddress lib toAddress of Inl e \<Rightarrow> Inl e | Inr _ \<Rightarrow>
      case validateAddress lib changeAddress of Inl e \<Rightarrow> Inl e | Inr _ \<Rightarrow>
      (let (selectedUTXOs, totalInput) = select_loop amountSatoshis (sortedUTXOs utxos) [] 0;
           inputSize = int (length selectedUTXOs) * 148;
           outputSize = 2 * 34;
           overhead = 10;
           txSize = inputSize + outputSize + overhead;
           fee = max MIN_FEE (\<lceil>real_of_int txSize / 1000\<rceil> * FEE_PER_BYTE)
       in if totalInput < amountSatoshis + fee
          then Inl (InsufficientFundsError (amountSatoshis + fee) totalInput)
          else
            (let inputs = map (\<lambda>utxo. \<lparr>in_txid = utxo_txid utxo, in_vout = utxo_vout utxo,
                                        in_scriptSig = None, in_sequence = Some seq\<rparr>) selectedUTXOs;
                 outputs = [\<lparr>out_address = toAddress, out_value = amountSatoshis\<rparr>];
                 change = totalInput - amountSatoshis - fee;
                 outputs = (if change > 0
                            then outputs @ [\<lparr>out_address = changeAddress, out_value = change\<rparr>]
                            else outputs)
             in Inr \<lparr>inputs = inputs, outputs = outputs, fee = fee\<rparr>)))"

text \<open>\<^verbatim>\<open>src/transaction.ts\<close>: \<^verbatim>\<open>sequence: 0xffffffff\<close>.\<close>

definition buildTransaction ::
  "crypto_lib \<Rightarrow> string \<Rightarrow> string \<Rightarrow> int \<Rightarrow> UTXO list \<Rightarrow> string \<Rightarrow> error + BuiltTransaction" where
  "buildTransaction = buildTransaction_with 0xffffffff"

text \<open>\<^verbatim>\<open>unnamed/part_001\<close>, the earlier copy: \<^verbatim>\<open>sequence: 0xfffffffe\<close>.\<close>

definition buildTransaction_part001 ::
  "crypto_lib \<Rightarrow> string \<Rightarrow> string \<Rightarrow> int \<Rightarrow> UTXO list \<Rightarrow> string \<Rightarrow> error + BuiltTransaction" where
  "buildTransaction_part001 = buildTransaction_with 0xfffffffe"

section \<open>More JavaScript primitives: parsing, slicing, comparing\<close>

text \<open>\<^verbatim>\<open>toString(16)\<close> on a possibly negative integer (a BigInt difference, an output value).\<close>

definition js_toString16 :: "int \<Rightarrow> string" where
  "js_toString16 v = (if v < 0 then CHR ''-'' # toString16 (nat (- v)) else toString16 (nat v))"

text \<open>The number a string of hexadecimal digits denotes, \<open>None\<close> when a character is no digit.\<close>

fun hex_value :: "nat \<Rightarrow> string \<Rightarrow> nat option" where
  "hex_value acc [] = Some acc"
| "hex_value acc (c # cs) =
     (case hexval c of None \<Rightarrow> None | Some d \<Rightarrow> hex_value (acc * 16 + d) cs)"

text \<open>
  \<^verbatim>\<open>BigInt('0x' + h)\<close>: the value of the digits, a \<^verbatim>\<open>SyntaxError\<close> when \<open>h\<close> is empty or has a
  character that is no hexadecimal digit. (White space around the digits, which \<^verbatim>\<open>BigInt\<close>
  would trim, is treated as an error here; the signer passes digit strings.)
\<close>

definition bigint_of_hex :: "string \<Rightarrow> error + nat" where
  "bigint_of_hex h =
     (if h = [] then Inl (JsError ''SyntaxError: Cannot convert 0x to a BigInt'')
      else (case hex_value 0 h of
              None \<Rightarrow> Inl (JsError (''SyntaxError: Cannot convert 0x'' @ h @ '' to a BigInt''))
            | Some v \<Rightarrow> Inr v))"

text \<open>
  \<^verbatim>\<open>parseInt(s, 16)\<close>: skip leading white space, read an optional sign, skip an optional
  \<^verbatim>\<open>0x\<close>, read the longest run of hexadecimal digits; \<^verbatim>\<open>NaN\<close> (\<open>None\<close>) when that run is empty.
\<close>

definition is_js_space :: "char \<Rightarrow> bool" where
  "is_js_space c \<longleftrightarrow> (of_char c :: nat) \<in> {9, 10, 11, 12, 13, 32, 160}"

definition parseInt16 :: "string \<Rightarrow> int option" where
  "parseInt16 s =
     (let s1 = dropWhile is_js_space s;
          sign = (case s1 of c # r \<Rightarrow> if c = CHR ''-'' then - 1 else (1::int) | [] \<Rightarrow> 1);
          s2 = (case s1 of c # r \<Rightarrow> if c = CHR ''-'' \<or> c = CHR ''+'' then r else s1 | [] \<Rightarrow> []);
          s3 = (case s2 of a # b # r \<Rightarrow>
                  if a = CHR ''0'' \<and> (b = CHR ''x'' \<or> b = CHR ''X'') then r else s2
                | _ \<Rightarrow> s2);
          digits = takeWhile (\<lambda>c. hexval c \<noteq> None) s3
      in (case hex_value 0 digits of
            None \<Rightarrow> None
          | Some v \<Rightarrow> if digits = [] then None else Some (sign * int v)))"

text \<open>
  \<^verbatim>\<open>s.slice(a, b)\<close> and \<^verbatim>\<open>s.slice(a)\<close> on positions that may be negative (counted from the end)
  or \<^verbatim>\<open>NaN\<close> (taken as 0).
\<close>

definition rel_index :: "nat \<Rightarrow> int option \<Rightarrow> nat" where
  "rel_index len p =
     (case p of
        None \<Rightarrow> 0
      | Some i \<Rightarrow> if i < 0 then nat (max (int len + i) 0) else min (nat i) len)"

definition js_slice :: "string \<Rightarrow> int option \<Rightarrow> int option \<Rightarrow> string" where
  "js_slice s a b =
     (let from = rel_index (length s) a; to = rel_index (length s) b
      in take (to - from) (drop from s))"

definition js_slice_from :: "string \<Rightarrow> int option \<Rightarrow> string" where
  "js_slice_from s a = drop (rel_index (length s) a) s"

text \<open>Arithmetic on numbers that may be \<^verbatim>\<open>NaN\<close>.\<close>

definition num_add :: "int option \<Rightarrow> int option \<Rightarrow> int option" where
  "num_add a b = (case (a, b) of (Some x, Some y) \<Rightarrow> Some (x + y) | _ \<Rightarrow> None)"

definition num_times2 :: "int option \<Rightarrow> int option" where
  "num_times2 a = (case a of Some x \<Rightarrow> Some (x * 2) | None \<Rightarrow> None)"

definition num_less :: "int option \<Rightarrow> int \<Rightarrow> bool" where
  "num_less a b = (case a of Some x \<Rightarrow> x < b | None \<Rightarrow> False)"

definition num_greater :: "int option \<Rightarrow> int \<Rightarrow> bool" where
  "num_greater a b = (case a of Some x \<Rightarrow> x > b | None \<Rightarrow> False)"

text \<open>\<^verbatim>\<open>a < b\<close> on strings: lexicographic on the code units.\<close>

fun js_str_less :: "string \<Rightarrow> string \<Rightarrow> bool" where
  "js_str_less [] [] = False"
| "js_str_less [] (y # ys) = True"
| "js_str_less (x # xs) [] = False"
| "js_str_less (x # xs) (y # ys) =
     ((of_char x :: nat) < of_char y \<or> (x = y \<and> js_str_less xs ys))"

section \<open>transaction.ts: DER signature encoding\<close>

definition curveOrder :: string where
  "curveOrder = ''FFFFFFFFFFFFFFFFFFFFFFFFFFFFFFFEBAAEDCE6AF48A03BBFD25E8CD0364141''"

text \<open>
  The three lines that normalise one integer:
  \<^verbatim>\<open>
  rHex = rHex.replace(/^0+/, '');
  if (rHex.length % 2) rHex = '0' + rHex;
  if (parseInt(rHex.slice(0, 2), 16) > 0x7f) rHex = '00' + rHex;
  \<close>
\<close>

definition der_strip :: "string \<Rightarrow> string" where
  "der_strip h =
     (let h = dropWhile (\<lambda>c. c = CHR ''0'') h;
          h = (if odd (length h) then CHR ''0'' # h else h);
          h = (if num_greater (parseInt16 (take 2 h)) 0x7f then ''00'' @ h else h)
      in h)"

text \<open>
  \<^verbatim>\<open>encodeDERSignature(rHex, sHex)\<close>. The content length is
  \<^verbatim>\<open>(2 + rLen.length + rHex.length + 2 + sLen.length + sHex.length) / 2\<close>; the sum is even
  whenever both length fields have two digits, which is so for integers below 256 bytes.
\<close>

definition encodeDERSignature :: "string \<Rightarrow> string \<Rightarrow> error + string" where
  "encodeDERSignature rHex sHex =
     (case bigint_of_hex sHex of Inl e \<Rightarrow> Inl e | Inr sValue \<Rightarrow>
      case bigint_of_hex curveOrder of Inl e \<Rightarrow> Inl e | Inr nValue \<Rightarrow>
      (let nHalf = nValue div 2;
           sHex = (if sValue > nHalf
                   then padStart 64 CHR ''0'' (toUpperCase (js_toString16 (int nValue - int sValue)))
                   else sHex);
           rHex = der_strip rHex;
           sHex = der_strip sHex;
           rLen = padStart 2 CHR ''0'' (toString16 (length rHex div 2));
           sLen = padStart 2 CHR ''0'' (toString16 (length sHex div 2));
           contentBytes = (2 + length rLen + length rHex + 2 + length sLen + length sHex) div 2;
           contentLength = padStart 2 CHR ''0'' (toString16 contentBytes)
       in Inr (''30'' @ contentLength @ ''02'' @ rLen @ rHex @ ''02'' @ sLen @ sHex)))"

section \<open>transaction.ts: the transaction codec\<close>

text \<open>
  \<^verbatim>\<open>encodeVarInt(s.length / 2)\<close>. For a string of odd length the argument is a half-integer
  \<open>k + 0.5\<close>, whose \<^verbatim>\<open>toString(16)\<close> is the digits of \<open>k\<close> followed by \<^verbatim>\<open>.8\<close>.
\<close>

definition encodeVarInt_half :: "nat \<Rightarrow> string" where
  "encodeVarInt_half len =
     (if even len then encodeVarInt (len div 2)
      else (let k = len div 2; str = toString16 k @ ''.8''
            in if k < 0xfd then padStart 2 CHR ''0'' str
               else if k < 0xffff then ''fd'' @ padStart 4 CHR ''0'' str
               else if k < 0xffffffff then ''fe'' @ padStart 8 CHR ''0'' str
               else ''ff'' @ padStart 16 CHR ''0'' str))"

definition createPayToPubKeyHashScript :: "byte list \<Rightarrow> string" where
  "createPayToPubKeyHashScript h = ''76'' @ ''a9'' @ ''14'' @ toHex h @ ''88'' @ ''ac''"

text \<open>\<^verbatim>\<open>scriptPubKeys && scriptPubKeys[i]\<close>: the \<open>i\<close>-th script when there is one and it is not empty.\<close>

definition script_at :: "string list \<Rightarrow> nat \<Rightarrow> string option" where
  "script_at scriptPubKeys i =
     (if i < length scriptPubKeys \<and> scriptPubKeys ! i \<noteq> [] then Some (scriptPubKeys ! i) else None)"

text \<open>The outpoint of an input: reversed txid and 4-byte index.\<close>

definition outpoint_hex :: "TransactionInput \<Rightarrow> string" where
  "outpoint_hex input =
     reverseTxid (in_txid input) @
     reverseBytesInPairs (padStart 8 CHR ''0'' (toString16 (in_vout input)))"

text \<open>\<^verbatim>\<open>reverseBytesInPairs((input.sequence ?? 0xffffffff).toString(16).padStart(8, '0'))\<close>\<close>

definition sequence_hex :: "TransactionInput \<Rightarrow> string" where
  "sequence_hex input =
     reverseBytesInPairs (padStart 8 CHR ''0''
       (toString16 (case in_sequence input of None \<Rightarrow> 0xffffffff | Some s \<Rightarrow> s)))"

text \<open>The body of the input loop of \<^verbatim>\<open>createTransactionHex\<close>, from index \<open>i\<close>.\<close>

fun inputs_hex :: "string list \<Rightarrow> nat \<Rightarrow> TransactionInput list \<Rightarrow> string" where
  "inputs_hex scriptPubKeys i [] = []"
| "inputs_hex scriptPubKeys i (input # rest) =
     outpoint_hex input @
     (case script_at scriptPubKeys i of
        Some scriptPubKey \<Rightarrow> encodeVarInt_half (length scriptPubKey) @ scriptPubKey
      | None \<Rightarrow> ''00'') @
     sequence_hex input @
     inputs_hex scriptPubKeys (Suc i) rest"

text \<open>
  The output loop; \<^verbatim>\<open>addressToHash160\<close> may throw. (The parameters \<^verbatim>\<open>inputs\<close> and \<^verbatim>\<open>outputs\<close>
  of the source are \<open>ins\<close> and \<open>outs\<close> here, the record fields having taken the names.)
\<close>

fun outputs_hex :: "crypto_lib \<Rightarrow> TransactionOutput list \<Rightarrow> error + string" where
  "outputs_hex lib [] = Inr []"
| "outputs_hex lib (output # rest) =
     (let valueHex = padStart 16 CHR ''0'' (js_toString16 (out_value output))
      in case addressToHash160 lib (out_address output) of Inl e \<Rightarrow> Inl e | Inr h160 \<Rightarrow>
         (let scriptPubKey = createPayToPubKeyHashScript h160
          in case outputs_hex lib rest of Inl e \<Rightarrow> Inl e | Inr rest_hex \<Rightarrow>
             Inr (reverseBytesInPairs valueHex @
                  encodeVarInt_half (length scriptPubKey) @ scriptPubKey @ rest_hex)))"

definition createTransactionHex ::
  "crypto_lib \<Rightarrow> TransactionInput list \<Rightarrow> TransactionOutput list \<Rightarrow> string list \<Rightarrow> error + string" where
  "createTransactionHex lib ins outs scriptPubKeys =
     (case outputs_hex lib outs of Inl e \<Rightarrow> Inl e | Inr outs_hex \<Rightarrow>
        Inr (''01000000'' @ encodeVarInt (length ins) @ inputs_hex scriptPubKeys 0 ins @
             encodeVarInt (length outs) @ outs_hex @ ''00000000''))"

text \<open>
  \<^verbatim>\<open>findOutputsPositionInHex\<close>. The position is a JavaScript number: it becomes \<^verbatim>\<open>NaN\<close> when a
  script length does not parse, and stays so.
\<close>

definition skip_input_count :: "string \<Rightarrow> int option \<Rightarrow> int option" where
  "skip_input_count transactionHex pos =
     (let b = js_slice transactionHex pos (num_add pos (Some 2))
      in if js_str_less b ''fd'' then num_add pos (Some 2)
         else if b = ''fd'' then num_add pos (Some 6)
         else if b = ''fe'' then num_add pos (Some 10)
         else num_add pos (Some 18))"

definition skip_script :: "string \<Rightarrow> int option \<Rightarrow> int option" where
  "skip_script transactionHex pos =
     (let scriptLenHex = js_slice transactionHex pos (num_add pos (Some 2))
      in if num_less (parseInt16 scriptLenHex) 0xfd then
           (let scriptLen = parseInt16 scriptLenHex
            in num_add (num_add pos (Some 2)) (num_times2 scriptLen))
         else if scriptLenHex = ''fd'' then
           (let scriptLen = parseInt16 (js_slice transactionHex (num_add pos (Some 2)) (num_add pos (Some 6)))
            in num_add (num_add pos (Some 6)) (num_times2 scriptLen))
         else if scriptLenHex = ''fe'' then
           (let scriptLen = parseInt16 (js_slice transactionHex (num_add pos (Some 2)) (num_add pos (Some 10)))
            in num_add (num_add pos (Some 10)) (num_times2 scriptLen))
         else
           (let scriptLen = parseInt16 (js_slice transactionHex (num_add pos (Some 2)) (num_add pos (Some 18)))
            in num_add (num_add pos (Some 18)) (num_times2 scriptLen)))"

fun skip_inputs :: "string \<Rightarrow> nat \<Rightarrow> int option \<Rightarrow> int option" where
  "skip_inputs transactionHex 0 pos = pos"
| "skip_inputs transactionHex (Suc n) pos =
     (let pos = num_add pos (Some 64);
          pos = num_add pos (Some 8);
          pos = skip_script transactionHex pos;
          pos = num_add pos (Some 8)
      in skip_inputs transactionHex n pos)"

definition findOutputsPositionInHex :: "string \<Rightarrow> nat \<Rightarrow> int option" where
  "findOutputsPositionInHex transactionHex inputCount =
     (let pos = Some 0;
          pos = num_add pos (Some 8);
          pos = skip_input_count transactionHex pos
      in skip_inputs transactionHex inputCount pos)"

section \<open>wallet.ts: key derivation and import\<close>

text \<open>Decimal rendering of a number in a message (\<^verbatim>\<open>'...' + i\<close>, template strings).\<close>

function toString10 :: "nat \<Rightarrow> string" where
  "toString10 n =
     (if n < 10 then [hexdigit n] else toString10 (n div 10) @ [hexdigit (n mod 10)])"
  by pat_completeness auto
termination
  by (relation "measure id") auto

declare toString10.simps [simp del]



text \<open>
  \<^verbatim>\<open>derivePublicKey\<close>: whatever the library throws is rethrown as a \<^verbatim>\<open>WalletError\<close>; the text of
  the library's own message is not modelled.
\<close>

definition derivePublicKey :: "crypto_lib \<Rightarrow> string \<Rightarrow> error + string" where
  "derivePublicKey lib privateKeyHex =
     (case ec_public_compressed lib privateKeyHex of
        None \<Rightarrow> Inl (WalletError ''Failed to derive public key: '')
      | Some pubKeyCompressed \<Rightarrow> Inr pubKeyCompressed)"

text \<open>
  \<^verbatim>\<open>derivePublicKeyLegacy\<close>: HMAC-SHA256 of the key bytes under the key \<^verbatim>\<open>'secp256k1'\<close>; the
  parity of the last byte chooses the prefix (the last byte of an empty buffer is
  \<^verbatim>\<open>undefined\<close>, which gives \<^verbatim>\<open>0x03\<close>).
\<close>

definition derivePublicKeyLegacy :: "crypto_lib \<Rightarrow> string \<Rightarrow> string" where
  "derivePublicKeyLegacy lib privateKeyHex =
     (let privateKeyBuffer = fromHex privateKeyHex;
          publicKeyBuffer = hmac_sha256 lib (map (\<lambda>c. of_nat (of_char c)) ''secp256k1'') privateKeyBuffer;
          compressionByte = (if publicKeyBuffer \<noteq> [] \<and> even (unat (last publicKeyBuffer))
                             then 0x02 else 0x03);
          compressedKey = [compressionByte] @ take 32 publicKeyBuffer
      in toHex compressedKey)"



section \<open>transaction.ts: signing\<close>

text \<open>\<^verbatim>\<open>utxo.scriptPubKey\<close> when it is truthy: present and not the empty string.\<close>

definition truthy_script :: "UTXO \<Rightarrow> string option" where
  "truthy_script u =
     (case utxo_scriptPubKey u of None \<Rightarrow> None | Some s \<Rightarrow> if s = [] then None else Some s)"

text \<open>
  The detection of the derivation method (lines 173 to 196), given the secp256k1 key already
  derived. An absent \<^verbatim>\<open>utxos\<close> argument behaves as the empty list.
\<close>

definition detect_pubkey :: "crypto_lib \<Rightarrow> string \<Rightarrow> UTXO list \<Rightarrow> string \<Rightarrow> string" where
  "detect_pubkey lib privateKey utxos pubKeyCompressed =
     (case utxos of
        [] \<Rightarrow> pubKeyCompressed
      | u0 # _ \<Rightarrow>
          (case truthy_script u0 of
             None \<Rightarrow> pubKeyCompressed
           | Some scriptPubKey \<Rightarrow>
               if take 6 scriptPubKey = ''76a914'' \<and> length scriptPubKey = 50 then
                 (let hashFromScript = take 40 (drop 6 scriptPubKey);
                      hash160Secp = toHex (hash160 lib (fromHex pubKeyCompressed))
                  in if hash160Secp = hashFromScript then pubKeyCompressed
                     else
                       (let pubKeyLegacy = derivePublicKeyLegacy lib privateKey;
                            hash160Hmac = toHex (hash160 lib (fromHex pubKeyLegacy))
                        in if hash160Hmac = hashFromScript then pubKeyLegacy
                           else pubKeyCompressed))
               else pubKeyCompressed))"

text \<open>The inputs of the preimage for input \<open>i\<close>: its script field holds the locking script.\<close>

fun preimage_inputs :: "nat \<Rightarrow> string \<Rightarrow> nat \<Rightarrow> TransactionInput list \<Rightarrow> string" where
  "preimage_inputs i scriptPubKey j [] = []"
| "preimage_inputs i scriptPubKey j (input # rest) =
     outpoint_hex input @
     (if j = i then encodeVarInt_half (length scriptPubKey) @ scriptPubKey else ''00'') @
     sequence_hex input @
     preimage_inputs i scriptPubKey (Suc j) rest"

text \<open>Signature, DER encoding and script assembly, shared by the main path and the fallback.\<close>

definition make_scriptSig :: "crypto_lib \<Rightarrow> string \<Rightarrow> byte list \<Rightarrow> string \<Rightarrow> error + string" where
  "make_scriptSig lib privateKey digest pubKeyCompressed =
     (case ec_sign lib privateKey digest of
        None \<Rightarrow> Inl (JsError ''sign'')
      | Some (r, s) \<Rightarrow>
          (let rHex = padStart 64 CHR ''0'' (toString16 r);
               sHex = padStart 64 CHR ''0'' (toString16 s)
           in case encodeDERSignature rHex sHex of
                Inl e \<Rightarrow> Inl e
              | Inr der \<Rightarrow>
                  (let derSig = der @ ''01''
                   in Inr (encodeVarInt_half (length derSig) @ derSig @
                           encodeVarInt_half (length pubKeyCompressed) @ pubKeyCompressed))))"

text \<open>One round of the signing loop, for input \<open>i\<close>.\<close>

definition sign_input ::
  "crypto_lib \<Rightarrow> string \<Rightarrow> string \<Rightarrow> TransactionInput list \<Rightarrow> UTXO list \<Rightarrow> string \<Rightarrow> nat \<Rightarrow> error + string" where
  "sign_input lib transactionHex privateKey ins utxos pubKeyCompressed i =
     (case (if i < length utxos then truthy_script (utxos ! i) else None) of
        None \<Rightarrow> Inl (JsError (''Missing UTXO scriptPubKey for input '' @ toString10 i))
      | Some scriptPubKey \<Rightarrow>
          (let preimageHex = ''01000000'' @ encodeVarInt (length ins) @
                             preimage_inputs i scriptPubKey 0 ins;
               outputPos = findOutputsPositionInHex transactionHex (length ins);
               preimageHex = preimageHex @ js_slice_from transactionHex outputPos @ ''01000000'';
               preimageBuffer = fromHex preimageHex;
               preimageHash = doubleSha256 lib preimageBuffer
           in make_scriptSig lib privateKey preimageHash pubKeyCompressed))"

fun sign_inputs ::
  "crypto_lib \<Rightarrow> string \<Rightarrow> string \<Rightarrow> TransactionInput list \<Rightarrow> UTXO list \<Rightarrow> string \<Rightarrow> nat list \<Rightarrow> error + string list" where
  "sign_inputs lib transactionHex privateKey ins utxos pubKeyCompressed [] = Inr []"
| "sign_inputs lib transactionHex privateKey ins utxos pubKeyCompressed (i # rest) =
     (case sign_input lib transactionHex privateKey ins utxos pubKeyCompressed i of
        Inl e \<Rightarrow> Inl e
      | Inr scriptSig \<Rightarrow>
          (case sign_inputs lib transactionHex privateKey ins utxos pubKeyCompressed rest of
             Inl e \<Rightarrow> Inl e
           | Inr scriptSigs \<Rightarrow> Inr (scriptSig # scriptSigs)))"

text \<open>The inputs of the rebuilt transaction, each with its script.\<close>

definition signed_inputs :: "TransactionInput list \<Rightarrow> string list \<Rightarrow> string" where
  "signed_inputs ins scriptSigs =
     concat (map (\<lambda>(input, scriptSig).
                    outpoint_hex input @ encodeVarInt_half (length scriptSig) @ scriptSig @
                    sequence_hex input)
                 (zip ins scriptSigs))"

text \<open>The body of the outer \<^verbatim>\<open>try\<close>.\<close>

definition signTransaction_main ::
  "crypto_lib \<Rightarrow> string \<Rightarrow> string \<Rightarrow> TransactionInput list \<Rightarrow> UTXO list \<Rightarrow> error + string" where
  "signTransaction_main lib transactionHex privateKey ins utxos =
     (case derivePublicKey lib privateKey of
        Inl e \<Rightarrow> Inl e
      | Inr pubKeySecp \<Rightarrow>
          (let pubKeyCompressed = detect_pubkey lib privateKey utxos pubKeySecp
           in case sign_inputs lib transactionHex privateKey ins utxos pubKeyCompressed
                     [0..<length ins] of
                Inl e \<Rightarrow> Inl e
              | Inr scriptSigs \<Rightarrow>
                  (let signedHex = ''01000000'' @ encodeVarInt (length ins) @
                                   signed_inputs ins scriptSigs;
                       outputPos = findOutputsPositionInHex transactionHex (length ins)
                   in Inr (signedHex @ js_slice_from transactionHex outputPos))))"

text \<open>
  The body of the inner \<^verbatim>\<open>try\<close> (\<^verbatim>\<open>// Fallback: try simple signing\<close>): one signature over the
  hash of the whole hex, spliced into the script slot of the first input at the fixed
  position 82.
\<close>

definition signTransaction_fallback :: "crypto_lib \<Rightarrow> string \<Rightarrow> string \<Rightarrow> error + string" where
  "signTransaction_fallback lib transactionHex privateKey =
     (case ec_public_hex lib privateKey of
        None \<Rightarrow> Inl (JsError ''getPublic'')
      | Some pubKeyUncompressed \<Rightarrow>
          (let parity = parseInt16 (js_slice_from pubKeyUncompressed (Some (- 2)));
               pubKeyCompressed =
                 (if (case parity of None \<Rightarrow> False | Some v \<Rightarrow> v mod 2 = 0) then ''02'' else ''03'') @
                 take 64 pubKeyUncompressed;
               txHash = doubleSha256 lib (fromHex transactionHex)
           in case make_scriptSig lib privateKey txHash pubKeyCompressed of
                Inl e \<Rightarrow> Inl e
              | Inr scriptSig \<Rightarrow>
                  (let pos = 82;
                       beforeScript = take pos transactionHex;
                       afterScriptStart = pos + 2;
                       afterScript = drop afterScriptStart transactionHex
                   in Inr (beforeScript @ encodeVarInt_half (length scriptSig) @ scriptSig @
                           afterScript))))"

text \<open>
  \<^verbatim>\<open>signTransaction\<close>: the outer \<^verbatim>\<open>catch\<close> runs the fallback, the inner \<^verbatim>\<open>catch\<close> logs the first
  error to the console and returns the hex it was given. No path rethrows, so the result is
  always \<open>Inr\<close>.
\<close>

definition signTransaction ::
  "crypto_lib \<Rightarrow> string \<Rightarrow> string \<Rightarrow> TransactionInput list \<Rightarrow> UTXO list \<Rightarrow> error + string" where
  "signTransaction lib transactionHex privateKey ins utxos =
     (case signTransaction_main lib transactionHex privateKey ins utxos of
        Inr signedHex \<Rightarrow> Inr signedHex
      | Inl error \<Rightarrow>
          (case signTransaction_fallback lib transactionHex privateKey of
             Inr spliced \<Rightarrow> Inr spliced
           | Inl error2 \<Rightarrow> Inr transactionHex))"

section \<open>Notions of the specification used to state the claims\<close>

text \<open>
  The fee estimate of the selection loop when \<open>k\<close> outputs have been selected, as the claim
  writes it: \<open>max(minimumFee, ceil((k * 148 + 2 * 34 + 10) / 1000) * feeRate)\<close>.
\<close>

definition loop_fee :: "nat \<Rightarrow> int" where
  "loop_fee k = max MIN_FEE (\<lceil>real_of_int (int k * 148 + 2 * 34 + 10) / 1000\<rceil> * FEE_PER_BYTE)"

text \<open>The first \<open>k\<close> outputs of a list cover the amount plus the fee estimate for \<open>k\<close> inputs.\<close>

definition covers :: "int \<Rightarrow> UTXO list \<Rightarrow> nat \<Rightarrow> bool" where
  "covers amount us k \<longleftrightarrow> sum_list (map utxo_value (take k us)) \<ge> amount + loop_fee k"

text \<open>
  The fee \<^verbatim>\<open>buildTransaction\<close> computes after the loop (\<^verbatim>\<open>// Calculate final fee\<close>), and the
  total it has accumulated, as functions of the amount and the UTXO set.
\<close>

definition final_fee :: "int \<Rightarrow> UTXO list \<Rightarrow> int" where
  "final_fee amount utxos = estimateFee (length (fst (select_loop amount (sortedUTXOs utxos) [] 0))) 2"

definition total_input :: "int \<Rightarrow> UTXO list \<Rightarrow> int" where
  "total_input amount utxos = snd (select_loop amount (sortedUTXOs utxos) [] 0)"

text \<open>
  In the transaction format of the chain (Bitcoin's), the sequence number \<^verbatim>\<open>0xffffffff\<close> marks
  an input as final; every smaller sequence number is non-final.
\<close>

definition SEQUENCE_FINAL :: nat where
  "SEQUENCE_FINAL = 0xffffffff"

definition non_final :: "nat \<Rightarrow> bool" where
  "non_final sequence \<longleftrightarrow> sequence < SEQUENCE_FINAL"

text \<open>Strings of lower-case hexadecimal digits, as \<^verbatim>\<open>toString(16)\<close> produces them.\<close>

definition lower_hex :: "string \<Rightarrow> bool" where
  "lower_hex s \<longleftrightarrow> (\<forall>c \<in> set s. \<exists>d < 16. c = hexdigit d)"

text \<open>
  Well-formed inputs of the codec (the interface of the specification): a transaction id of
  64 characters, an output index and a sequence number of at most four bytes; a script is a
  hex string of whole bytes. (The bound on the script length only excludes strings no
  JavaScript engine can hold.)
\<close>

definition wf_input :: "TransactionInput \<Rightarrow> bool" where
  "wf_input i \<longleftrightarrow>
     length (in_txid i) = 64 \<and> in_vout i < 2 ^ 32 \<and>
     (case in_sequence i of None \<Rightarrow> True | Some s \<Rightarrow> s < 2 ^ 32)"

definition wf_script :: "string \<Rightarrow> bool" where
  "wf_script s \<longleftrightarrow> even (length s) \<and> length s div 2 < 2 ^ 64"

text \<open>Strings of hexadecimal digits of either case.\<close>

definition all_hex :: "string \<Rightarrow> bool" where
  "all_hex s \<longleftrightarrow> (\<forall>c \<in> set s. hexval c \<noteq> None)"

text \<open>
  The notions of the signature claim: the order of the curve, the canonical (low) value of
  \<open>s\<close>, the big-endian bytes of a number without leading zero bytes, and the minimal DER
  content of a positive integer (one zero byte in front when the high bit of the first byte
  is set).
\<close>

definition secp256k1_n :: nat where
  "secp256k1_n = 0xFFFFFFFFFFFFFFFFFFFFFFFFFFFFFFFEBAAEDCE6AF48A03BBFD25E8CD0364141"

definition low_s :: "nat \<Rightarrow> nat" where
  "low_s s = (if s > secp256k1_n div 2 then secp256k1_n - s else s)"

function be_bytes :: "nat \<Rightarrow> byte list" where
  "be_bytes v = (if v = 0 then [] else be_bytes (v div 256) @ [of_nat (v mod 256)])"
  by pat_completeness auto
termination
  by (relation "measure id") auto

declare be_bytes.simps [simp del]

definition der_integer :: "nat \<Rightarrow> byte list" where
  "der_integer v = (let bs = be_bytes v in if bs \<noteq> [] \<and> hd bs \<ge> 0x80 then 0 # bs else bs)"

text \<open>A digit string made even in length by one leading zero.\<close>

definition even_pad :: "string \<Rightarrow> string" where
  "even_pad t = (if odd (length t) then CHR ''0'' # t else t)"

text \<open>
  A hex string is the DER signature of \<open>(r, s)\<close> in low-S form: its bytes are
  \<^verbatim>\<open>30 len 02 len(R) R 02 len(S) S\<close>, with \<open>R\<close> the minimal content of \<open>r\<close> and \<open>S\<close> that of the low
  value of \<open>s\<close>, which is at most half the order of the curve.
\<close>

definition der_low_s :: "nat \<Rightarrow> nat \<Rightarrow> string \<Rightarrow> bool" where
  "der_low_s r s sig \<longleftrightarrow>
     length sig = 2 * length (fromHex sig) \<and>
     fromHex sig =
       [0x30, of_nat (4 + length (der_integer r) + length (der_integer (low_s s))),
        0x02, of_nat (length (der_integer r))] @ der_integer r @
       [0x02, of_nat (length (der_integer (low_s s)))] @ der_integer (low_s s) \<and>
     bytes_to_num 0 (der_integer r) = r \<and>
     bytes_to_num 0 (der_integer (low_s s)) = low_s s \<and>
     low_s s \<le> secp256k1_n div 2"

text \<open>
  The digest the signing loop of \<^verbatim>\<open>signTransaction\<close> signs for input \<open>i\<close>, whose locking script
  is \<open>scriptPubKey\<close>: the double SHA-256 of the preimage (version, input count, the inputs with
  the locking script in the slot of input \<open>i\<close> and empty scripts elsewhere, the output section
  of the unsigned hex, and the hash type \<^verbatim>\<open>01000000\<close>).
\<close>

definition sighash_digest ::
  "crypto_lib \<Rightarrow> string \<Rightarrow> TransactionInput list \<Rightarrow> nat \<Rightarrow> string \<Rightarrow> byte list" where
  "sighash_digest lib transactionHex ins i scriptPubKey =
     doubleSha256 lib (fromHex (''01000000'' @ encodeVarInt (length ins) @
       preimage_inputs i scriptPubKey 0 ins @
       js_slice_from transactionHex (findOutputsPositionInHex transactionHex (length ins)) @
       ''01000000''))"

text \<open>
  The key the fallback of \<^verbatim>\<open>signTransaction\<close> pushes, from the uncompressed key in hex: a prefix
  from the parity of the last two characters, then the first 64 characters.
\<close>

definition fallback_key :: "string \<Rightarrow> string" where
  "fallback_key pubKeyUncompressed =
     (if (case parseInt16 (js_slice_from pubKeyUncompressed (Some (- 2))) of
            None \<Rightarrow> False | Some v \<Rightarrow> v mod 2 = 0) then ''02'' else ''03'') @
     take 64 pubKeyUncompressed"

text \<open>A valid secret: 64 hexadecimal digits denoting a scalar \<open>k\<close> with \<open>1 \<le> k < n\<close>.\<close>

definition valid_scalar :: "string \<Rightarrow> bool" where
  "valid_scalar k \<longleftrightarrow>
     length k = 64 \<and>
     (case hex_value 0 k of None \<Rightarrow> False | Some v \<Rightarrow> 0 < v \<and> v < secp256k1_n)"

section \<open>Concrete instances of the library parameters and concrete inputs\<close>

text \<open>
  To run the model on concrete inputs, the library parameters need values. \<open>demo_lib\<close> is
  a fixed, computable stand-in with the right output sizes: its digests depend only on the
  length of the input, its key derivation accepts every string, and its signature is a fixed
  pair. The general theorems below hold for every library; the runs on \<open>demo_lib\<close> show the
  control flow of the wallet code, not properties of the real hash functions.
\<close>

definition demo_lib :: crypto_lib where
  "demo_lib =
     \<lparr>sha256_digest = (\<lambda>d. replicate 32 (of_nat (length d))),
      ripemd160_digest = (\<lambda>d. replicate 20 (of_nat (length d))),
      hmac_sha256 = (\<lambda>k d. replicate 32 (of_nat (length k + length d))),
      ec_public_compressed = (\<lambda>k. Some (''02'' @ k)),
      ec_public_hex = (\<lambda>k. Some (''04'' @ k @ k)),
      ec_sign = (\<lambda>k d. Some (1, 2))\<rparr>"

definition demo_address :: string where
  "demo_address = ''TCu57KGUsWnaZQudzeamkTfUjp9Lr1kHu1''"

text \<open>
  A second instance of the library parameters: one that validates the key, throwing unless
  it is a valid secret. Otherwise as \<open>demo_lib\<close>.
\<close>

definition strict_lib :: crypto_lib where
  "strict_lib =
     demo_lib
       \<lparr>ec_public_compressed := (\<lambda>k. if valid_scalar k then Some (''02'' @ k) else None),
        ec_public_hex := (\<lambda>k. if valid_scalar k then Some (''04'' @ k @ k) else None),
        ec_sign := (\<lambda>k d. if valid_scalar k then Some (1, 2) else None)\<rparr>"


definition high_s_lib :: crypto_lib where
  "high_s_lib = demo_lib \<lparr>ec_sign := (\<lambda>k d. Some (2 ^ 255, 2 ^ 255))\<rparr>"

definition zero_key :: string where
  "zero_key = ''0000000000000000000000000000000000000000000000000000000000000000''"

definition z_key :: string where
  "z_key = ''zzzzzzzzzzzzzzzzzzzzzzzzzzzzzzzzzzzzzzzzzzzzzzzzzzzzzzzzzzzzzzzz''"

definition ff_key :: string where
  "ff_key = ''ffffffffffffffffffffffffffffffffffffffffffffffffffffffffffffffff''"

text \<open>Concrete UTXO sets for the runs.\<close>

definition demo_utxos :: "UTXO list" where
  "demo_utxos =
     [\<lparr>utxo_txid = ''aa'', utxo_vout = 0, utxo_value = 30000, utxo_confirmations = 10, utxo_scriptPubKey = None\<rparr>,
      \<lparr>utxo_txid = ''bb'', utxo_vout = 1, utxo_value = 40000, utxo_confirmations = 1, utxo_scriptPubKey = None\<rparr>,
      \<lparr>utxo_txid = ''cc'', utxo_vout = 2, utxo_value = 50000, utxo_confirmations = 5, utxo_scriptPubKey = None\<rparr>]"

definition demo_sorted :: "UTXO list" where
  "demo_sorted =
     [\<lparr>utxo_txid = ''bb'', utxo_vout = 1, utxo_value = 40000, utxo_confirmations = 1, utxo_scriptPubKey = None\<rparr>,
      \<lparr>utxo_txid = ''cc'', utxo_vout = 2, utxo_value = 50000, utxo_confirmations = 5, utxo_scriptPubKey = None\<rparr>,
      \<lparr>utxo_txid = ''aa'', utxo_vout = 0, utxo_value = 30000, utxo_confirmations = 10, utxo_scriptPubKey = None\<rparr>]"

definition demo_utxo :: UTXO where
  "demo_utxo = \<lparr>utxo_txid = ''aa'', utxo_vout = 0, utxo_value = 100000000,
                 utxo_confirmations = 10, utxo_scriptPubKey = None\<rparr>"

text \<open>Concrete inputs, outputs and a key for the runs of the codec and the signer.\<close>

definition demo_txid :: string where
  "demo_txid = ''000102030405060708090a0b0c0d0e0f101112131415161718191a1b1c1d1e1f''"

definition demo_input1 :: TransactionInput where
  "demo_input1 = \<lparr>in_txid = demo_txid, in_vout = 0, in_scriptSig = None, in_sequence = Some 0xffffffff\<rparr>"

definition demo_input2 :: TransactionInput where
  "demo_input2 = \<lparr>in_txid = demo_txid, in_vout = 1, in_scriptSig = None, in_sequence = Some 0xffffffff\<rparr>"

definition demo_outputs :: "TransactionOutput list" where
  "demo_outputs = [\<lparr>out_address = demo_address, out_value = 50000000\<rparr>,
                   \<lparr>out_address = demo_address, out_value = 49975000\<rparr>]"

definition demo_key :: string where
  "demo_key = ''0000000000000000000000000000000000000000000000000000000000000001''"

definition demo_unsigned_hex :: string where
  "demo_unsigned_hex =
     ''0100000002'' @
     ''1f1e1d1c1b1a191817161514131211100f0e0d0c0b0a09080706050403020100'' @ ''00000000'' @ ''00'' @ ''ffffffff'' @
     ''1f1e1d1c1b1a191817161514131211100f0e0d0c0b0a09080706050403020100'' @ ''01000000'' @ ''00'' @ ''ffffffff'' @
     ''02'' @
     ''80f0fa0200000000'' @ ''1976a914202020202020202020202020202020202020202088ac'' @
     ''d88efa0200000000'' @ ''1976a914202020202020202020202020202020202020202088ac'' @
     ''00000000''"


definition demo_unsigned_hex1 :: string where
  "demo_unsigned_hex1 =
     ''0100000001'' @
     ''1f1e1d1c1b1a191817161514131211100f0e0d0c0b0a09080706050403020100'' @ ''00000000'' @ ''00'' @ ''ffffffff'' @
     ''02'' @
     ''80f0fa0200000000'' @ ''1976a914202020202020202020202020202020202020202088ac'' @
     ''d88efa0200000000'' @ ''1976a914202020202020202020202020202020202020202088ac'' @
     ''00000000''"

text \<open>A UTXO whose script commits to the hash that \<open>demo_lib\<close> gives the keys of \<open>demo_key\<close>.\<close>

definition own_utxo :: UTXO where
  "own_utxo =
     \<lparr>utxo_txid = demo_txid, utxo_vout = 0, utxo_value = 100000000, utxo_confirmations = 10,
      utxo_scriptPubKey = Some ''76a914202020202020202020202020202020202020202088ac''\<rparr>"


section \<open>Evaluation rules for concrete inputs\<close>

lemmas hex_eval = hexdigit_def hex_chars_def padStart_def toString16.simps

section \<open>Varint encoding\<close>

text \<open>
  C3. The claim has the multi-byte payload of a varint little-endian. The encoder writes
  \<^verbatim>\<open>num.toString(16).padStart(4, '0')\<close> after the prefix, which is the big-endian digit string:
  256 is written \<^verbatim>\<open>fd0100\<close>, while the little-endian form, as the sibling
  \<^verbatim>\<open>reverseBytesInPairs\<close> produces it for the fixed-width fields, is \<^verbatim>\<open>fd0001\<close>.
\<close>

theorem encodeVarInt_256_big_endian:
  "encodeVarInt 256 = ''fd0100'' \<and>
   ''fd'' @ reverseBytesInPairs (padStart 4 CHR ''0'' (toString16 256)) = ''fd0001''"
  by (simp add: encodeVarInt_def reverseBytesInPairs_def hex_eval)

section \<open>Base58\<close>

lemma alphabet_index_all:
  "list_all (\<lambda>d. indexOf alphabet (alphabet ! d) = Some d) [0..<58]"
  unfolding alphabet_def by (simp add: upt_rec)

lemma alphabet_index: "d < 58 \<Longrightarrow> indexOf alphabet (alphabet ! d) = Some d"
  using alphabet_index_all by (simp add: list_all_iff)

lemma alphabet_nonone_all:
  "list_all (\<lambda>d. alphabet ! d \<noteq> CHR ''1'') [1..<58]"
  unfolding alphabet_def by (simp add: upt_rec)

lemma alphabet_nonone: "0 < d \<Longrightarrow> d < 58 \<Longrightarrow> alphabet ! d \<noteq> CHR ''1''"
  using alphabet_nonone_all by (simp add: list_all_iff)

lemma indexOf_one: "indexOf alphabet CHR ''1'' = Some 0"
  by (simp add: alphabet_def)

text \<open>Decoding the digits the encoder's loop prepends gives the number back.\<close>

lemma b58_to_num_digits: "b58_to_num 0 (b58_digits n s) = b58_to_num n s"
proof (induction n s rule: b58_digits.induct)
  case (1 num encoded)
  show ?case
  proof (cases "num > 0")
    case True
    have "b58_to_num 0 (b58_digits num encoded)
          = b58_to_num 0 (b58_digits (num div 58) (alphabet ! (num mod 58) # encoded))"
      using True by (subst b58_digits.simps) simp
    also have "\<dots> = b58_to_num (num div 58) (alphabet ! (num mod 58) # encoded)"
      using 1 True by simp
    also have "\<dots> = b58_to_num (num div 58 * 58 + num mod 58) encoded"
      by (simp add: alphabet_index)
    finally show ?thesis by simp
  next
    case False
    then show ?thesis by (simp add: b58_digits.simps)
  qed
qed

lemma b58_digits_head:
  "n > 0 \<Longrightarrow> b58_digits n e \<noteq> [] \<and> hd (b58_digits n e) \<noteq> CHR ''1''"
proof (induction n e rule: b58_digits.induct)
  case (1 num encoded)
  show ?case
  proof (cases "num div 58 > 0")
    case True
    with 1 show ?thesis by (subst (1 2) b58_digits.simps) simp
  next
    case False
    then have lt: "num < 58" by (simp add: div_eq_0_iff)
    then have "b58_digits num encoded = alphabet ! num # encoded"
      using 1(2) by (simp add: b58_digits.simps)
    then show ?thesis using alphabet_nonone [OF 1(2) lt] by simp
  qed
qed

lemma leading_ones_eq:
  "leading_ones buf e = replicate (length (takeWhile (\<lambda>b. b = 0) buf)) CHR ''1'' @ e"
  by (induction buf arbitrary: e) (simp_all add: replicate_append_same)

lemma b58_to_num_ones: "b58_to_num 0 (replicate k CHR ''1'' @ e) = b58_to_num 0 e"
  by (induction k) (simp_all add: indexOf_one)

lemma leading_zeros_ones:
  "e = [] \<or> hd e \<noteq> CHR ''1'' \<Longrightarrow>
   leading_zeros (replicate k CHR ''1'' @ e) bs = replicate k 0 @ bs"
proof (induction k arbitrary: bs)
  case 0
  then show ?case by (cases e) auto
next
  case (Suc k)
  then show ?case by (simp add: replicate_append_same)
qed

lemma num_to_bytes_step:
  "a > 0 \<Longrightarrow> num_to_bytes (bytes_to_num a r) acc = num_to_bytes a (r @ acc)"
proof (induction r arbitrary: a acc)
  case Nil
  then show ?case by simp
next
  case (Cons b r)
  have pos: "a * 256 + unat b > 0" using Cons.prems by simp
  have lt: "unat b < 256" using unsigned_less [of b, where ?'a = nat] by simp
  have "num_to_bytes (bytes_to_num a (b # r)) acc = num_to_bytes (a * 256 + unat b) (r @ acc)"
    using Cons.IH [OF pos] by simp
  also have "\<dots> = num_to_bytes ((a * 256 + unat b) div 256)
                      (of_nat ((a * 256 + unat b) mod 256) # r @ acc)"
    using pos by (subst num_to_bytes.simps) simp
  also have "\<dots> = num_to_bytes a (b # r @ acc)"
    using lt by simp
  finally show ?case by simp
qed

lemma num_to_bytes_of_bytes:
  "num_to_bytes (bytes_to_num 0 buf) [] = dropWhile (\<lambda>b. b = 0) buf"
proof (induction buf)
  case Nil
  then show ?case by (simp add: num_to_bytes.simps)
next
  case (Cons b buf)
  show ?case
  proof (cases "b = 0")
    case True
    with Cons show ?thesis by simp
  next
    case False
    then have pos: "unat b > 0" by (simp add: unat_gt_0)
    have lt: "unat b < 256" using unsigned_less [of b, where ?'a = nat] by simp
    have "num_to_bytes (bytes_to_num 0 (b # buf)) [] = num_to_bytes (unat b) (buf @ [])"
      using num_to_bytes_step [OF pos] by simp
    also have "\<dots> = num_to_bytes (unat b div 256) (of_nat (unat b mod 256) # buf)"
      using pos by (subst num_to_bytes.simps) simp
    also have "\<dots> = b # buf"
      using lt by (simp add: num_to_bytes.simps)
    finally show ?thesis using False by simp
  qed
qed

lemma bytes_to_num_zero_iff: "bytes_to_num 0 buf = 0 \<Longrightarrow> dropWhile (\<lambda>b. b = 0) buf = []"
  using num_to_bytes_of_bytes [of buf] by (simp add: num_to_bytes.simps)

lemma takeWhile_zero: "takeWhile (\<lambda>b. b = 0) buf = replicate (length (takeWhile (\<lambda>b. b = (0::byte)) buf)) 0"
  by (induction buf) auto

text \<open>The encoder's output before the final \<^verbatim>\<open>|| '1'\<close>.\<close>

lemma toBase58_shape:
  assumes "buf \<noteq> []"
  defines "k \<equiv> length (takeWhile (\<lambda>b. b = 0) buf)"
  defines "D \<equiv> b58_digits (bytes_to_num 0 buf) []"
  shows "toBase58 buf = replicate k CHR ''1'' @ D" and "D = [] \<or> hd D \<noteq> CHR ''1''"
proof -
  show D: "D = [] \<or> hd D \<noteq> CHR ''1''"
  proof (cases "bytes_to_num 0 buf > 0")
    case True
    then show ?thesis unfolding D_def using b58_digits_head by blast
  next
    case False
    then show ?thesis unfolding D_def by (simp add: b58_digits.simps)
  qed
  have ne: "replicate k CHR ''1'' @ D \<noteq> []"
  proof
    assume e: "replicate k CHR ''1'' @ D = []"
    then have k0: "k = 0" and D0: "D = []" by simp_all
    have "bytes_to_num 0 buf = 0"
    proof (rule ccontr)
      assume "bytes_to_num 0 buf \<noteq> 0"
      then have "bytes_to_num 0 buf > 0" by simp
      from b58_digits_head [OF this, of "[]"] D0 show False by (simp add: D_def)
    qed
    then have dw: "dropWhile (\<lambda>b. b = 0) buf = []" by (rule bytes_to_num_zero_iff)
    have tw: "takeWhile (\<lambda>b. b = 0) buf = []" using k0 by (simp add: k_def)
    have "takeWhile (\<lambda>b. b = 0) buf @ dropWhile (\<lambda>b. b = 0) buf = buf"
      by (rule takeWhile_dropWhile_id)
    then have "buf = []" unfolding dw tw by simp
    with assms(1) show False by simp
  qed
  then show "toBase58 buf = replicate k CHR ''1'' @ D"
    by (simp add: toBase58_def Let_def leading_ones_eq k_def D_def)
qed

text \<open>The round trip, for every buffer but the empty one.\<close>

lemma fromBase58_toBase58:
  assumes "buf \<noteq> []"
  shows "fromBase58 (toBase58 buf) = Inr buf"
proof -
  define k where "k = length (takeWhile (\<lambda>b. b = 0) buf)"
  define D where "D = b58_digits (bytes_to_num 0 buf) []"
  have shape: "toBase58 buf = replicate k CHR ''1'' @ D" and D: "D = [] \<or> hd D \<noteq> CHR ''1''"
    using toBase58_shape [OF assms] by (simp_all add: k_def D_def)
  have num: "b58_to_num 0 (replicate k CHR ''1'' @ D) = Inr (bytes_to_num 0 buf)"
    by (simp add: b58_to_num_ones D_def b58_to_num_digits)
  have "leading_zeros (replicate k CHR ''1'' @ D) (num_to_bytes (bytes_to_num 0 buf) [])
        = replicate k 0 @ dropWhile (\<lambda>b. b = 0) buf"
    using leading_zeros_ones [OF D] by (simp add: num_to_bytes_of_bytes)
  also have "\<dots> = takeWhile (\<lambda>b. b = 0) buf @ dropWhile (\<lambda>b. b = 0) buf"
    using takeWhile_zero [of buf] by (simp add: k_def)
  also have "\<dots> = buf" by simp
  finally show ?thesis by (simp add: fromBase58_def shape num)
qed

lemma toBase58_leading:
  assumes "buf \<noteq> []"
  shows "length (takeWhile (\<lambda>c. c = CHR ''1'') (toBase58 buf)) = length (takeWhile (\<lambda>b. b = 0) buf)"
proof -
  define k where "k = length (takeWhile (\<lambda>b. b = 0) buf)"
  define D where "D = b58_digits (bytes_to_num 0 buf) []"
  have shape: "toBase58 buf = replicate k CHR ''1'' @ D" and D: "D = [] \<or> hd D \<noteq> CHR ''1''"
    using toBase58_shape [OF assms] by (simp_all add: k_def D_def)
  have "takeWhile (\<lambda>c. c = CHR ''1'') (replicate k CHR ''1'' @ D) = replicate k CHR ''1''"
  proof (induction k)
    case 0
    show ?case using D by (cases D) auto
  next
    case (Suc k)
    then show ?case by simp
  qed
  then show ?thesis by (simp add: shape k_def)
qed

text \<open>
  C4 as stated fails at the empty buffer: the encoder ends with \<^verbatim>\<open>return encoded || '1'\<close>,
  so the empty buffer is encoded as \<^verbatim>\<open>'1'\<close>, which decodes to the single byte 0.
\<close>

theorem base58_empty_buffer_counterexample:
  "toBase58 [] = ''1'' \<and> fromBase58 (toBase58 []) = Inr [0]"
  by (simp add: toBase58_def fromBase58_def alphabet_def b58_digits.simps num_to_bytes.simps)

text \<open>
  C4, amended. For every non-empty buffer, decoding the encoding gives the buffer back, and
  the encoding starts with exactly one \<^verbatim>\<open>'1'\<close> per leading zero byte. The empty buffer is
  encoded as \<^verbatim>\<open>'1'\<close> and comes back as the one-byte buffer \<open>[0]\<close>.
\<close>

theorem base58_roundtrip_nonempty:
  "(buf \<noteq> [] \<longrightarrow>
      fromBase58 (toBase58 buf) = Inr buf \<and>
      length (takeWhile (\<lambda>c. c = CHR ''1'') (toBase58 buf)) = length (takeWhile (\<lambda>b. b = 0) buf)) \<and>
   toBase58 [] = ''1'' \<and> fromBase58 ''1'' = Inr [0]"
proof -
  have "toBase58 [] = ''1''"
    by (simp add: toBase58_def b58_digits.simps)
  moreover have "fromBase58 ''1'' = Inr [0]"
    by (simp add: fromBase58_def alphabet_def num_to_bytes.simps)
  ultimately show ?thesis
    using fromBase58_toBase58 [of buf] toBase58_leading [of buf] by blast
qed

theorem base58_roundtrip_nonempty_witness:
  "[0, 0, 1, 2] \<noteq> ([] :: byte list) \<and>
   fromBase58 (toBase58 [0, 0, 1, 2]) = Inr [0, 0, 1, 2] \<and>
   length (takeWhile (\<lambda>c. c = CHR ''1'') (toBase58 [0, 0, 1, 2])) = 2"
  using base58_roundtrip_nonempty [of "[0, 0, 1, 2]"] by simp

section \<open>Coin selection\<close>

lemma replicate_numeral: "replicate (numeral k) x = x # replicate (pred_numeral k) x"
  by (simp add: numeral_eq_Suc)

lemma demo_address_valid: "isValidAddress demo_lib demo_address"
  by (simp add: replicate_numeral demo_address_def isValidAddress_def base58checkDecode_def fromBase58_def alphabet_def
      num_to_bytes.simps doubleSha256_def sha256_def demo_lib_def TETSUO_ADDRESS_PREFIX_def)

lemma loop_fee_estimateFee: "loop_fee k = estimateFee k 2"
  by (simp add: loop_fee_def estimateFee_def estimateTransactionSize_def)

lemma select_loop_Cons:
  "select_loop amt (u # rest) sel tot =
     (if tot + utxo_value u \<ge> amt + loop_fee (Suc (length sel)) then (sel @ [u], tot + utxo_value u)
      else select_loop amt rest (sel @ [u]) (tot + utxo_value u))"
  by (simp add: Let_def loop_fee_def)

lemma select_loop_char:
  "\<exists>j \<le> length rest.
     select_loop amt rest sel tot = (sel @ take j rest, tot + sum_list (map utxo_value (take j rest))) \<and>
     (\<forall>i. 0 < i \<and> i < j \<longrightarrow>
        \<not> tot + sum_list (map utxo_value (take i rest)) \<ge> amt + loop_fee (length sel + i)) \<and>
     (j < length rest \<longrightarrow>
        tot + sum_list (map utxo_value (take j rest)) \<ge> amt + loop_fee (length sel + j)) \<and>
     (rest \<noteq> [] \<longrightarrow> 0 < j)"
proof (induction rest arbitrary: sel tot)
  case Nil
  show ?case by simp
next
  case (Cons u rest)
  show ?case
  proof (cases "tot + utxo_value u \<ge> amt + loop_fee (Suc (length sel))")
    case True
    have "select_loop amt (u # rest) sel tot = (sel @ [u], tot + utxo_value u)"
      using True by (simp only: select_loop_Cons if_True)
    then show ?thesis using True
      by (intro exI [of _ 1]) (auto simp del: select_loop.simps)
  next
    case False
    have step: "select_loop amt (u # rest) sel tot = select_loop amt rest (sel @ [u]) (tot + utxo_value u)"
      using False by (simp only: select_loop_Cons if_False)
    from Cons.IH [of "sel @ [u]" "tot + utxo_value u"]
    obtain j where j: "j \<le> length rest"
      and res: "select_loop amt rest (sel @ [u]) (tot + utxo_value u)
                = ((sel @ [u]) @ take j rest, tot + utxo_value u + sum_list (map utxo_value (take j rest)))"
      and before: "\<forall>i. 0 < i \<and> i < j \<longrightarrow>
          \<not> tot + utxo_value u + sum_list (map utxo_value (take i rest))
              \<ge> amt + loop_fee (length (sel @ [u]) + i)"
      and at: "j < length rest \<longrightarrow>
          tot + utxo_value u + sum_list (map utxo_value (take j rest))
              \<ge> amt + loop_fee (length (sel @ [u]) + j)"
      by blast
    have b': "\<forall>i. 0 < i \<and> i < Suc j \<longrightarrow>
        \<not> tot + sum_list (map utxo_value (take i (u # rest))) \<ge> amt + loop_fee (length sel + i)"
    proof (intro allI impI)
      fix i assume i: "0 < i \<and> i < Suc j"
      then obtain i' where i': "i = Suc i'" by (cases i) auto
      show "\<not> tot + sum_list (map utxo_value (take i (u # rest))) \<ge> amt + loop_fee (length sel + i)"
      proof (cases "i' = 0")
        case True
        with False i' show ?thesis by simp
      next
        case F: False
        with i i' have "0 < i' \<and> i' < j" by simp
        with before have "\<not> tot + utxo_value u + sum_list (map utxo_value (take i' rest))
              \<ge> amt + loop_fee (length (sel @ [u]) + i')" by blast
        then show ?thesis by (simp add: i' add.assoc)
      qed
    qed
    show ?thesis
      using j step res b' at
      by (intro exI [of _ "Suc j"]) (simp del: select_loop.simps add: add.assoc)
  qed
qed

lemma buildTransaction_with_valid:
  assumes "isValidAddress lib fromAddress" "isValidAddress lib toAddress" "isValidAddress lib changeAddress"
  shows "buildTransaction_with seq lib fromAddress toAddress amt utxos changeAddress =
     (if total_input amt utxos < amt + final_fee amt utxos
      then Inl (InsufficientFundsError (amt + final_fee amt utxos) (total_input amt utxos))
      else Inr \<lparr>inputs = map (\<lambda>utxo. \<lparr>in_txid = utxo_txid utxo, in_vout = utxo_vout utxo,
                                        in_scriptSig = None, in_sequence = Some seq\<rparr>)
                              (fst (select_loop amt (sortedUTXOs utxos) [] 0)),
                outputs = \<lparr>out_address = toAddress, out_value = amt\<rparr> #
                   (if total_input amt utxos - amt - final_fee amt utxos > 0
                    then [\<lparr>out_address = changeAddress,
                           out_value = total_input amt utxos - amt - final_fee amt utxos\<rparr>]
                    else []),
                fee = final_fee amt utxos\<rparr>)"
  using assms
  by (simp add: buildTransaction_with_def validateAddress_def final_fee_def total_input_def
      estimateFee_def estimateTransactionSize_def Let_def split: prod.splits)

lemma buildTransaction_with_Inr_valid:
  assumes "buildTransaction_with seq lib fromAddress toAddress amt utxos changeAddress = Inr tx"
  shows "isValidAddress lib fromAddress \<and> isValidAddress lib toAddress \<and> isValidAddress lib changeAddress"
  using assms
  by (auto simp: buildTransaction_with_def validateAddress_def split: if_splits)

lemma sorted_sortedUTXOs: "sorted (map utxo_confirmations (sortedUTXOs utxos))"
  by (simp add: sortedUTXOs_def)

lemma mset_sortedUTXOs: "mset (sortedUTXOs utxos) = mset utxos"
  by (simp add: sortedUTXOs_def)

lemma select_loop_sorted:
  "\<exists>k \<le> length utxos.
     select_loop amt (sortedUTXOs utxos) [] 0
       = (take k (sortedUTXOs utxos), sum_list (map utxo_value (take k (sortedUTXOs utxos)))) \<and>
     (\<forall>i. 0 < i \<and> i < k \<longrightarrow> \<not> covers amt (sortedUTXOs utxos) i) \<and>
     (k < length utxos \<longrightarrow> covers amt (sortedUTXOs utxos) k) \<and>
     (utxos \<noteq> [] \<longrightarrow> 0 < k)"
proof -
  have len: "length (sortedUTXOs utxos) = length utxos"
    by (simp add: sortedUTXOs_def)
  have ne: "sortedUTXOs utxos \<noteq> [] \<longleftrightarrow> utxos \<noteq> []"
    using len by (metis length_0_conv)
  from select_loop_char [of "sortedUTXOs utxos" amt "[]" 0]
  show ?thesis unfolding covers_def len ne by simp
qed

lemma sortedUTXOs_demo: "sortedUTXOs demo_utxos = demo_sorted"
  by (simp add: sortedUTXOs_def demo_utxos_def demo_sorted_def)

lemma loop_fee_small: "k \<le> 3 \<Longrightarrow> loop_fee k = 25000"
proof -
  assume "k \<le> 3"
  then have "k = 0 \<or> k = 1 \<or> k = 2 \<or> k = 3" by arith
  then show ?thesis
    by (auto simp: loop_fee_def MIN_FEE_def FEE_PER_BYTE_def)
qed

lemma select_loop_demo:
  "select_loop 50000 demo_sorted [] 0 = (take 2 demo_sorted, 90000)"
  by (simp add: demo_sorted_def select_loop_Cons loop_fee_small del: select_loop.simps)

lemma demo_totals:
  "total_input 50000 demo_utxos = 90000" "final_fee 50000 demo_utxos = 25000"
  by (simp_all add: total_input_def final_fee_def sortedUTXOs_demo select_loop_demo
      loop_fee_estimateFee [symmetric] loop_fee_small)

text \<open>
  C5. \<^verbatim>\<open>buildTransaction\<close> walks the UTXOs in ascending order of confirmation count (the sorted
  list is ordered by confirmations and is a permutation of the input) and selects a prefix of
  that list: the shortest non-empty prefix whose value covers the amount plus the fee estimate
  \<open>max(MIN_FEE, ceil((k * 148 + 2 * 34 + 10) / 1000) * FEE_PER_BYTE)\<close> for its own length \<open>k\<close>,
  or the whole list when no prefix does. The inputs of a built transaction are that prefix.
\<close>

theorem coin_selection_greedy:
  "sorted (map utxo_confirmations (sortedUTXOs utxos)) \<and>
   mset (sortedUTXOs utxos) = mset utxos \<and>
   (\<exists>k \<le> length utxos.
      select_loop amount (sortedUTXOs utxos) [] 0
        = (take k (sortedUTXOs utxos), sum_list (map utxo_value (take k (sortedUTXOs utxos)))) \<and>
      (\<forall>i. 0 < i \<and> i < k \<longrightarrow> \<not> covers amount (sortedUTXOs utxos) i) \<and>
      (k < length utxos \<longrightarrow> covers amount (sortedUTXOs utxos) k) \<and>
      (utxos \<noteq> [] \<longrightarrow> 0 < k) \<and>
      (\<forall>tx. buildTransaction lib fromAddress toAddress amount utxos changeAddress = Inr tx \<longrightarrow>
         map (\<lambda>i. (in_txid i, in_vout i)) (inputs tx)
           = map (\<lambda>u. (utxo_txid u, utxo_vout u)) (take k (sortedUTXOs utxos))))"
proof -
  obtain k where k: "k \<le> length utxos"
    and sel: "select_loop amount (sortedUTXOs utxos) [] 0
        = (take k (sortedUTXOs utxos), sum_list (map utxo_value (take k (sortedUTXOs utxos))))"
    and rest: "\<forall>i. 0 < i \<and> i < k \<longrightarrow> \<not> covers amount (sortedUTXOs utxos) i"
      "k < length utxos \<longrightarrow> covers amount (sortedUTXOs utxos) k" "utxos \<noteq> [] \<longrightarrow> 0 < k"
    using select_loop_sorted [of utxos amount] by blast
  have "map (\<lambda>i. (in_txid i, in_vout i)) (inputs tx)
           = map (\<lambda>u. (utxo_txid u, utxo_vout u)) (take k (sortedUTXOs utxos))"
    if tx: "buildTransaction lib fromAddress toAddress amount utxos changeAddress = Inr tx" for tx
  proof -
    have b: "buildTransaction_with 0xffffffff lib fromAddress toAddress amount utxos changeAddress = Inr tx"
      using tx by (simp add: buildTransaction_def)
    from buildTransaction_with_Inr_valid [OF b] buildTransaction_with_valid b
    have "inputs tx = map (\<lambda>utxo. \<lparr>in_txid = utxo_txid utxo, in_vout = utxo_vout utxo,
                                        in_scriptSig = None, in_sequence = Some 0xffffffff\<rparr>)
                              (fst (select_loop amount (sortedUTXOs utxos) [] 0))"
      by (auto split: if_splits)
    then show ?thesis by (simp add: sel comp_def)
  qed
  with k sel rest show ?thesis
    using sorted_sortedUTXOs mset_sortedUTXOs by blast
qed

theorem coin_selection_greedy_witness:
  "select_loop 50000 (sortedUTXOs demo_utxos) [] 0 = (take 2 (sortedUTXOs demo_utxos), 90000) \<and>
   map utxo_confirmations (sortedUTXOs demo_utxos) = [1, 5, 10] \<and>
   \<not> covers 50000 (sortedUTXOs demo_utxos) 1 \<and> covers 50000 (sortedUTXOs demo_utxos) 2 \<and>
   map (\<lambda>i. (in_txid i, in_vout i)) (inputs (projr
       (buildTransaction demo_lib demo_address demo_address 50000 demo_utxos demo_address)))
     = [(''bb'', 1), (''cc'', 2)]"
proof -
  have valid: "isValidAddress demo_lib demo_address" by (rule demo_address_valid)
  have b: "buildTransaction demo_lib demo_address demo_address 50000 demo_utxos demo_address
     = Inr \<lparr>inputs = [\<lparr>in_txid = ''bb'', in_vout = 1, in_scriptSig = None, in_sequence = Some 0xffffffff\<rparr>,
                      \<lparr>in_txid = ''cc'', in_vout = 2, in_scriptSig = None, in_sequence = Some 0xffffffff\<rparr>],
             outputs = [\<lparr>out_address = demo_address, out_value = 50000\<rparr>,
                        \<lparr>out_address = demo_address, out_value = 15000\<rparr>],
             fee = 25000\<rparr>"
    unfolding buildTransaction_def
    by (simp add: buildTransaction_with_valid [OF valid valid valid] demo_totals
        sortedUTXOs_demo select_loop_demo, simp add: demo_sorted_def)
  show ?thesis
    using coin_selection_greedy [of demo_utxos 50000 demo_lib demo_address demo_address demo_address]
    by (simp add: b select_loop_demo sortedUTXOs_demo covers_def loop_fee_small, simp add: demo_sorted_def)
qed

lemma sum_values_sorted:
  "sum_list (map utxo_value (sortedUTXOs utxos)) = sum_list (map utxo_value utxos)"
proof -
  have "mset (map utxo_value (sortedUTXOs utxos)) = mset (map utxo_value utxos)"
    by (simp add: mset_sortedUTXOs)
  then have "sum_mset (mset (map utxo_value (sortedUTXOs utxos))) = sum_mset (mset (map utxo_value utxos))"
    by simp
  then show ?thesis by (simp only: sum_mset_sum_list)
qed

lemma sum_take_le:
  assumes "\<forall>u \<in> set us. 0 \<le> utxo_value u"
  shows "sum_list (map utxo_value (take k us)) \<le> sum_list (map utxo_value us)"
proof -
  have "sum_list (map utxo_value us)
        = sum_list (map utxo_value (take k us)) + sum_list (map utxo_value (drop k us))"
    by (metis append_take_drop_id map_append sum_list_append)
  moreover have "0 \<le> sum_list (map utxo_value (drop k us))"
    using assms by (intro sum_list_nonneg) (auto dest: in_set_dropD)
  ultimately show ?thesis by simp
qed

text \<open>
  C6. With valid addresses and non-negative UTXO values: when the total value of the UTXO
  set is less than the amount plus the final fee, \<^verbatim>\<open>buildTransaction\<close> throws
  \<^verbatim>\<open>InsufficientFundsError(amount + fee, total)\<close> with exactly these two numbers; being an error,
  the result carries no inputs and no outputs. The final fee is then the fee for all UTXOs.
\<close>

theorem insufficient_funds_error:
  assumes valid: "isValidAddress lib fromAddress" "isValidAddress lib toAddress"
      "isValidAddress lib changeAddress"
    and nonneg: "\<forall>u \<in> set utxos. 0 \<le> utxo_value u"
    and short: "sum_list (map utxo_value utxos) < amount + final_fee amount utxos"
  shows "buildTransaction lib fromAddress toAddress amount utxos changeAddress
           = Inl (InsufficientFundsError (amount + final_fee amount utxos)
                    (sum_list (map utxo_value utxos))) \<and>
         final_fee amount utxos = estimateFee (length utxos) 2"
proof -
  let ?S = "sortedUTXOs utxos"
  have len: "length ?S = length utxos" by (simp add: sortedUTXOs_def)
  obtain k where k: "k \<le> length utxos"
    and sel: "select_loop amount ?S [] 0 = (take k ?S, sum_list (map utxo_value (take k ?S)))"
    and at: "k < length utxos \<longrightarrow> covers amount ?S k"
    using select_loop_sorted [of utxos amount] by blast
  have fee: "final_fee amount utxos = loop_fee k"
    using k by (simp add: final_fee_def sel len loop_fee_estimateFee)
  have nonneg': "\<forall>u \<in> set ?S. 0 \<le> utxo_value u"
    using nonneg by (simp add: sortedUTXOs_def)
  have "k = length utxos"
  proof (rule ccontr)
    assume "k \<noteq> length utxos"
    with k at have "covers amount ?S k" by simp
    then have "amount + loop_fee k \<le> sum_list (map utxo_value (take k ?S))"
      by (simp add: covers_def)
    also have "\<dots> \<le> sum_list (map utxo_value ?S)"
      by (rule sum_take_le [OF nonneg'])
    also have "\<dots> = sum_list (map utxo_value utxos)"
      by (rule sum_values_sorted)
    finally show False using short fee by simp
  qed
  then have total: "total_input amount utxos = sum_list (map utxo_value utxos)"
    by (simp add: total_input_def sel len sum_values_sorted)
  have "buildTransaction lib fromAddress toAddress amount utxos changeAddress
           = Inl (InsufficientFundsError (amount + final_fee amount utxos)
                    (sum_list (map utxo_value utxos)))"
    unfolding buildTransaction_def
    using short by (simp add: buildTransaction_with_valid [OF valid] total)
  moreover have "final_fee amount utxos = estimateFee (length utxos) 2"
    using \<open>k = length utxos\<close> fee by (simp add: loop_fee_estimateFee)
  ultimately show ?thesis by simp
qed

lemma final_fee_demo_short: "final_fee 200000 demo_utxos = 25000"
  by (simp add: final_fee_def sortedUTXOs_demo demo_sorted_def select_loop_Cons loop_fee_small
      loop_fee_estimateFee [symmetric] del: select_loop.simps(2))

lemma sum_demo_utxos: "sum_list (map utxo_value demo_utxos) = 120000"
  by (simp add: demo_utxos_def)

theorem insufficient_funds_error_witness:
  "isValidAddress demo_lib demo_address \<and>
   sum_list (map utxo_value demo_utxos) = 120000 \<and>
   final_fee 200000 demo_utxos = 25000 \<and>
   buildTransaction demo_lib demo_address demo_address 200000 demo_utxos demo_address
     = Inl (InsufficientFundsError 225000 120000)"
proof -
  have valid: "isValidAddress demo_lib demo_address" by (rule demo_address_valid)
  have nonneg: "\<forall>u \<in> set demo_utxos. 0 \<le> utxo_value u"
    by (simp add: demo_utxos_def)
  have short: "sum_list (map utxo_value demo_utxos) < 200000 + final_fee 200000 demo_utxos"
    by (simp add: final_fee_demo_short sum_demo_utxos)
  show ?thesis
    using insufficient_funds_error [OF valid valid valid nonneg short] valid
    by (simp add: final_fee_demo_short sum_demo_utxos)
qed

lemma buildTransaction_with_Inr:
  assumes "buildTransaction_with seq lib fromAddress toAddress amount utxos changeAddress = Inr tx"
  shows "(\<forall>i \<in> set (inputs tx). in_sequence i = Some seq) \<and>
         fee tx = final_fee amount utxos \<and>
         outputs tx = \<lparr>out_address = toAddress, out_value = amount\<rparr> #
           (if total_input amount utxos - amount - fee tx > 0
            then [\<lparr>out_address = changeAddress,
                   out_value = total_input amount utxos - amount - fee tx\<rparr>]
            else [])"
proof -
  note v = buildTransaction_with_Inr_valid [OF assms]
  from v have "buildTransaction_with seq lib fromAddress toAddress amount utxos changeAddress =
     (if total_input amount utxos < amount + final_fee amount utxos
      then Inl (InsufficientFundsError (amount + final_fee amount utxos) (total_input amount utxos))
      else Inr \<lparr>inputs = map (\<lambda>utxo. \<lparr>in_txid = utxo_txid utxo, in_vout = utxo_vout utxo,
                                        in_scriptSig = None, in_sequence = Some seq\<rparr>)
                              (fst (select_loop amount (sortedUTXOs utxos) [] 0)),
                outputs = \<lparr>out_address = toAddress, out_value = amount\<rparr> #
                   (if total_input amount utxos - amount - final_fee amount utxos > 0
                    then [\<lparr>out_address = changeAddress,
                           out_value = total_input amount utxos - amount - final_fee amount utxos\<rparr>]
                    else []),
                fee = final_fee amount utxos\<rparr>)"
    by (intro buildTransaction_with_valid) simp_all
  with assms show ?thesis
    by (auto split: if_splits)
qed

text \<open>
  C7, amended. In every successful run of \<^verbatim>\<open>buildTransaction\<close> every input has the sequence
  \<^verbatim>\<open>0xffffffff\<close> (the value \<^verbatim>\<open>createTransactionHex\<close> also substitutes for a missing sequence),
  and the outputs are the spend output followed by a change output exactly when
  \<open>total - amount - fee > 0\<close>.
\<close>

theorem sequence_and_change:
  assumes "buildTransaction lib fromAddress toAddress amount utxos changeAddress = Inr tx"
  shows "(\<forall>i \<in> set (inputs tx). in_sequence i = Some SEQUENCE_FINAL) \<and>
         fee tx = final_fee amount utxos \<and>
         outputs tx = \<lparr>out_address = toAddress, out_value = amount\<rparr> #
           (if total_input amount utxos - amount - fee tx > 0
            then [\<lparr>out_address = changeAddress,
                   out_value = total_input amount utxos - amount - fee tx\<rparr>]
            else [])"
  using buildTransaction_with_Inr [of "0xffffffff"] assms
  unfolding buildTransaction_def SEQUENCE_FINAL_def by blast

text \<open>The earlier copy of the file writes the non-final \<^verbatim>\<open>0xfffffffe\<close>.\<close>

lemma sequence_part001:
  assumes "buildTransaction_part001 lib fromAddress toAddress amount utxos changeAddress = Inr tx"
  shows "\<forall>i \<in> set (inputs tx). in_sequence i = Some 0xfffffffe \<and> non_final 0xfffffffe"
  using buildTransaction_with_Inr [of "0xfffffffe"] assms
  unfolding buildTransaction_part001_def by (simp add: non_final_def SEQUENCE_FINAL_def)

lemma demo_utxo_totals:
  "total_input 50000000 [demo_utxo] = 100000000" "final_fee 50000000 [demo_utxo] = 25000"
  by (simp_all add: total_input_def final_fee_def sortedUTXOs_def demo_utxo_def select_loop_Cons
      loop_fee_small loop_fee_estimateFee [symmetric] del: select_loop.simps(2))

lemma buildTransaction_demo:
  "buildTransaction demo_lib demo_address demo_address 50000000 [demo_utxo] demo_address
     = Inr \<lparr>inputs = [\<lparr>in_txid = ''aa'', in_vout = 0, in_scriptSig = None,
                       in_sequence = Some 0xffffffff\<rparr>],
             outputs = [\<lparr>out_address = demo_address, out_value = 50000000\<rparr>,
                        \<lparr>out_address = demo_address, out_value = 49975000\<rparr>],
             fee = 25000\<rparr>"
  unfolding buildTransaction_def
  by (simp add: buildTransaction_with_valid [OF demo_address_valid demo_address_valid demo_address_valid]
      demo_utxo_totals,
      simp add: sortedUTXOs_def demo_utxo_def select_loop_Cons loop_fee_small del: select_loop.simps(2))

text \<open>
  C7 as stated fails on \<^verbatim>\<open>src/transaction.ts\<close>: spending 50,000,000 from one UTXO of
  100,000,000, the emitted input has sequence \<^verbatim>\<open>0xffffffff\<close>, which is the final sequence
  value and not a non-final one.
\<close>

theorem sequence_final_counterexample:
  "map in_sequence (inputs (projr
      (buildTransaction demo_lib demo_address demo_address 50000000 [demo_utxo] demo_address)))
     = [Some 0xffffffff] \<and>
   \<not> non_final 0xffffffff"
  by (simp add: buildTransaction_demo non_final_def SEQUENCE_FINAL_def)

theorem sequence_and_change_witness:
  "buildTransaction demo_lib demo_address demo_address 50000000 [demo_utxo] demo_address
     = Inr \<lparr>inputs = [\<lparr>in_txid = ''aa'', in_vout = 0, in_scriptSig = None,
                       in_sequence = Some SEQUENCE_FINAL\<rparr>],
             outputs = [\<lparr>out_address = demo_address, out_value = 50000000\<rparr>,
                        \<lparr>out_address = demo_address, out_value = 49975000\<rparr>],
             fee = 25000\<rparr> \<and>
   total_input 50000000 [demo_utxo] - 50000000 - 25000 = 49975000"
  using sequence_and_change [OF buildTransaction_demo]
  by (simp add: buildTransaction_demo SEQUENCE_FINAL_def demo_utxo_totals)

section \<open>Hexadecimal digit strings\<close>

lemma hexdigit_code_all:
  "list_all (\<lambda>d. (of_char (hexdigit d) :: nat) = (if d < 10 then 48 + d else 87 + d)) [0..<16]"
  by (simp add: hexdigit_def hex_chars_def upt_rec)

lemma hexdigit_code:
  "d < 16 \<Longrightarrow> (of_char (hexdigit d) :: nat) = (if d < 10 then 48 + d else 87 + d)"
  using hexdigit_code_all by (simp add: list_all_iff)

lemma hexval_hexdigit: "d < 16 \<Longrightarrow> hexval (hexdigit d) = Some d"
  by (auto simp: hexval_def Let_def hexdigit_code)

lemma hexdigit_zero: "hexdigit 0 = CHR ''0''"
  by (simp add: hexdigit_def hex_chars_def)

lemma hexdigit_eq_zero: "d < 16 \<Longrightarrow> hexdigit d = CHR ''0'' \<longleftrightarrow> d = 0"
proof
  assume d: "d < 16" and "hexdigit d = CHR ''0''"
  then have "hexval (hexdigit d) = hexval CHR ''0''" by simp
  with d show "d = 0" by (simp add: hexval_hexdigit) (simp add: hexval_def)
qed (simp add: hexdigit_zero)


lemma lower_hex_Nil [simp]: "lower_hex []"
  by (simp add: lower_hex_def)

lemma lower_hex_Cons: "lower_hex (c # s) \<longleftrightarrow> (\<exists>d < 16. c = hexdigit d) \<and> lower_hex s"
  by (auto simp: lower_hex_def)

lemma lower_hex_append [simp]: "lower_hex (a @ b) \<longleftrightarrow> lower_hex a \<and> lower_hex b"
  by (auto simp: lower_hex_def)

lemma lower_hex_replicate_zero [simp]: "lower_hex (replicate k CHR ''0'')"
  by (auto simp: lower_hex_def intro: exI [of _ 0] simp: hexdigit_zero)

lemma lower_hex_toString16 [simp]: "lower_hex (toString16 n)"
proof (induction n rule: toString16.induct)
  case (1 n)
  show ?case
  proof (cases "n < 16")
    case True
    then show ?thesis by (subst toString16.simps) (auto simp: lower_hex_def)
  next
    case False
    have "n mod 16 < 16" by simp
    then have "lower_hex [hexdigit (n mod 16)]" unfolding lower_hex_def by force
    with 1 False show ?thesis by (subst toString16.simps) simp
  qed
qed

lemma lower_hex_padStart [simp]: "lower_hex s \<Longrightarrow> lower_hex (padStart w CHR ''0'' s)"
  by (simp add: padStart_def)

lemma length_padStart: "length (padStart w c s) = max w (length s)"
  by (simp add: padStart_def)

lemma toString16_nonempty [simp]: "toString16 n \<noteq> []"
  by (subst toString16.simps) simp

text \<open>Number of digits.\<close>

lemma length_toString16_le: "0 < k \<Longrightarrow> n < 16 ^ k \<Longrightarrow> length (toString16 n) \<le> k"
proof (induction k arbitrary: n)
  case 0
  then show ?case by simp
next
  case (Suc k)
  show ?case
  proof (cases "n < 16")
    case True
    then show ?thesis by (subst toString16.simps) simp
  next
    case False
    then have k: "0 < k" using Suc.prems by (cases k) auto
    have "n div 16 < 16 ^ k" using Suc.prems(2) by (simp add: less_mult_imp_div_less mult.commute)
    from Suc.IH [OF k this] False show ?thesis by (subst toString16.simps) simp
  qed
qed

text \<open>Reading the digits back.\<close>

lemma hex_value_append:
  "hex_value acc (a @ b) = (case hex_value acc a of None \<Rightarrow> None | Some v \<Rightarrow> hex_value v b)"
  by (induction a arbitrary: acc) (auto split: option.splits)

lemma hex_value_toString16: "hex_value acc (toString16 n) = Some (acc * 16 ^ length (toString16 n) + n)"
proof (induction n arbitrary: acc rule: toString16.induct)
  case (1 n)
  show ?case
  proof (cases "n < 16")
    case True
    then show ?thesis by (subst (1 2) toString16.simps) (simp add: hexval_hexdigit)
  next
    case False
    have m: "n mod 16 < 16" by simp
    have "hex_value acc (toString16 n)
          = hex_value acc (toString16 (n div 16) @ [hexdigit (n mod 16)])"
      using False by (subst toString16.simps) simp
    also have "\<dots> = Some ((acc * 16 ^ length (toString16 (n div 16)) + n div 16) * 16 + n mod 16)"
      using 1 [OF False] by (simp add: hex_value_append hexval_hexdigit [OF m])
    also have "\<dots> = Some (acc * 16 ^ length (toString16 n) + n)"
      using False by (subst (2) toString16.simps) (simp add: algebra_simps)
    finally show ?thesis .
  qed
qed

lemma hex_value_zeros: "hex_value acc (replicate k CHR ''0'' @ s) = hex_value (acc * 16 ^ k) s"
  by (induction k arbitrary: acc) (simp_all add: hexval_def algebra_simps)

lemma hex_value_padStart: "hex_value 0 (padStart w CHR ''0'' (toString16 n)) = Some n"
  by (simp add: padStart_def hex_value_zeros hex_value_toString16)

lemma lower_hex_hexval: "lower_hex s \<Longrightarrow> c \<in> set s \<Longrightarrow> hexval c \<noteq> None"
  by (auto simp: lower_hex_def hexval_hexdigit)

lemma hexdigit_not_special:
  "d < 16 \<Longrightarrow> \<not> is_js_space (hexdigit d) \<and> hexdigit d \<noteq> CHR ''-'' \<and> hexdigit d \<noteq> CHR ''+'' \<and>
     hexdigit d \<noteq> CHR ''x'' \<and> hexdigit d \<noteq> CHR ''X''"
proof -
  assume d: "d < 16"
  have *: "\<And>c. (of_char (hexdigit d) :: nat) \<noteq> of_char c \<Longrightarrow> hexdigit d \<noteq> c" by auto
  have "(of_char (hexdigit d) :: nat) \<notin> {9, 10, 11, 12, 13, 32, 160, 45, 43, 120, 88}"
    using d by (auto simp: hexdigit_code split: if_splits)
  then show ?thesis
    by (auto simp: is_js_space_def intro!: *)
qed

lemma parseInt16_lower_hex:
  assumes "lower_hex s" "s \<noteq> []" "hex_value 0 s = Some v"
  shows "parseInt16 s = Some (int v)"
proof -
  obtain c r where s: "s = c # r" using assms(2) by (cases s) auto
  obtain d where d: "d < 16" "c = hexdigit d" using assms(1) s by (auto simp: lower_hex_Cons)
  note sp = hexdigit_not_special [OF d(1)]
  have s1: "dropWhile is_js_space s = s" using s d sp by simp
  have s3: "(case s of a # b # r \<Rightarrow> if a = CHR ''0'' \<and> (b = CHR ''x'' \<or> b = CHR ''X'') then r else s
                | _ \<Rightarrow> s) = s"
  proof (cases r)
    case Nil
    then show ?thesis using s by simp
  next
    case (Cons b r')
    then obtain e where "e < 16" "b = hexdigit e" using assms(1) s by (auto simp: lower_hex_Cons)
    then show ?thesis using s Cons hexdigit_not_special [of e] by auto
  qed
  have tw: "takeWhile (\<lambda>c. hexval c \<noteq> None) s = s"
    using lower_hex_hexval [OF assms(1)] by (simp add: takeWhile_eq_all_conv)
  have sign: "(case s of c # r \<Rightarrow> if c = CHR ''-'' then - 1 else (1::int) | [] \<Rightarrow> 1) = 1"
    using s d sp by simp
  have s2: "(case s of c # r \<Rightarrow> if c = CHR ''-'' \<or> c = CHR ''+'' then r else s | [] \<Rightarrow> []) = s"
    using s d sp by simp
  show ?thesis
    unfolding parseInt16_def Let_def s1 sign s2 s3 tw
    using assms(2,3) by simp
qed

section \<open>The transaction codec\<close>

lemma length_pad_hex: "0 < w \<Longrightarrow> n < 16 ^ w \<Longrightarrow> length (padStart w CHR ''0'' (toString16 n)) = w"
  using length_toString16_le [of w n] by (simp add: length_padStart)

lemma parse_pad_hex: "0 < w \<Longrightarrow> parseInt16 (padStart w CHR ''0'' (toString16 n)) = Some (int n)"
  by (rule parseInt16_lower_hex) (simp_all add: hex_value_padStart, simp add: padStart_def)

lemma pad2_digits: "n < 256 \<Longrightarrow> padStart 2 CHR ''0'' (toString16 n) = [hexdigit (n div 16), hexdigit (n mod 16)]"
proof (cases "n < 16")
  case True
  then show ?thesis by (subst toString16.simps) (simp add: padStart_def hexdigit_zero)
next
  case False
  assume "n < 256"
  then have "n div 16 < 16" by simp
  then have "toString16 (n div 16) = [hexdigit (n div 16)]" by (subst toString16.simps) simp
  with False show ?thesis by (subst toString16.simps) (simp add: padStart_def)
qed

lemma pad2_less_fd:
  assumes "n < 253"
  shows "js_str_less (padStart 2 CHR ''0'' (toString16 n)) ''fd''"
proof -
  have a: "n div 16 < 16" and b: "n mod 16 < 16" using assms by simp_all
  have "n div 16 < 15 \<or> (n div 16 = 15 \<and> n mod 16 < 13)" using assms by arith
  then show ?thesis
  proof
    assume "n div 16 < 15"
    then have "(of_char (hexdigit (n div 16)) :: nat) < 102"
      by (simp add: hexdigit_code)
    then show ?thesis using assms by (simp add: pad2_digits)
  next
    assume h: "n div 16 = 15 \<and> n mod 16 < 13"
    then have "(of_char (hexdigit (n mod 16)) :: nat) < 100"
      by (simp add: hexdigit_code)
    moreover have "hexdigit 15 = CHR ''f''" by (simp add: hexdigit_def hex_chars_def)
    ultimately show ?thesis using assms h by (simp add: pad2_digits)
  qed
qed

text \<open>The four size classes of the encoder.\<close>

lemma encodeVarInt_class:
  assumes "m < 2 ^ 64"
  shows "(m < 0xfd \<and> encodeVarInt m = padStart 2 CHR ''0'' (toString16 m) \<and> length (encodeVarInt m) = 2) \<or>
         (encodeVarInt m = ''fd'' @ padStart 4 CHR ''0'' (toString16 m) \<and> length (encodeVarInt m) = 6) \<or>
         (encodeVarInt m = ''fe'' @ padStart 8 CHR ''0'' (toString16 m) \<and> length (encodeVarInt m) = 10) \<or>
         (encodeVarInt m = ''ff'' @ padStart 16 CHR ''0'' (toString16 m) \<and> length (encodeVarInt m) = 18)"
proof -
  consider "m < 0xfd" | "\<not> m < 0xfd" "m \<le> 0xffff" | "\<not> m \<le> 0xffff" "m \<le> 0xffffffff" | "\<not> m \<le> 0xffffffff"
    by linarith
  then show ?thesis
  proof cases
    case 1
    then have "m < 16 ^ 2" by simp
    with 1 show ?thesis by (simp add: encodeVarInt_def length_pad_hex)
  next
    case 2
    then have "m < 16 ^ 4" by simp
    with 2 show ?thesis by (simp add: encodeVarInt_def length_pad_hex)
  next
    case 3
    then have "m < 16 ^ 8" by simp
    with 3 show ?thesis by (simp add: encodeVarInt_def length_pad_hex)
  next
    case 4
    have "m < 16 ^ 16" using assms by simp
    with 4 show ?thesis by (simp add: encodeVarInt_def length_pad_hex)
  qed
qed

lemma js_slice_nat:
  "0 \<le> a \<Longrightarrow> 0 \<le> b \<Longrightarrow> js_slice s (Some a) (Some b) = take (nat b - nat a) (drop (nat a) s)"
  by (cases "nat a \<le> length s") (auto simp: js_slice_def rel_index_def Let_def min_def)

lemma num_add_Some [simp]: "num_add (Some a) (Some b) = Some (a + b)"
  by (simp add: num_add_def)

lemma num_times2_Some [simp]: "num_times2 (Some a) = Some (a * 2)"
  by (simp add: num_times2_def)

lemma parse_fd: "parseInt16 ''fd'' = Some 253" "parseInt16 ''fe'' = Some 254" "parseInt16 ''ff'' = Some 255"
  by (simp_all add: parseInt16_def is_js_space_def hexval_def)

lemma skip_script_eq:
  assumes "js_slice H (Some p) (Some (p + 2)) = b"
  shows "skip_script H (Some p) =
     (if num_less (parseInt16 b) 0xfd then num_add (Some (p + 2)) (num_times2 (parseInt16 b))
      else if b = ''fd'' then
        num_add (Some (p + 6)) (num_times2 (parseInt16 (js_slice H (Some (p + 2)) (Some (p + 6)))))
      else if b = ''fe'' then
        num_add (Some (p + 10)) (num_times2 (parseInt16 (js_slice H (Some (p + 2)) (Some (p + 10)))))
      else
        num_add (Some (p + 18)) (num_times2 (parseInt16 (js_slice H (Some (p + 2)) (Some (p + 18))))))"
  using assms by (simp add: skip_script_def Let_def)

lemma skip_script_varint:
  assumes m: "m < 2 ^ 64" and len: "length spk = 2 * m"
  shows "skip_script (A @ encodeVarInt m @ spk @ B) (Some (int (length A)))
         = Some (int (length A + length (encodeVarInt m) + length spk))"
proof -
  define H where "H = A @ encodeVarInt m @ spk @ B"
  define p where "p = int (length A)"
  have sl: "\<And>j k. js_slice H (Some (p + int j)) (Some (p + int k))
              = take (k - j) (drop j (encodeVarInt m @ spk @ B))"
    by (simp add: js_slice_nat nat_add_distrib H_def p_def)
  have sl2: "js_slice H (Some p) (Some (p + 2)) = take 2 (encodeVarInt m @ spk @ B)"
    using sl [of 0 2] by simp
  note eq = skip_script_eq [OF sl2]
  from encodeVarInt_class [OF m]
  consider (a) "m < 0xfd" "encodeVarInt m = padStart 2 CHR ''0'' (toString16 m)" "length (encodeVarInt m) = 2"
    | (b) "encodeVarInt m = ''fd'' @ padStart 4 CHR ''0'' (toString16 m)" "length (encodeVarInt m) = 6"
    | (c) "encodeVarInt m = ''fe'' @ padStart 8 CHR ''0'' (toString16 m)" "length (encodeVarInt m) = 10"
    | (d) "encodeVarInt m = ''ff'' @ padStart 16 CHR ''0'' (toString16 m)" "length (encodeVarInt m) = 18"
    by blast
  then have "skip_script H (Some p) = Some (p + int (length (encodeVarInt m)) + int (length spk))"
  proof cases
    case a
    have t: "take 2 (encodeVarInt m @ spk @ B) = padStart 2 CHR ''0'' (toString16 m)"
      using a by simp
    show ?thesis
      unfolding eq t using a len by (simp add: parse_pad_hex num_less_def)
  next
    case b
    have l4: "length (padStart 4 CHR ''0'' (toString16 m)) = 4" using b by simp
    have t: "take 2 (encodeVarInt m @ spk @ B) = ''fd''" using b by simp
    have u: "js_slice H (Some (p + 2)) (Some (p + 6)) = padStart 4 CHR ''0'' (toString16 m)"
      using sl [of 2 6] b l4 by simp
    show ?thesis
      unfolding eq t u using b len by (simp add: parse_fd parse_pad_hex num_less_def)
  next
    case c
    have l8: "length (padStart 8 CHR ''0'' (toString16 m)) = 8" using c by simp
    have t: "take 2 (encodeVarInt m @ spk @ B) = ''fe''" using c by simp
    have u: "js_slice H (Some (p + 2)) (Some (p + 10)) = padStart 8 CHR ''0'' (toString16 m)"
      using sl [of 2 10] c l8 by simp
    show ?thesis
      unfolding eq t u using c len by (simp add: parse_fd parse_pad_hex num_less_def)
  next
    case d
    have l16: "length (padStart 16 CHR ''0'' (toString16 m)) = 16" using d by simp
    have t: "take 2 (encodeVarInt m @ spk @ B) = ''ff''" using d by simp
    have u: "js_slice H (Some (p + 2)) (Some (p + 18)) = padStart 16 CHR ''0'' (toString16 m)"
      using sl [of 2 18] d l16 by simp
    show ?thesis
      unfolding eq t u using d len by (simp add: parse_fd parse_pad_hex num_less_def)
  qed
  then show ?thesis by (simp add: H_def p_def)
qed

lemma skip_input_count_eq:
  "js_slice H (Some 8) (Some 10) = b \<Longrightarrow>
   skip_input_count H (Some 8) =
     (if js_str_less b ''fd'' then Some 10 else if b = ''fd'' then Some 14
      else if b = ''fe'' then Some 18 else Some 26)"
  by (auto simp: skip_input_count_def)

lemma skip_input_count_varint:
  assumes n: "n < 2 ^ 64"
  shows "skip_input_count (''01000000'' @ encodeVarInt n @ R) (Some 8) = Some (8 + int (length (encodeVarInt n)))"
proof -
  define H where "H = ''01000000'' @ encodeVarInt n @ R"
  have sl: "js_slice H (Some 8) (Some 10) = take 2 (encodeVarInt n @ R)"
    by (simp add: js_slice_nat H_def)
  from encodeVarInt_class [OF n]
  consider (a) "n < 0xfd" "encodeVarInt n = padStart 2 CHR ''0'' (toString16 n)" "length (encodeVarInt n) = 2"
    | (b) "encodeVarInt n = ''fd'' @ padStart 4 CHR ''0'' (toString16 n)" "length (encodeVarInt n) = 6"
    | (c) "encodeVarInt n = ''fe'' @ padStart 8 CHR ''0'' (toString16 n)" "length (encodeVarInt n) = 10"
    | (d) "encodeVarInt n = ''ff'' @ padStart 16 CHR ''0'' (toString16 n)" "length (encodeVarInt n) = 18"
    by blast
  then have "skip_input_count H (Some 8) = Some (8 + int (length (encodeVarInt n)))"
  proof cases
    case a
    have "js_slice H (Some 8) (Some 10) = padStart 2 CHR ''0'' (toString16 n)"
      using a by (simp add: sl)
    from skip_input_count_eq [OF this] a pad2_less_fd [of n] show ?thesis by simp
  next
    case b
    have "js_slice H (Some 8) (Some 10) = ''fd''" using b by (simp add: sl)
    from skip_input_count_eq [OF this] b show ?thesis by simp
  next
    case c
    have "js_slice H (Some 8) (Some 10) = ''fe''" using c by (simp add: sl)
    from skip_input_count_eq [OF this] c show ?thesis by simp
  next
    case d
    have "js_slice H (Some 8) (Some 10) = ''ff''" using d by (simp add: sl)
    from skip_input_count_eq [OF this] d show ?thesis by simp
  qed
  then show ?thesis by (simp add: H_def)
qed

lemma length_reverse_pairs: "length (concat (rev (substr_pairs s))) = length s"
  by (induction s rule: substr_pairs.induct) simp_all

lemma length_reverseBytesInPairs [simp]: "length (reverseBytesInPairs s) = length s"
  unfolding reverseBytesInPairs_def by (rule length_reverse_pairs)

lemma length_reverseTxid [simp]: "length (reverseTxid s) = length s"
  unfolding reverseTxid_def by (rule length_reverse_pairs)

lemma length_outpoint_hex: "wf_input x \<Longrightarrow> length (outpoint_hex x) = 72"
  by (simp add: outpoint_hex_def wf_input_def length_pad_hex)

lemma length_sequence_hex: "wf_input x \<Longrightarrow> length (sequence_hex x) = 8"
  by (auto simp: sequence_hex_def wf_input_def length_pad_hex split: option.splits)

lemma encodeVarInt_0: "encodeVarInt 0 = ''00''"
  by (simp add: encodeVarInt_def hex_eval)

text \<open>The script field of an input is a varint followed by that many bytes.\<close>

lemma script_field_shape:
  assumes "\<forall>s \<in> set spks. wf_script s"
  shows "\<exists>m spk. (case script_at spks i of
                     Some scriptPubKey \<Rightarrow> encodeVarInt_half (length scriptPubKey) @ scriptPubKey
                   | None \<Rightarrow> ''00'') = encodeVarInt m @ spk \<and> length spk = 2 * m \<and> m < 2 ^ 64"
proof (cases "script_at spks i")
  case None
  then show ?thesis by (intro exI [of _ 0] exI [of _ "[]"]) (simp add: encodeVarInt_0)
next
  case (Some s)
  then have "s \<in> set spks" by (auto simp: script_at_def split: if_splits)
  with assms have "wf_script s" by blast
  then show ?thesis using Some
    by (intro exI [of _ "length s div 2"] exI [of _ s]) (auto simp: wf_script_def encodeVarInt_half_def)
qed

lemma skip_inputs_inputs_hex:
  assumes "\<forall>x \<in> set ins. wf_input x" and spks: "\<forall>s \<in> set spks. wf_script s"
  shows "skip_inputs (A @ inputs_hex spks i ins @ B) (length ins) (Some (int (length A)))
         = Some (int (length A + length (inputs_hex spks i ins)))"
  using assms(1)
proof (induction ins arbitrary: A i)
  case Nil
  then show ?case by simp
next
  case (Cons x ins)
  then have wf: "wf_input x" and wfs: "\<forall>x \<in> set ins. wf_input x" by simp_all
  obtain m spk where f: "(case script_at spks i of
                     Some scriptPubKey \<Rightarrow> encodeVarInt_half (length scriptPubKey) @ scriptPubKey
                   | None \<Rightarrow> ''00'') = encodeVarInt m @ spk" and len: "length spk = 2 * m" and m: "m < 2 ^ 64"
    using script_field_shape [OF spks, of i] by blast
  define Op where "Op = outpoint_hex x"
  define S where "S = sequence_hex x"
  define R where "R = inputs_hex spks (Suc i) ins"
  define H where "H = A @ inputs_hex spks i (x # ins) @ B"
  have lO: "length Op = 72" and lS: "length S = 8"
    using wf by (simp_all add: Op_def S_def length_outpoint_hex length_sequence_hex)
  have "inputs_hex spks i (x # ins) = outpoint_hex x @
     (case script_at spks i of
        Some scriptPubKey \<Rightarrow> encodeVarInt_half (length scriptPubKey) @ scriptPubKey
      | None \<Rightarrow> ''00'') @ sequence_hex x @ inputs_hex spks (Suc i) ins"
    by simp
  then have ih: "inputs_hex spks i (x # ins) = Op @ encodeVarInt m @ spk @ S @ R"
    unfolding f Op_def S_def R_def by simp
  have H1: "H = (A @ Op) @ encodeVarInt m @ spk @ (S @ R @ B)"
    by (simp add: H_def ih del: inputs_hex.simps)
  have H2: "H = (A @ Op @ encodeVarInt m @ spk @ S) @ inputs_hex spks (Suc i) ins @ B"
    by (simp add: H_def ih R_def del: inputs_hex.simps)
  have s1: "skip_script H (Some (int (length A) + 72)) =
            Some (int (length (A @ Op) + length (encodeVarInt m) + length spk))"
    using skip_script_varint [OF m len, of "A @ Op" "S @ R @ B"] lO
    by (simp add: H1 add.assoc)
  have "skip_inputs H (length (x # ins)) (Some (int (length A)))
        = skip_inputs H (length ins) (Some (int (length (A @ Op @ encodeVarInt m @ spk @ S))))"
    using lS lO by (simp add: Let_def s1 algebra_simps)
  also have "\<dots> = Some (int (length (A @ Op @ encodeVarInt m @ spk @ S) + length (inputs_hex spks (Suc i) ins)))"
    unfolding H2 by (rule Cons.IH [OF wfs])
  also have "\<dots> = Some (int (length A + length (inputs_hex spks i (x # ins))))"
    by (simp add: ih R_def del: inputs_hex.simps)
  finally show ?case by (simp add: H_def)
qed

lemma take_drop_split: "length P = p \<Longrightarrow> take p (P @ Q) = P \<and> drop p (P @ Q) = Q"
  by simp

text \<open>
  C9. For well-formed inputs (64-character transaction ids, four-byte output indices and
  sequence numbers, scripts of whole bytes), whatever the size class of the input count and of
  each script length: on the hex that \<^verbatim>\<open>createTransactionHex\<close> returns,
  \<^verbatim>\<open>findOutputsPositionInHex\<close> with the number of inputs returns the position \<open>p\<close> that
  separates the version, the input count and the inputs (the first \<open>p\<close> characters) from the
  output section, which starts with the output-count varint.
\<close>

theorem findOutputsPosition_roundtrip:
  assumes ins: "\<forall>x \<in> set ins. wf_input x"
    and spks: "\<forall>s \<in> set scriptPubKeys. wf_script s"
    and count: "length ins < 2 ^ 64"
    and hex: "createTransactionHex lib ins outs scriptPubKeys = Inr transactionHex"
  shows "\<exists>p outs_hex.
           findOutputsPositionInHex transactionHex (length ins) = Some (int p) \<and>
           take p transactionHex = ''01000000'' @ encodeVarInt (length ins) @ inputs_hex scriptPubKeys 0 ins \<and>
           outputs_hex lib outs = Inr outs_hex \<and>
           drop p transactionHex = encodeVarInt (length outs) @ outs_hex @ ''00000000''"
proof -
  obtain outs_hex where oh: "outputs_hex lib outs = Inr outs_hex"
    and th: "transactionHex = ''01000000'' @ encodeVarInt (length ins) @ inputs_hex scriptPubKeys 0 ins @
             encodeVarInt (length outs) @ outs_hex @ ''00000000''"
    using hex by (auto simp: createTransactionHex_def split: sum.splits)
  define P where "P = ''01000000'' @ encodeVarInt (length ins)"
  define I where "I = inputs_hex scriptPubKeys 0 ins"
  define Q where "Q = encodeVarInt (length outs) @ outs_hex @ ''00000000''"
  have th': "transactionHex = P @ I @ Q" by (simp add: th P_def I_def Q_def)
  have lP: "int (length P) = 8 + int (length (encodeVarInt (length ins)))" by (simp add: P_def)
  have c: "skip_input_count transactionHex (Some 8) = Some (int (length P))"
    unfolding lP th by (rule skip_input_count_varint [OF count])
  have "findOutputsPositionInHex transactionHex (length ins)
        = skip_inputs transactionHex (length ins) (Some (int (length P)))"
    by (simp add: findOutputsPositionInHex_def Let_def c)
  also have "\<dots> = Some (int (length P + length I))"
    unfolding th' I_def by (rule skip_inputs_inputs_hex [OF ins spks])
  finally have pos: "findOutputsPositionInHex transactionHex (length ins) = Some (int (length (P @ I)))"
    by simp
  have "take (length (P @ I)) transactionHex = P @ I \<and> drop (length (P @ I)) transactionHex = Q"
    using take_drop_split [of "P @ I" "length (P @ I)" Q] by (simp add: th')
  with pos oh show ?thesis
    by (intro exI [of _ "length (P @ I)"] exI [of _ outs_hex]) (simp add: P_def I_def Q_def)
qed

section \<open>Runs of the codec on concrete inputs\<close>

lemma length_Cons_plus: "length (x # xs) = length xs + 1"
  by simp

lemma outpoint_hex_demo1: "outpoint_hex demo_input1 = ''1f1e1d1c1b1a191817161514131211100f0e0d0c0b0a09080706050403020100'' @ ''00000000''"
  by (simp add: demo_input1_def demo_txid_def outpoint_hex_def reverseTxid_def reverseBytesInPairs_def hex_eval replicate_numeral
      length_Cons_plus del: list.size(4))

lemma sequence_hex_demo1: "sequence_hex demo_input1 = ''ffffffff''"
  by (simp add: demo_input1_def sequence_hex_def reverseBytesInPairs_def hex_eval replicate_numeral
      length_Cons_plus del: list.size(4))

lemma script_at_Nil: "script_at [] 0 = None" "script_at [] (Suc 0) = None"
  by (simp_all add: script_at_def)

lemma encodeVarInt_demo_inputs: "encodeVarInt (length [demo_input1, demo_input2]) = ''02''"
  by (simp add: encodeVarInt_def hex_eval replicate_numeral length_Cons_plus del: list.size(4))

lemma outpoint_hex_demo2: "outpoint_hex demo_input2 = ''1f1e1d1c1b1a191817161514131211100f0e0d0c0b0a09080706050403020100'' @ ''01000000''"
  by (simp add: demo_input2_def demo_txid_def outpoint_hex_def reverseTxid_def reverseBytesInPairs_def hex_eval replicate_numeral
      length_Cons_plus del: list.size(4))

lemma sequence_hex_demo2: "sequence_hex demo_input2 = ''ffffffff''"
  by (simp add: demo_input2_def sequence_hex_def reverseBytesInPairs_def hex_eval replicate_numeral
      length_Cons_plus del: list.size(4))

lemma inputs_hex_demo:
  "inputs_hex [] 0 [demo_input1, demo_input2] =
     ''1f1e1d1c1b1a191817161514131211100f0e0d0c0b0a09080706050403020100'' @ ''00000000'' @ ''00'' @ ''ffffffff'' @
     ''1f1e1d1c1b1a191817161514131211100f0e0d0c0b0a09080706050403020100'' @ ''01000000'' @ ''00'' @ ''ffffffff''"
  by (simp add: outpoint_hex_demo1 outpoint_hex_demo2 sequence_hex_demo1 sequence_hex_demo2 script_at_Nil)

lemma base58checkDecode_demo:
  "base58checkDecode demo_lib demo_address
     = Inr [0x41, 32, 32, 32, 32, 32, 32, 32, 32, 32, 32, 32, 32, 32, 32, 32, 32, 32, 32, 32, 32]"
  by (simp add: replicate_numeral demo_address_def base58checkDecode_def fromBase58_def alphabet_def
      num_to_bytes.simps doubleSha256_def sha256_def demo_lib_def)

lemma addressToHash160_demo:
  "addressToHash160 demo_lib demo_address
     = Inr [32, 32, 32, 32, 32, 32, 32, 32, 32, 32, 32, 32, 32, 32, 32, 32, 32, 32, 32, 32]"
  by (simp add: addressToHash160_def demo_address_valid base58checkDecode_demo)

lemma value_hex_demo1: "padStart 16 CHR ''0'' (js_toString16 50000000) = ''0000000002faf080''"
  by (simp add: js_toString16_def hex_eval replicate_numeral)

lemma value_le_demo1: "reverseBytesInPairs ''0000000002faf080'' = ''80f0fa0200000000''"
  by (simp add: reverseBytesInPairs_def)

lemma p2pkh_script_demo: "createPayToPubKeyHashScript [32, 32, 32, 32, 32, 32, 32, 32, 32, 32, 32, 32, 32, 32, 32, 32, 32, 32, 32, 32]
   = ''76a914202020202020202020202020202020202020202088ac''"
  by (simp add: createPayToPubKeyHashScript_def toHex_def hexdigit_def hex_chars_def)

lemma encodeVarInt_half_p2pkh: "encodeVarInt_half (length ''76a914202020202020202020202020202020202020202088ac'') = ''19''"
  by (simp add: length_Cons_plus encodeVarInt_half_def encodeVarInt_def hex_eval del: list.size(4))

lemma value_hex_demo2: "padStart 16 CHR ''0'' (js_toString16 49975000) = ''0000000002fa8ed8''"
  by (simp add: js_toString16_def hex_eval replicate_numeral)

lemma value_le_demo2: "reverseBytesInPairs ''0000000002fa8ed8'' = ''d88efa0200000000''"
  by (simp add: reverseBytesInPairs_def)

lemma outputs_hex_demo:
  "outputs_hex demo_lib demo_outputs
     = Inr (''80f0fa0200000000'' @ ''1976a914202020202020202020202020202020202020202088ac'' @
            ''d88efa0200000000'' @ ''1976a914202020202020202020202020202020202020202088ac'')"
  unfolding demo_outputs_def
  by (simp add: addressToHash160_demo p2pkh_script_demo value_hex_demo1 value_hex_demo2 value_le_demo1 value_le_demo2 encodeVarInt_half_p2pkh Let_def
      del: list.size(4))

lemma encodeVarInt_demo_outputs: "encodeVarInt (length demo_outputs) = ''02''"
  by (simp add: demo_outputs_def encodeVarInt_def hex_eval replicate_numeral length_Cons_plus del: list.size(4))

lemma createTransactionHex_demo:
  "createTransactionHex demo_lib [demo_input1, demo_input2] demo_outputs [] = Inr demo_unsigned_hex"
  unfolding createTransactionHex_def
  by (simp add: outputs_hex_demo inputs_hex_demo encodeVarInt_demo_inputs encodeVarInt_demo_outputs demo_unsigned_hex_def
      del: list.size(4) inputs_hex.simps)

lemma wf_demo_inputs: "wf_input demo_input1" "wf_input demo_input2"
  by (simp_all add: wf_input_def demo_input1_def demo_input2_def demo_txid_def
      length_Cons_plus del: list.size(4))

lemma length_demo_unsigned_hex: "length demo_unsigned_hex = 320"
  by (simp add: demo_unsigned_hex_def length_Cons_plus del: list.size(4))

theorem findOutputsPosition_roundtrip_witness:
  "wf_input demo_input1 \<and> wf_input demo_input2 \<and>
   createTransactionHex demo_lib [demo_input1, demo_input2] demo_outputs [] = Inr demo_unsigned_hex \<and>
   findOutputsPositionInHex demo_unsigned_hex 2 = Some 174 \<and>
   drop 174 demo_unsigned_hex =
     ''02'' @ ''80f0fa0200000000'' @ ''1976a914202020202020202020202020202020202020202088ac'' @
     ''d88efa0200000000'' @ ''1976a914202020202020202020202020202020202020202088ac'' @ ''00000000''"
proof -
  have ins: "\<forall>x \<in> set [demo_input1, demo_input2]. wf_input x"
    by (simp add: wf_demo_inputs)
  have spks: "\<forall>s \<in> set ([] :: string list). wf_script s" by simp
  have count: "length [demo_input1, demo_input2] < 2 ^ 64" by simp
  from findOutputsPosition_roundtrip [OF ins spks count createTransactionHex_demo]
  obtain p outs_hex where
    pos: "findOutputsPositionInHex demo_unsigned_hex (length [demo_input1, demo_input2]) = Some (int p)"
    and pre: "take p demo_unsigned_hex =
        ''01000000'' @ encodeVarInt (length [demo_input1, demo_input2]) @
        inputs_hex [] 0 [demo_input1, demo_input2]"
    and oh: "outputs_hex demo_lib demo_outputs = Inr outs_hex"
    and post: "drop p demo_unsigned_hex = encodeVarInt (length demo_outputs) @ outs_hex @ ''00000000''"
    by blast
  have "length (take p demo_unsigned_hex) = 174"
    unfolding pre encodeVarInt_demo_inputs inputs_hex_demo
    by (simp add: length_Cons_plus del: list.size(4))
  then have p: "p = 174"
    by (simp add: length_demo_unsigned_hex min_def split: if_splits)
  have outs: "outs_hex = ''80f0fa0200000000'' @ ''1976a914202020202020202020202020202020202020202088ac'' @
            ''d88efa0200000000'' @ ''1976a914202020202020202020202020202020202020202088ac''"
    using oh by (simp add: outputs_hex_demo)
  show ?thesis
    using pos post
    by (simp add: p outs wf_demo_inputs createTransactionHex_demo encodeVarInt_demo_outputs
        numeral_2_eq_2)
qed

section \<open>DER signature encoding\<close>

lemma all_hex_Nil [simp]: "all_hex []"
  by (simp add: all_hex_def)

lemma all_hex_Cons [simp]: "all_hex (c # s) \<longleftrightarrow> hexval c \<noteq> None \<and> all_hex s"
  by (auto simp: all_hex_def)

lemma all_hex_append [simp]: "all_hex (a @ b) \<longleftrightarrow> all_hex a \<and> all_hex b"
  by (auto simp: all_hex_def)

lemma lower_hex_all_hex: "lower_hex s \<Longrightarrow> all_hex s"
  by (auto simp: all_hex_def dest: lower_hex_hexval)

lemma hexval_not_special:
  assumes "hexval c \<noteq> None"
  shows "\<not> is_js_space c \<and> c \<noteq> CHR ''-'' \<and> c \<noteq> CHR ''+'' \<and> c \<noteq> CHR ''x'' \<and> c \<noteq> CHR ''X''"
proof -
  have *: "\<And>d. (of_char c :: nat) \<noteq> of_char d \<Longrightarrow> c \<noteq> d" by auto
  have "(of_char c :: nat) \<notin> {9, 10, 11, 12, 13, 32, 160, 45, 43, 120, 88}"
    using assms by (auto simp: hexval_def Let_def split: if_splits)
  then show ?thesis
    by (auto simp: is_js_space_def intro!: *)
qed

lemma parseInt16_all_hex:
  assumes "all_hex s" "s \<noteq> []" "hex_value 0 s = Some v"
  shows "parseInt16 s = Some (int v)"
proof -
  obtain c r where s: "s = c # r" using assms(2) by (cases s) auto
  have c: "hexval c \<noteq> None" using assms(1) s by simp
  note sp = hexval_not_special [OF c]
  have s1: "dropWhile is_js_space s = s" using s sp by simp
  have s3: "(case s of a # b # r \<Rightarrow> if a = CHR ''0'' \<and> (b = CHR ''x'' \<or> b = CHR ''X'') then r else s
                | _ \<Rightarrow> s) = s"
  proof (cases r)
    case Nil
    then show ?thesis using s by simp
  next
    case (Cons b r')
    then have "hexval b \<noteq> None" using assms(1) s by simp
    then show ?thesis using s Cons hexval_not_special [of b] by auto
  qed
  have tw: "takeWhile (\<lambda>c. hexval c \<noteq> None) s = s"
    using assms(1) by (simp add: takeWhile_eq_all_conv all_hex_def)
  have sign: "(case s of c # r \<Rightarrow> if c = CHR ''-'' then - 1 else (1::int) | [] \<Rightarrow> 1) = 1"
    using s sp by simp
  have s2: "(case s of c # r \<Rightarrow> if c = CHR ''-'' \<or> c = CHR ''+'' then r else s | [] \<Rightarrow> []) = s"
    using s sp by simp
  show ?thesis
    unfolding parseInt16_def Let_def s1 sign s2 s3 tw
    using assms(2,3) by simp
qed

text \<open>Decoding a string of digit pairs.\<close>

lemma fromHex_append:
  "all_hex a \<Longrightarrow> even (length a) \<Longrightarrow> fromHex (a @ b) = fromHex a @ fromHex b"
  by (induction a rule: fromHex.induct) (auto split: option.splits)

lemma length_fromHex:
  "all_hex a \<Longrightarrow> even (length a) \<Longrightarrow> 2 * length (fromHex a) = length a"
  by (induction a rule: fromHex.induct) (auto split: option.splits)

lemma fromHex_pair:
  "a < 16 \<Longrightarrow> b < 16 \<Longrightarrow> fromHex [hexdigit a, hexdigit b] = [of_nat (16 * a + b)]"
  by (simp add: hexval_hexdigit)

lemma fromHex_pad2: "k < 256 \<Longrightarrow> fromHex (padStart 2 CHR ''0'' (toString16 k)) = [of_nat k]"
proof -
  assume k: "k < 256"
  then have d: "k div 16 < 16" "k mod 16 < 16" by simp_all
  have "fromHex (padStart 2 CHR ''0'' (toString16 k)) = fromHex [hexdigit (k div 16), hexdigit (k mod 16)]"
    using k by (simp only: pad2_digits)
  also have "\<dots> = [of_nat (16 * (k div 16) + k mod 16)]"
    by (rule fromHex_pair [OF d])
  also have "16 * (k div 16) + k mod 16 = k" by simp
  finally show ?thesis .
qed

text \<open>The first byte of a decoded string and the number \<^verbatim>\<open>parseInt\<close> reads from its first pair.\<close>

lemma first_pair:
  assumes "all_hex E" "even (length E)" "E \<noteq> []"
  shows "\<exists>x < 256. parseInt16 (take 2 E) = Some (int x) \<and> fromHex E \<noteq> [] \<and> hd (fromHex E) = of_nat x"
proof -
  obtain a b rest where E: "E = a # b # rest"
    using assms(2,3) by (cases E; cases "tl E") auto
  obtain x y where x: "hexval a = Some x" and y: "hexval b = Some y"
    using assms(1) E by auto
  have xb: "x < 16" using x by (auto simp: hexval_def Let_def split: if_splits)
  have yb: "y < 16" using y by (auto simp: hexval_def Let_def split: if_splits)
  have "parseInt16 [a, b] = Some (int (16 * x + y))"
    by (rule parseInt16_all_hex) (simp_all add: x y)
  then show ?thesis using E x y xb yb
    by (intro exI [of _ "16 * x + y"]) simp
qed

lemma byte_ge_0x80: "x < 256 \<Longrightarrow> ((of_nat x :: byte) \<ge> 0x80) \<longleftrightarrow> 128 \<le> x"
  by (simp add: word_le_nat_alt unat_of_nat)

lemma toString16_hd: "0 < v \<Longrightarrow> hd (toString16 v) \<noteq> CHR ''0''"
proof (induction v rule: toString16.induct)
  case (1 n)
  show ?case
  proof (cases "n < 16")
    case True
    then show ?thesis using 1(2) by (subst toString16.simps) (simp add: hexdigit_eq_zero)
  next
    case False
    then have "0 < n div 16" by simp
    with 1(1) False have "hd (toString16 (n div 16)) \<noteq> CHR ''0''" by simp
    then show ?thesis using False by (subst toString16.simps) simp
  qed
qed

lemma dropWhile_replicate_append: "P x \<Longrightarrow> dropWhile P (replicate k x @ ys) = dropWhile P ys"
  by (induction k) simp_all

lemma dropWhile_hd: "t \<noteq> [] \<Longrightarrow> \<not> P (hd t) \<Longrightarrow> dropWhile P t = t"
  by (cases t) simp_all

lemma strip_pad:
  "0 < v \<Longrightarrow> dropWhile (\<lambda>c. c = CHR ''0'') (padStart w CHR ''0'' (toString16 v)) = toString16 v"
  by (simp add: padStart_def dropWhile_replicate_append dropWhile_hd toString16_hd)

lemma toString16_256:
  assumes "256 \<le> v"
  shows "toString16 v = toString16 (v div 256) @ [hexdigit ((v div 16) mod 16), hexdigit (v mod 16)]"
proof -
  have a: "\<not> v < 16" and b: "\<not> v div 16 < 16" using assms by simp_all
  have "toString16 v = toString16 (v div 16) @ [hexdigit (v mod 16)]"
    using a by (subst toString16.simps) simp
  also have "toString16 (v div 16) = toString16 (v div 16 div 16) @ [hexdigit ((v div 16) mod 16)]"
    using b by (subst toString16.simps) simp
  also have "v div 16 div 16 = v div 256" by (simp add: div_mult2_eq)
  finally show ?thesis by simp
qed

lemma even_pad_append_pair: "even_pad (A @ [a, b]) = even_pad A @ [a, b]"
  by (simp add: even_pad_def)

lemma even_pad_small: "v < 256 \<Longrightarrow> even_pad (toString16 v) = padStart 2 CHR ''0'' (toString16 v)"
proof (cases "v < 16")
  case True
  then have "toString16 v = [hexdigit v]" by (subst toString16.simps) simp
  then show ?thesis by (simp add: even_pad_def padStart_def)
next
  case False
  assume "v < 256"
  then have "v div 16 < 16" by simp
  then have "toString16 (v div 16) = [hexdigit (v div 16)]" by (subst toString16.simps) simp
  with False have "toString16 v = [hexdigit (v div 16), hexdigit (v mod 16)]"
    by (subst toString16.simps) simp
  then show ?thesis by (simp add: even_pad_def padStart_def)
qed

lemma even_pad_props: "lower_hex (even_pad (toString16 v)) \<and> even (length (even_pad (toString16 v)))
    \<and> even_pad (toString16 v) \<noteq> []"
proof -
  have "lower_hex [CHR ''0'']"
    using lower_hex_replicate_zero [of 1] by simp
  then have "lower_hex (CHR ''0'' # toString16 v)"
    using lower_hex_append [of "[CHR ''0'']" "toString16 v"] by simp
  then show ?thesis by (simp add: even_pad_def)
qed

lemma be_bytes_nonempty: "0 < v \<Longrightarrow> be_bytes v \<noteq> []"
  by (subst be_bytes.simps) simp

lemma fromHex_even_pad: "0 < v \<Longrightarrow> fromHex (even_pad (toString16 v)) = be_bytes v"
proof (induction v rule: less_induct)
  case (less v)
  show ?case
  proof (cases "v < 256")
    case True
    then have "be_bytes v = [of_nat v]"
      using less.prems by (subst be_bytes.simps) (simp add: be_bytes.simps)
    then show ?thesis using True by (simp add: even_pad_small fromHex_pad2)
  next
    case False
    then have ge: "256 \<le> v" by simp
    then have pos: "0 < v div 256" by (simp add: div_greater_zero_iff)
    have lt: "v div 256 < v" using ge by simp
    let ?A = "even_pad (toString16 (v div 256))"
    have A: "all_hex ?A" "even (length ?A)"
      using even_pad_props [of "v div 256"] by (simp_all add: lower_hex_all_hex)
    have d: "(v div 16) mod 16 < 16" "v mod 16 < 16" by simp_all
    have "even_pad (toString16 v) = ?A @ [hexdigit ((v div 16) mod 16), hexdigit (v mod 16)]"
      by (simp only: toString16_256 [OF ge] even_pad_append_pair)
    then have "fromHex (even_pad (toString16 v))
               = fromHex ?A @ fromHex [hexdigit ((v div 16) mod 16), hexdigit (v mod 16)]"
      by (simp only: fromHex_append [OF A])
    also have "\<dots> = be_bytes (v div 256) @ [of_nat (16 * ((v div 16) mod 16) + v mod 16)]"
      by (simp only: less.IH [OF lt pos] fromHex_pair [OF d])
    also have "16 * ((v div 16) mod 16) + v mod 16 = v mod 256"
      using mod_mult2_eq [of v 16 16] by simp
    also have "be_bytes (v div 256) @ [of_nat (v mod 256)] = be_bytes v"
      using ge by (subst (2) be_bytes.simps) simp
    finally show ?thesis .
  qed
qed

lemma odd_le_64: "odd (n::nat) \<Longrightarrow> n \<le> 64 \<Longrightarrow> Suc n \<le> 64"
  by (cases "n = 64") auto

lemma length_even_pad:
  assumes "v < 16 ^ 64"
  shows "length (even_pad (toString16 v)) \<le> 64"
proof -
  have l: "length (toString16 v) \<le> 64"
    by (rule length_toString16_le [OF _ assms]) simp
  show ?thesis
    using l odd_le_64 [of "length (toString16 v)"] by (simp add: even_pad_def)
qed

lemma upper_char_code:
  assumes "d < 16"
  shows "(of_char (upper_char (hexdigit d)) :: nat) = (if d < 10 then 48 + d else 55 + d)"
  using assms by (auto simp: upper_char_def hexdigit_code)

lemma hexval_upper_char: "d < 16 \<Longrightarrow> hexval (upper_char (hexdigit d)) = Some d"
  by (auto simp: hexval_def Let_def upper_char_code)

lemma upper_char_zero: "d < 16 \<Longrightarrow> upper_char (hexdigit d) = CHR ''0'' \<longleftrightarrow> hexdigit d = CHR ''0''"
proof
  assume d: "d < 16" and "upper_char (hexdigit d) = CHR ''0''"
  then have "hexval (upper_char (hexdigit d)) = hexval CHR ''0''" by simp
  then have "d = 0" using d by (simp add: hexval_upper_char) (simp add: hexval_def)
  then show "hexdigit d = CHR ''0''" by (simp add: hexdigit_zero)
next
  assume "hexdigit d = CHR ''0''"
  then show "upper_char (hexdigit d) = CHR ''0''" by (simp add: upper_char_def)
qed

lemma upper_zero [simp]: "upper_char CHR ''0'' = CHR ''0''"
  by (simp add: upper_char_def)

lemma toUpperCase_simps [simp]:
  "toUpperCase [] = []" "toUpperCase (c # s) = upper_char c # toUpperCase s"
  "toUpperCase (a @ b) = toUpperCase a @ toUpperCase b"
  "length (toUpperCase s) = length s"
  by (simp_all add: toUpperCase_def)

lemma toUpperCase_zeros [simp]: "toUpperCase (replicate k CHR ''0'') = replicate k CHR ''0''"
  by (simp add: toUpperCase_def)

lemma toUpperCase_padStart: "toUpperCase (padStart w CHR ''0'' s) = padStart w CHR ''0'' (toUpperCase s)"
  by (simp add: padStart_def)

lemma all_hex_upper: "lower_hex s \<Longrightarrow> all_hex (toUpperCase s)"
  by (induction s) (auto simp: lower_hex_Cons hexval_upper_char)

lemma hex_value_upper: "lower_hex s \<Longrightarrow> hex_value acc (toUpperCase s) = hex_value acc s"
  by (induction s arbitrary: acc) (auto simp: lower_hex_Cons hexval_upper_char hexval_hexdigit)

lemma fromHex_upper: "lower_hex s \<Longrightarrow> fromHex (toUpperCase s) = fromHex s"
  by (induction s rule: fromHex.induct)
    (auto simp: lower_hex_Cons hexval_upper_char hexval_hexdigit)

lemma dropWhile_upper:
  "lower_hex s \<Longrightarrow>
   dropWhile (\<lambda>c. c = CHR ''0'') (toUpperCase s) = toUpperCase (dropWhile (\<lambda>c. c = CHR ''0'') s)"
  by (induction s) (auto simp: lower_hex_Cons upper_char_zero)

lemma lower_hex_dropWhile: "lower_hex s \<Longrightarrow> lower_hex (dropWhile P s)"
  by (auto simp: lower_hex_def dest: set_dropWhileD)

lemma lower_hex_take: "lower_hex s \<Longrightarrow> lower_hex (take k s)"
  by (auto simp: lower_hex_def dest: in_set_takeD)

lemma hex_value_Some: "all_hex s \<Longrightarrow> \<exists>v. hex_value acc s = Some v"
  by (induction s arbitrary: acc) auto

lemma parseInt16_upper:
  assumes "lower_hex s"
  shows "parseInt16 (toUpperCase s) = parseInt16 s"
proof (cases "s = []")
  case True
  then show ?thesis by simp
next
  case False
  obtain v where v: "hex_value 0 s = Some v"
    using hex_value_Some [OF lower_hex_all_hex [OF assms]] by blast
  have "parseInt16 s = Some (int v)"
    by (rule parseInt16_all_hex [OF lower_hex_all_hex [OF assms] False v])
  moreover have "toUpperCase s \<noteq> []" using False by (simp add: toUpperCase_def)
  moreover have "hex_value 0 (toUpperCase s) = Some v"
    using v by (simp only: hex_value_upper [OF assms])
  ultimately have "parseInt16 (toUpperCase s) = Some (int v)"
    using parseInt16_all_hex [OF all_hex_upper [OF assms]] by blast
  moreover note \<open>parseInt16 s = Some (int v)\<close>
  ultimately show ?thesis by simp
qed

lemma take_upper: "take k (toUpperCase s) = toUpperCase (take k s)"
  by (simp add: toUpperCase_def take_map)

lemma der_strip_upper:
  assumes "lower_hex s"
  shows "der_strip (toUpperCase s) = toUpperCase (der_strip s)"
proof -
  let ?t = "dropWhile (\<lambda>c. c = CHR ''0'') s"
  let ?e = "if odd (length ?t) then CHR ''0'' # ?t else ?t"
  have t: "lower_hex ?t" by (rule lower_hex_dropWhile [OF assms])
  have "lower_hex [CHR ''0'']" using lower_hex_replicate_zero [of 1] by simp
  then have e: "lower_hex ?e"
    using t lower_hex_append [of "[CHR ''0'']" ?t] by simp
  have p: "parseInt16 (take 2 (toUpperCase ?e)) = parseInt16 (take 2 ?e)"
    unfolding take_upper by (rule parseInt16_upper [OF lower_hex_take [OF e]])
  have eu: "(if odd (length (toUpperCase ?t)) then CHR ''0'' # toUpperCase ?t else toUpperCase ?t)
            = toUpperCase ?e"
    by simp
  show ?thesis
    unfolding der_strip_def Let_def dropWhile_upper [OF assms] eu p
    by simp
qed

text \<open>What the three normalising lines make of a padded digit string.\<close>

lemma der_strip_pad:
  assumes "0 < v"
  shows "der_strip (padStart w CHR ''0'' (toString16 v))
         = (if hd (be_bytes v) \<ge> 0x80 then ''00'' @ even_pad (toString16 v) else even_pad (toString16 v))"
proof -
  let ?E = "even_pad (toString16 v)"
  have E: "all_hex ?E" "even (length ?E)" "?E \<noteq> []"
    using even_pad_props [of v] by (simp_all add: lower_hex_all_hex)
  obtain x where x: "x < 256" "parseInt16 (take 2 ?E) = Some (int x)" "hd (fromHex ?E) = of_nat x"
    using first_pair [OF E] by blast
  have "hd (be_bytes v) = of_nat x"
    using x(3) by (simp add: fromHex_even_pad [OF assms])
  then have hi: "num_greater (parseInt16 (take 2 ?E)) 0x7f \<longleftrightarrow> hd (be_bytes v) \<ge> 0x80"
    using x(1,2) by (auto simp: num_greater_def byte_ge_0x80)
  have fold: "(if odd (length (toString16 v)) then CHR ''0'' # toString16 v else toString16 v) = ?E"
    by (simp add: even_pad_def)
  show ?thesis
    unfolding der_strip_def Let_def strip_pad [OF assms] fold hi by simp
qed

lemma der_strip_pad_bytes:
  assumes "0 < v" "v < 16 ^ 64"
  defines "D \<equiv> der_strip (padStart 64 CHR ''0'' (toString16 v))"
  shows "fromHex D = der_integer v" "lower_hex D" "even (length D)"
    "length D = 2 * length (der_integer v)" "length (der_integer v) \<le> 33"
proof -
  let ?E = "even_pad (toString16 v)"
  have E: "lower_hex ?E" "even (length ?E)" "?E \<noteq> []"
    using even_pad_props [of v] by simp_all
  have D: "D = (if hd (be_bytes v) \<ge> 0x80 then ''00'' @ ?E else ?E)"
    unfolding D_def by (rule der_strip_pad [OF assms(1)])
  have z: "lower_hex ''00''" using lower_hex_replicate_zero [of 2] by (simp add: numeral_2_eq_2)
  show f: "fromHex D = der_integer v"
    using be_bytes_nonempty [OF assms(1)]
    by (simp add: D der_integer_def Let_def fromHex_even_pad [OF assms(1)] hexval_def)
  show l: "lower_hex D" using E z lower_hex_append [of "''00''" ?E] by (simp add: D)
  show e: "even (length D)" using E by (simp add: D)
  show len: "length D = 2 * length (der_integer v)"
    using length_fromHex [OF lower_hex_all_hex [OF l] e] f by simp
  have "length D \<le> 66" using length_even_pad [OF assms(2)] by (simp add: D)
  then show "length (der_integer v) \<le> 33" using len by simp
qed

lemma bigint_curveOrder: "bigint_of_hex curveOrder = Inr secp256k1_n"
  by (simp add: bigint_of_hex_def curveOrder_def hexval_def secp256k1_n_def)

lemma bigint_pad: "0 < w \<Longrightarrow> bigint_of_hex (padStart w CHR ''0'' (toString16 v)) = Inr v"
  by (simp add: bigint_of_hex_def hex_value_padStart) (simp add: padStart_def)

lemma secp256k1_n_bound: "secp256k1_n < 16 ^ 64"
  by (simp add: secp256k1_n_def)

lemma low_s_bounds:
  assumes "0 < s" "s < secp256k1_n"
  shows "0 < low_s s" "low_s s < secp256k1_n" "low_s s \<le> secp256k1_n div 2"
  using assms by (auto simp: low_s_def)

lemma bytes_to_num_snoc: "bytes_to_num acc (xs @ [b]) = bytes_to_num acc xs * 256 + unat b"
  by (induction xs arbitrary: acc) simp_all

lemma be_bytes_value: "bytes_to_num 0 (be_bytes v) = v"
proof (induction v rule: be_bytes.induct)
  case (1 v)
  show ?case
  proof (cases "v = 0")
    case True
    then show ?thesis by (simp add: be_bytes.simps)
  next
    case False
    have "bytes_to_num 0 (be_bytes v) = bytes_to_num 0 (be_bytes (v div 256) @ [of_nat (v mod 256)])"
      using False by (subst be_bytes.simps) simp
    also have "\<dots> = v div 256 * 256 + v mod 256"
      using 1 [OF False] by (simp add: bytes_to_num_snoc unat_of_nat)
    finally show ?thesis by simp
  qed
qed

lemma der_integer_value: "bytes_to_num 0 (der_integer v) = v"
  by (simp add: der_integer_def Let_def be_bytes_value)

lemma be_bytes_hd: "0 < v \<Longrightarrow> hd (be_bytes v) \<noteq> 0"
proof (induction v rule: be_bytes.induct)
  case (1 v)
  show ?case
  proof (cases "v < 256")
    case True
    then have "be_bytes v = [of_nat v]"
      using 1(2) by (subst be_bytes.simps) (simp add: be_bytes.simps)
    moreover have "(of_nat v :: byte) \<noteq> 0"
      using True 1(2) by (simp add: of_nat_0_eq_iff unat_of_nat word_eq_iff_unsigned [where ?'a = nat])
    ultimately show ?thesis by simp
  next
    case False
    then have pos: "0 < v div 256" by (simp add: div_greater_zero_iff)
    have "be_bytes v = be_bytes (v div 256) @ [of_nat (v mod 256)]"
      using False by (subst be_bytes.simps) simp
    then show ?thesis
      using 1(1) pos be_bytes_nonempty [OF pos] by simp
  qed
qed

text \<open>The DER content is minimal: no sign bit, and a leading zero byte only before a sign bit.\<close>

lemma der_integer_minimal:
  assumes "0 < v"
  shows "\<not> hd (der_integer v) \<ge> 0x80"
    and "hd (der_integer v) = 0 \<Longrightarrow> der_integer v ! 1 \<ge> 0x80"
proof -
  note ne = be_bytes_nonempty [OF assms] and hd = be_bytes_hd [OF assms]
  show "\<not> hd (der_integer v) \<ge> 0x80"
    by (simp add: der_integer_def Let_def ne)
  show "der_integer v ! 1 \<ge> 0x80" if "hd (der_integer v) = 0"
    using that ne hd by (cases "hd (be_bytes v) \<ge> 0x80") (simp_all add: der_integer_def Let_def hd_conv_nth)
qed

text \<open>The string the encoder puts after \<^verbatim>\<open>02\<close> and the length for the integer \<open>s\<close>.\<close>

lemma der_s_hex:
  assumes s: "0 < s" "s < secp256k1_n"
  defines "sHex \<equiv> (if s > secp256k1_n div 2
                    then padStart 64 CHR ''0'' (toUpperCase (js_toString16 (int secp256k1_n - int s)))
                    else padStart 64 CHR ''0'' (toString16 s))"
  shows "fromHex (der_strip sHex) = der_integer (low_s s)" "all_hex (der_strip sHex)"
    "even (length (der_strip sHex))" "length (der_strip sHex) = 2 * length (der_integer (low_s s))"
proof -
  note b = low_s_bounds [OF s]
  have lt: "low_s s < 16 ^ 64" using b(2) secp256k1_n_bound by simp
  let ?D = "der_strip (padStart 64 CHR ''0'' (toString16 (low_s s)))"
  note D = der_strip_pad_bytes [OF b(1) lt]
  have "der_strip sHex = (if s > secp256k1_n div 2 then toUpperCase ?D else ?D)"
  proof (cases "s > secp256k1_n div 2")
    case True
    have "js_toString16 (int secp256k1_n - int s) = toString16 (low_s s)"
      using True s by (simp add: js_toString16_def low_s_def nat_diff_distrib)
    then have "sHex = toUpperCase (padStart 64 CHR ''0'' (toString16 (low_s s)))"
      using True by (simp add: sHex_def toUpperCase_padStart)
    then show ?thesis using True by (simp add: der_strip_upper)
  next
    case False
    then show ?thesis by (simp add: sHex_def low_s_def)
  qed
  then have c: "der_strip sHex = toUpperCase ?D \<or> der_strip sHex = ?D" by presburger
  show "fromHex (der_strip sHex) = der_integer (low_s s)"
    using c D(1,2) by (auto simp: fromHex_upper)
  show "all_hex (der_strip sHex)"
    using c D(2) by (auto simp: all_hex_upper lower_hex_all_hex)
  show "even (length (der_strip sHex))"
    using c D(3) by auto
  show "length (der_strip sHex) = 2 * length (der_integer (low_s s))"
    using c D(4) by auto
qed

text \<open>
  The encoder on a pair \<open>(r, s)\<close> an ECDSA signature can have (\<open>0 < r, s < n\<close>), passed as the
  signer passes it (64 digits each): it returns the DER signature of \<open>(r, s)\<close> in low-S form.
  Minimal contents are the big-endian bytes without leading zero bytes, with one zero byte in
  front exactly when the first byte is \<open>0x80\<close> or more (\<open>der_integer_minimal\<close>).
\<close>

lemma encodeDERSignature_der:
  assumes r: "0 < r" "r < secp256k1_n" and s: "0 < s" "s < secp256k1_n"
  shows "\<exists>sig. encodeDERSignature (padStart 64 CHR ''0'' (toString16 r))
                                 (padStart 64 CHR ''0'' (toString16 s)) = Inr sig \<and>
               der_low_s r s sig"
proof -
  define rH where "rH = der_strip (padStart 64 CHR ''0'' (toString16 r))"
  define sH where "sH = der_strip (if s > secp256k1_n div 2
                    then padStart 64 CHR ''0'' (toUpperCase (js_toString16 (int secp256k1_n - int s)))
                    else padStart 64 CHR ''0'' (toString16 s))"
  define lr where "lr = length (der_integer r)"
  define ls where "ls = length (der_integer (low_s s))"
  have rlt: "r < 16 ^ 64" using r(2) secp256k1_n_bound by simp
  note R = der_strip_pad_bytes [OF r(1) rlt, folded rH_def lr_def]
  note S = der_s_hex [OF s, folded sH_def ls_def]
  note b = low_s_bounds [OF s]
  have slt: "low_s s < 16 ^ 64" using b(2) secp256k1_n_bound by simp
  have lsb: "ls \<le> 33"
    unfolding ls_def by (rule der_strip_pad_bytes(5) [OF b(1) slt])
  have lrb: "lr \<le> 33" by (rule R(5))
  define rLen where "rLen = padStart 2 CHR ''0'' (toString16 lr)"
  define sLen where "sLen = padStart 2 CHR ''0'' (toString16 ls)"
  define cLen where "cLen = padStart 2 CHR ''0'' (toString16 (4 + (lr + ls)))"
  have lens: "length rLen = 2" "length sLen = 2" "length cLen = 2"
    using lrb lsb by (simp_all add: rLen_def sLen_def cLen_def length_pad_hex)
  have hexs: "all_hex rLen" "all_hex sLen" "all_hex cLen" "all_hex rH"
    using R(2) by (simp_all add: rLen_def sLen_def cLen_def lower_hex_all_hex)
  have bytes: "fromHex rLen = [of_nat lr]" "fromHex sLen = [of_nat ls]" "fromHex cLen = [of_nat (4 + (lr + ls))]"
    using lrb lsb by (simp_all add: rLen_def sLen_def cLen_def fromHex_pad2)
  define sig where "sig = ''30'' @ cLen @ ''02'' @ rLen @ rH @ ''02'' @ sLen @ sH"
  have four: "\<And>n. Suc (Suc (Suc (Suc n))) = 4 + n" by simp
  have enc: "encodeDERSignature (padStart 64 CHR ''0'' (toString16 r))
                                (padStart 64 CHR ''0'' (toString16 s)) = Inr sig"
    unfolding encodeDERSignature_def
    using lens(1,2) [unfolded rLen_def sLen_def lr_def ls_def]
    by (simp add: bigint_pad bigint_curveOrder Let_def rH_def [symmetric] sH_def [symmetric]
        R(4) S(4) sig_def cLen_def rLen_def sLen_def lr_def ls_def four add.assoc)
  have h2: "\<And>t. fromHex (CHR ''0'' # CHR ''2'' # t) = 0x02 # fromHex t"
    "\<And>t. fromHex (CHR ''3'' # CHR ''0'' # t) = 0x30 # fromHex t"
    by (simp_all add: hexval_def)
  have fh: "fromHex sig = [0x30, of_nat (4 + lr + ls), 0x02, of_nat lr] @ der_integer r @
             [0x02, of_nat ls] @ der_integer (low_s s)"
    unfolding sig_def
    using lens hexs R(3) S(2,3)
    by (simp add: fromHex_append h2 bytes R(1) S(1) add.assoc del: fromHex.simps)
  have len: "length sig = 2 * length (fromHex sig)"
    unfolding fh by (simp add: sig_def lens R(4) S(4) lr_def ls_def)
  show ?thesis
    using enc len fh b(3) der_integer_value [of r] der_integer_value [of "low_s s"]
    unfolding der_low_s_def lr_def ls_def by blast
qed

lemma pad64_r: "padStart 64 CHR ''0'' (toString16 (2 ^ 255))
   = ''8000000000000000000000000000000000000000000000000000000000000000''"
  by (simp add: hex_eval)

lemma der_strip_r: "der_strip ''8000000000000000000000000000000000000000000000000000000000000000''
   = ''008000000000000000000000000000000000000000000000000000000000000000''"
  by (simp add: der_strip_def parseInt16_def is_js_space_def hexval_def num_greater_def
      length_Cons_plus del: list.size(4))

lemma upper_char_eval:
  "upper_char CHR ''a'' = CHR ''A''" "upper_char CHR ''b'' = CHR ''B''" "upper_char CHR ''c'' = CHR ''C''"
  "upper_char CHR ''d'' = CHR ''D''" "upper_char CHR ''e'' = CHR ''E''" "upper_char CHR ''f'' = CHR ''F''"
  "upper_char CHR ''1'' = CHR ''1''" "upper_char CHR ''2'' = CHR ''2''" "upper_char CHR ''3'' = CHR ''3''"
  "upper_char CHR ''4'' = CHR ''4''" "upper_char CHR ''5'' = CHR ''5''" "upper_char CHR ''6'' = CHR ''6''"
  "upper_char CHR ''7'' = CHR ''7''" "upper_char CHR ''8'' = CHR ''8''" "upper_char CHR ''9'' = CHR ''9''"
  by (simp_all add: upper_char_def char_of_def bit_0)

lemma upper_low_s: "padStart 64 CHR ''0'' (toUpperCase (js_toString16 (int secp256k1_n - 2 ^ 255)))
   = ''7FFFFFFFFFFFFFFFFFFFFFFFFFFFFFFEBAAEDCE6AF48A03BBFD25E8CD0364141''"
  by (simp add: js_toString16_def secp256k1_n_def hex_eval upper_char_eval)

lemma der_strip_s: "der_strip ''7FFFFFFFFFFFFFFFFFFFFFFFFFFFFFFEBAAEDCE6AF48A03BBFD25E8CD0364141''
   = ''7FFFFFFFFFFFFFFFFFFFFFFFFFFFFFFEBAAEDCE6AF48A03BBFD25E8CD0364141''"
  by (simp add: der_strip_def parseInt16_def is_js_space_def hexval_def num_greater_def
      length_Cons_plus del: list.size(4))

lemma bigint_r: "bigint_of_hex ''8000000000000000000000000000000000000000000000000000000000000000''
    = Inr (2 ^ 255)"
  by (simp add: bigint_of_hex_def hexval_def)

lemma upper_low_s': "padStart 64 CHR ''0'' (toUpperCase (js_toString16 (int secp256k1_n - int (2 ^ 255))))
   = ''7FFFFFFFFFFFFFFFFFFFFFFFFFFFFFFEBAAEDCE6AF48A03BBFD25E8CD0364141''"
  using upper_low_s by simp

lemma encodeDERSignature_literal:
  "encodeDERSignature ''8000000000000000000000000000000000000000000000000000000000000000''
                      ''8000000000000000000000000000000000000000000000000000000000000000''
   = Inr (''3045'' @ ''0221'' @ ''008000000000000000000000000000000000000000000000000000000000000000'' @
          ''0220'' @ ''7FFFFFFFFFFFFFFFFFFFFFFFFFFFFFFEBAAEDCE6AF48A03BBFD25E8CD0364141'')"
proof -
  have gt: "secp256k1_n div 2 < 2 ^ 255" by (simp add: secp256k1_n_def)
  have l1: "length ''008000000000000000000000000000000000000000000000000000000000000000'' = 66"
    by (simp add: length_Cons_plus del: list.size(4))
  have l2: "length ''7FFFFFFFFFFFFFFFFFFFFFFFFFFFFFFEBAAEDCE6AF48A03BBFD25E8CD0364141'' = 64"
    by (simp add: length_Cons_plus del: list.size(4))
  have p: "padStart 2 CHR ''0'' (toString16 33) = ''21''" "padStart 2 CHR ''0'' (toString16 32) = ''20''"
    "padStart 2 CHR ''0'' (toString16 69) = ''45''"
    by (simp_all add: hex_eval)
  have l3: "length ''21'' = 2" "length ''20'' = 2" by simp_all
  show ?thesis
    unfolding encodeDERSignature_def bigint_r bigint_curveOrder sum.case Let_def
    by (simp only: gt if_True upper_low_s' der_strip_r der_strip_s l1 l2 l3 p)
      (simp add: p)
qed

section \<open>Importing a private key\<close>

lemma length_keys: "length z_key = 64" "length ff_key = 64" "length demo_key = 64" "length zero_key = 64"
  by (simp_all add: z_key_def ff_key_def demo_key_def zero_key_def length_Cons_plus del: list.size(4))






section \<open>Signing\<close>

text \<open>An input without a locking script makes the main path throw.\<close>

lemma sign_input_missing:
  "(if i < length utxos then truthy_script (utxos ! i) else None) = None \<Longrightarrow>
   sign_input lib transactionHex privateKey ins utxos pub i
     = Inl (JsError (''Missing UTXO scriptPubKey for input '' @ toString10 i))"
  by (simp add: sign_input_def)

lemma sign_inputs_fails:
  assumes "i \<in> set idxs" and "\<exists>e. sign_input lib transactionHex privateKey ins utxos pub i = Inl e"
  shows "\<exists>e. sign_inputs lib transactionHex privateKey ins utxos pub idxs = Inl e"
  using assms by (induction idxs) (auto split: sum.splits)

lemma signTransaction_main_missing:
  assumes "i < length ins" "(if i < length utxos then truthy_script (utxos ! i) else None) = None"
  shows "\<exists>e. signTransaction_main lib transactionHex privateKey ins utxos = Inl e"
proof (cases "derivePublicKey lib privateKey")
  case (Inl e)
  then show ?thesis by (simp add: signTransaction_main_def)
next
  case (Inr secp)
  have "i \<in> set [0..<length ins]" using assms(1) by simp
  from sign_inputs_fails [OF this] sign_input_missing [OF assms(2)]
  obtain e where "sign_inputs lib transactionHex privateKey ins utxos
                    (detect_pubkey lib privateKey utxos secp) [0..<length ins] = Inl e"
    by blast
  then show ?thesis using Inr by (simp add: signTransaction_main_def Let_def)
qed

text \<open>When the steps of the signer return, and what.\<close>

lemma make_scriptSig_Inr:
  "make_scriptSig lib privateKey digest pub = Inr script \<longleftrightarrow>
     (\<exists>r s der. ec_sign lib privateKey digest = Some (r, s) \<and>
        encodeDERSignature (padStart 64 CHR ''0'' (toString16 r))
                           (padStart 64 CHR ''0'' (toString16 s)) = Inr der \<and>
        script = encodeVarInt_half (length (der @ ''01'')) @ der @ ''01'' @
                 encodeVarInt_half (length pub) @ pub)"
  by (auto simp: make_scriptSig_def Let_def split: option.splits sum.splits)

lemma sign_input_Inr:
  "sign_input lib transactionHex privateKey ins utxos pub i = Inr script \<longleftrightarrow>
     (\<exists>scriptPubKey. i < length utxos \<and> truthy_script (utxos ! i) = Some scriptPubKey \<and>
        make_scriptSig lib privateKey (sighash_digest lib transactionHex ins i scriptPubKey) pub
          = Inr script)"
  by (auto simp: sign_input_def sighash_digest_def Let_def split: option.splits if_splits)

lemma sign_inputs_Inr:
  "sign_inputs lib transactionHex privateKey ins utxos pub idxs = Inr scriptSigs \<longleftrightarrow>
     length scriptSigs = length idxs \<and>
     (\<forall>k < length idxs.
        sign_input lib transactionHex privateKey ins utxos pub (idxs ! k) = Inr (scriptSigs ! k))"
proof (induction idxs arbitrary: scriptSigs)
  case Nil
  then show ?case by auto
next
  case (Cons i idxs)
  show ?case
  proof (cases scriptSigs)
    case Nil
    then show ?thesis by (auto split: sum.splits)
  next
    case (Cons a as)
    have "sign_inputs lib transactionHex privateKey ins utxos pub (i # idxs) = Inr (a # as) \<longleftrightarrow>
          sign_input lib transactionHex privateKey ins utxos pub i = Inr a \<and>
          sign_inputs lib transactionHex privateKey ins utxos pub idxs = Inr as"
      by (auto split: sum.splits)
    also have "\<dots> \<longleftrightarrow> sign_input lib transactionHex privateKey ins utxos pub i = Inr a \<and>
          length as = length idxs \<and>
          (\<forall>k < length idxs.
             sign_input lib transactionHex privateKey ins utxos pub (idxs ! k) = Inr (as ! k))"
      by (simp add: Cons.IH)
    also have "\<dots> \<longleftrightarrow> length (a # as) = length (i # idxs) \<and>
          (\<forall>k < length (i # idxs).
             sign_input lib transactionHex privateKey ins utxos pub ((i # idxs) ! k) = Inr ((a # as) ! k))"
      by (auto simp: less_Suc_eq_0_disj)
    finally show ?thesis by (simp only: Cons)
  qed
qed

lemma signTransaction_main_Inr:
  "signTransaction_main lib transactionHex privateKey ins utxos = Inr signedHex \<longleftrightarrow>
     (\<exists>secp scriptSigs. derivePublicKey lib privateKey = Inr secp \<and>
        length scriptSigs = length ins \<and>
        (\<forall>i < length ins.
           sign_input lib transactionHex privateKey ins utxos
             (detect_pubkey lib privateKey utxos secp) i = Inr (scriptSigs ! i)) \<and>
        signedHex = ''01000000'' @ encodeVarInt (length ins) @ signed_inputs ins scriptSigs @
                    js_slice_from transactionHex (findOutputsPositionInHex transactionHex (length ins)))"
proof -
  have "signTransaction_main lib transactionHex privateKey ins utxos = Inr signedHex \<longleftrightarrow>
     (\<exists>secp scriptSigs. derivePublicKey lib privateKey = Inr secp \<and>
        sign_inputs lib transactionHex privateKey ins utxos
             (detect_pubkey lib privateKey utxos secp) [0..<length ins] = Inr scriptSigs \<and>
        signedHex = ''01000000'' @ encodeVarInt (length ins) @ signed_inputs ins scriptSigs @
                    js_slice_from transactionHex (findOutputsPositionInHex transactionHex (length ins)))"
    by (auto simp: signTransaction_main_def Let_def split: sum.splits)
  then show ?thesis by (simp add: sign_inputs_Inr)
qed

lemma signTransaction_main_ok:
  "signTransaction_main lib transactionHex privateKey ins utxos = Inr signedHex \<Longrightarrow>
   signTransaction lib transactionHex privateKey ins utxos = Inr signedHex"
  by (simp add: signTransaction_def)

lemma signTransaction_fallback_Inr:
  "signTransaction_fallback lib transactionHex privateKey = Inr spliced \<longleftrightarrow>
     (\<exists>pubKeyUncompressed script. ec_public_hex lib privateKey = Some pubKeyUncompressed \<and>
        make_scriptSig lib privateKey (doubleSha256 lib (fromHex transactionHex))
          (fallback_key pubKeyUncompressed) = Inr script \<and>
        spliced = take 82 transactionHex @ encodeVarInt_half (length script) @ script @
                  drop 84 transactionHex)"
proof -
  have pos: "(82::nat) + 2 = 84" by simp
  have "signTransaction_fallback lib transactionHex privateKey =
     (case ec_public_hex lib privateKey of
        None \<Rightarrow> Inl (JsError ''getPublic'')
      | Some pubKeyUncompressed \<Rightarrow>
          (case make_scriptSig lib privateKey (doubleSha256 lib (fromHex transactionHex))
                  (fallback_key pubKeyUncompressed) of
             Inl e \<Rightarrow> Inl e
           | Inr script \<Rightarrow>
               Inr (take 82 transactionHex @ encodeVarInt_half (length script) @ script @
                    drop 84 transactionHex)))"
    unfolding signTransaction_fallback_def fallback_key_def Let_def pos by (rule refl)
  then show ?thesis by (auto split: option.splits sum.splits)
qed

text \<open>What a script of the signer looks like, when the library returns valid signatures.\<close>

lemma make_scriptSig_der:
  assumes ecdsa: "\<forall>d r s. ec_sign lib privateKey d = Some (r, s) \<longrightarrow>
                    0 < r \<and> r < secp256k1_n \<and> 0 < s \<and> s < secp256k1_n"
    and "make_scriptSig lib privateKey digest pub = Inr script"
  shows "\<exists>r s sig. ec_sign lib privateKey digest = Some (r, s) \<and>
           encodeDERSignature (padStart 64 CHR ''0'' (toString16 r))
                              (padStart 64 CHR ''0'' (toString16 s)) = Inr sig \<and>
           der_low_s r s sig \<and>
           script = encodeVarInt_half (length (sig @ ''01'')) @ sig @ ''01'' @
                    encodeVarInt_half (length pub) @ pub"
proof -
  from assms(2) obtain r s der where
    sg: "ec_sign lib privateKey digest = Some (r, s)"
    and enc: "encodeDERSignature (padStart 64 CHR ''0'' (toString16 r))
                                 (padStart 64 CHR ''0'' (toString16 s)) = Inr der"
    and sc: "script = encodeVarInt_half (length (der @ ''01'')) @ der @ ''01'' @
                      encodeVarInt_half (length pub) @ pub"
    unfolding make_scriptSig_Inr by blast
  from ecdsa sg have v: "0 < r" "r < secp256k1_n" "0 < s" "s < secp256k1_n" by blast+
  from encodeDERSignature_der [OF v] enc have "der_low_s r s der" by auto
  with sg enc sc show ?thesis by blast
qed

text \<open>
  C8. For every pair \<open>(r, s)\<close> the ECDSA signing inside \<^verbatim>\<open>signTransaction\<close> produces (the library
  returns \<open>0 < r, s < n\<close>), the signature emitted is the DER signature of \<open>(r, s)\<close> in low-S form:
  \<open>s\<close> is replaced by \<open>n - s\<close> when \<open>s > n div 2\<close>, so that the encoded value is at most \<open>n div 2\<close>,
  and both integers are minimally encoded. This holds at both places where the function
  signs. On the main path the script of every input \<open>i\<close> is the push of that signature of the
  digest of input \<open>i\<close>, followed by the hash type \<^verbatim>\<open>01\<close>, and the push of a key. When the main
  path throws, the result is the given hex, or the given hex with the push of such a
  signature of the hash of the whole hex spliced in.
\<close>

theorem signTransaction_der_low_s:
  assumes ecdsa: "\<forall>d r s. ec_sign lib privateKey d = Some (r, s) \<longrightarrow>
                    0 < r \<and> r < secp256k1_n \<and> 0 < s \<and> s < secp256k1_n"
  shows "(\<forall>signedHex. signTransaction_main lib transactionHex privateKey ins utxos = Inr signedHex \<longrightarrow>
            signTransaction lib transactionHex privateKey ins utxos = Inr signedHex \<and>
            (\<exists>scriptSigs. length scriptSigs = length ins \<and>
               signedHex = ''01000000'' @ encodeVarInt (length ins) @ signed_inputs ins scriptSigs @
                 js_slice_from transactionHex (findOutputsPositionInHex transactionHex (length ins)) \<and>
               (\<forall>i < length ins. \<exists>scriptPubKey r s sig pub.
                  i < length utxos \<and> truthy_script (utxos ! i) = Some scriptPubKey \<and>
                  ec_sign lib privateKey (sighash_digest lib transactionHex ins i scriptPubKey) = Some (r, s) \<and>
                  encodeDERSignature (padStart 64 CHR ''0'' (toString16 r))
                                     (padStart 64 CHR ''0'' (toString16 s)) = Inr sig \<and>
                  der_low_s r s sig \<and>
                  scriptSigs ! i = encodeVarInt_half (length (sig @ ''01'')) @ sig @ ''01'' @
                                   encodeVarInt_half (length pub) @ pub))) \<and>
         (\<forall>e. signTransaction_main lib transactionHex privateKey ins utxos = Inl e \<longrightarrow>
            signTransaction lib transactionHex privateKey ins utxos = Inr transactionHex \<or>
            (\<exists>r s sig pub script.
               ec_sign lib privateKey (doubleSha256 lib (fromHex transactionHex)) = Some (r, s) \<and>
               encodeDERSignature (padStart 64 CHR ''0'' (toString16 r))
                                  (padStart 64 CHR ''0'' (toString16 s)) = Inr sig \<and>
               der_low_s r s sig \<and>
               script = encodeVarInt_half (length (sig @ ''01'')) @ sig @ ''01'' @
                        encodeVarInt_half (length pub) @ pub \<and>
               signTransaction lib transactionHex privateKey ins utxos =
                 Inr (take 82 transactionHex @ encodeVarInt_half (length script) @ script @
                      drop 84 transactionHex)))"
proof (intro conjI allI impI)
  fix signedHex
  assume m: "signTransaction_main lib transactionHex privateKey ins utxos = Inr signedHex"
  show "signTransaction lib transactionHex privateKey ins utxos = Inr signedHex"
    using m by (rule signTransaction_main_ok)
  from m obtain secp scriptSigs where
    len: "length scriptSigs = length ins"
    and si: "\<forall>i < length ins. sign_input lib transactionHex privateKey ins utxos
               (detect_pubkey lib privateKey utxos secp) i = Inr (scriptSigs ! i)"
    and sh: "signedHex = ''01000000'' @ encodeVarInt (length ins) @ signed_inputs ins scriptSigs @
               js_slice_from transactionHex (findOutputsPositionInHex transactionHex (length ins))"
    unfolding signTransaction_main_Inr by blast
  have "\<exists>scriptPubKey r s sig pub.
          i < length utxos \<and> truthy_script (utxos ! i) = Some scriptPubKey \<and>
          ec_sign lib privateKey (sighash_digest lib transactionHex ins i scriptPubKey) = Some (r, s) \<and>
          encodeDERSignature (padStart 64 CHR ''0'' (toString16 r))
                             (padStart 64 CHR ''0'' (toString16 s)) = Inr sig \<and>
          der_low_s r s sig \<and>
          scriptSigs ! i = encodeVarInt_half (length (sig @ ''01'')) @ sig @ ''01'' @
                           encodeVarInt_half (length pub) @ pub"
    if i: "i < length ins" for i
  proof -
    from si i obtain scriptPubKey where
      u: "i < length utxos" "truthy_script (utxos ! i) = Some scriptPubKey"
      and ms: "make_scriptSig lib privateKey (sighash_digest lib transactionHex ins i scriptPubKey)
                 (detect_pubkey lib privateKey utxos secp) = Inr (scriptSigs ! i)"
      unfolding sign_input_Inr by blast
    from make_scriptSig_der [OF ecdsa ms] u show ?thesis by blast
  qed
  with len sh show "\<exists>scriptSigs. length scriptSigs = length ins \<and>
               signedHex = ''01000000'' @ encodeVarInt (length ins) @ signed_inputs ins scriptSigs @
                 js_slice_from transactionHex (findOutputsPositionInHex transactionHex (length ins)) \<and>
               (\<forall>i < length ins. \<exists>scriptPubKey r s sig pub.
                  i < length utxos \<and> truthy_script (utxos ! i) = Some scriptPubKey \<and>
                  ec_sign lib privateKey (sighash_digest lib transactionHex ins i scriptPubKey) = Some (r, s) \<and>
                  encodeDERSignature (padStart 64 CHR ''0'' (toString16 r))
                                     (padStart 64 CHR ''0'' (toString16 s)) = Inr sig \<and>
                  der_low_s r s sig \<and>
                  scriptSigs ! i = encodeVarInt_half (length (sig @ ''01'')) @ sig @ ''01'' @
                                   encodeVarInt_half (length pub) @ pub)"
    by blast
next
  fix e
  assume m: "signTransaction_main lib transactionHex privateKey ins utxos = Inl e"
  show "signTransaction lib transactionHex privateKey ins utxos = Inr transactionHex \<or>
            (\<exists>r s sig pub script.
               ec_sign lib privateKey (doubleSha256 lib (fromHex transactionHex)) = Some (r, s) \<and>
               encodeDERSignature (padStart 64 CHR ''0'' (toString16 r))
                                  (padStart 64 CHR ''0'' (toString16 s)) = Inr sig \<and>
               der_low_s r s sig \<and>
               script = encodeVarInt_half (length (sig @ ''01'')) @ sig @ ''01'' @
                        encodeVarInt_half (length pub) @ pub \<and>
               signTransaction lib transactionHex privateKey ins utxos =
                 Inr (take 82 transactionHex @ encodeVarInt_half (length script) @ script @
                      drop 84 transactionHex))"
  proof (cases "signTransaction_fallback lib transactionHex privateKey")
    case (Inl e2)
    then show ?thesis using m by (simp add: signTransaction_def)
  next
    case (Inr spliced)
    then obtain pubKeyUncompressed script where
      ms: "make_scriptSig lib privateKey (doubleSha256 lib (fromHex transactionHex))
             (fallback_key pubKeyUncompressed) = Inr script"
      and sp: "spliced = take 82 transactionHex @ encodeVarInt_half (length script) @ script @
                         drop 84 transactionHex"
      unfolding signTransaction_fallback_Inr by blast
    have "signTransaction lib transactionHex privateKey ins utxos = Inr spliced"
      using m Inr by (simp add: signTransaction_def)
    with make_scriptSig_der [OF ecdsa ms] sp show ?thesis by blast
  qed
qed

text \<open>The unsigned hex around the script slot of its first input.\<close>

lemma inputs_hex_no_scripts:
  "inputs_hex [] j xs = concat (map (\<lambda>x. outpoint_hex x @ ''00'' @ sequence_hex x) xs)"
  by (induction xs arbitrary: j) (simp_all add: script_at_def)

lemma length_encodeVarInt_small: "n < 253 \<Longrightarrow> length (encodeVarInt n) = 2"
  by (simp add: encodeVarInt_def length_pad_hex)

lemma unsigned_hex_around_first_script:
  assumes hex: "createTransactionHex lib ins outs [] = Inr transactionHex"
    and ne: "ins \<noteq> []" and n: "length ins < 253" and wf: "\<forall>x \<in> set ins. wf_input x"
  shows "\<exists>outs_hex. outputs_hex lib outs = Inr outs_hex \<and>
           take 82 transactionHex = ''01000000'' @ encodeVarInt (length ins) @ outpoint_hex (hd ins) \<and>
           drop 84 transactionHex =
             sequence_hex (hd ins) @
             concat (map (\<lambda>x. outpoint_hex x @ ''00'' @ sequence_hex x) (tl ins)) @
             encodeVarInt (length outs) @ outs_hex @ ''00000000''"
proof -
  obtain outs_hex where oh: "outputs_hex lib outs = Inr outs_hex"
    and th: "transactionHex = ''01000000'' @ encodeVarInt (length ins) @ inputs_hex [] 0 ins @
             encodeVarInt (length outs) @ outs_hex @ ''00000000''"
    using hex by (auto simp: createTransactionHex_def split: sum.splits)
  obtain x xs where ins: "ins = x # xs" using ne by (cases ins) auto
  define P where "P = ''01000000'' @ encodeVarInt (length ins) @ outpoint_hex x"
  define Q where "Q = sequence_hex x @
             concat (map (\<lambda>x. outpoint_hex x @ ''00'' @ sequence_hex x) xs) @
             encodeVarInt (length outs) @ outs_hex @ ''00000000''"
  have lP: "length P = 82"
    using wf n by (simp add: P_def ins length_outpoint_hex length_encodeVarInt_small)
  have th': "transactionHex = P @ ''00'' @ Q"
    unfolding th P_def Q_def by (simp add: ins inputs_hex_no_scripts script_at_def)
  have "take 82 transactionHex = P" unfolding th' using lP by simp
  moreover have "drop 84 transactionHex = Q"
  proof -
    have "length (P @ ''00'') = 84" using lP by simp
    then have "drop 84 ((P @ ''00'') @ Q) = Q" by (metis append_eq_conv_conj)
    then show ?thesis unfolding th' by simp
  qed
  ultimately show ?thesis using oh by (simp add: P_def Q_def ins)
qed

text \<open>
  C1, amended. \<^verbatim>\<open>signTransaction\<close> never throws. When the main path throws, as it does whenever
  an input has no locking script among the UTXOs, the error is caught and the fallback runs:
  it signs the double SHA-256 of the whole hex once and returns the hex with characters 82
  and 83 replaced by one script, the pushes of that signature and of the fallback key; when
  the library fails on the key or the signature, or the encoder throws, the given hex is
  returned unchanged. For an unsigned hex of 1 to 252 well-formed inputs, as
  \<^verbatim>\<open>createTransactionHex\<close> writes it without scripts, characters 82 and 83 are the empty script of
  the first input: the result carries a script in the first input and the empty script \<^verbatim>\<open>00\<close> in
  every other input.
\<close>

theorem signTransaction_swallows_errors:
  "(\<exists>h. signTransaction lib transactionHex privateKey ins utxos = Inr h) \<and>
   ((\<exists>i < length ins. (if i < length utxos then truthy_script (utxos ! i) else None) = None) \<longrightarrow>
      (\<exists>e. signTransaction_main lib transactionHex privateKey ins utxos = Inl e)) \<and>
   (\<forall>e. signTransaction_main lib transactionHex privateKey ins utxos = Inl e \<longrightarrow>
      (\<forall>pubKeyUncompressed r s der.
         ec_public_hex lib privateKey = Some pubKeyUncompressed \<and>
         ec_sign lib privateKey (doubleSha256 lib (fromHex transactionHex)) = Some (r, s) \<and>
         encodeDERSignature (padStart 64 CHR ''0'' (toString16 r))
                            (padStart 64 CHR ''0'' (toString16 s)) = Inr der \<longrightarrow>
         (let scriptSig = encodeVarInt_half (length (der @ ''01'')) @ der @ ''01'' @
                          encodeVarInt_half (length (fallback_key pubKeyUncompressed)) @
                          fallback_key pubKeyUncompressed
          in signTransaction lib transactionHex privateKey ins utxos =
               Inr (take 82 transactionHex @ encodeVarInt_half (length scriptSig) @ scriptSig @
                    drop 84 transactionHex))) \<and>
      (ec_public_hex lib privateKey = None \<or>
       ec_sign lib privateKey (doubleSha256 lib (fromHex transactionHex)) = None \<or>
       (\<exists>r s e2. ec_sign lib privateKey (doubleSha256 lib (fromHex transactionHex)) = Some (r, s) \<and>
          encodeDERSignature (padStart 64 CHR ''0'' (toString16 r))
                             (padStart 64 CHR ''0'' (toString16 s)) = Inl e2) \<longrightarrow>
       signTransaction lib transactionHex privateKey ins utxos = Inr transactionHex)) \<and>
   (\<forall>outs. createTransactionHex lib ins outs [] = Inr transactionHex \<and>
      ins \<noteq> [] \<and> length ins < 253 \<and> (\<forall>x \<in> set ins. wf_input x) \<longrightarrow>
      (\<exists>outs_hex. outputs_hex lib outs = Inr outs_hex \<and>
         take 82 transactionHex = ''01000000'' @ encodeVarInt (length ins) @ outpoint_hex (hd ins) \<and>
         drop 84 transactionHex =
           sequence_hex (hd ins) @
           concat (map (\<lambda>x. outpoint_hex x @ ''00'' @ sequence_hex x) (tl ins)) @
           encodeVarInt (length outs) @ outs_hex @ ''00000000''))"
proof -
  have 1: "\<exists>h. signTransaction lib transactionHex privateKey ins utxos = Inr h"
    by (auto simp: signTransaction_def split: sum.splits)
  have 2: "(\<exists>i < length ins. (if i < length utxos then truthy_script (utxos ! i) else None) = None) \<longrightarrow>
      (\<exists>e. signTransaction_main lib transactionHex privateKey ins utxos = Inl e)"
    using signTransaction_main_missing by blast
  have 3: "(let scriptSig = encodeVarInt_half (length (der @ ''01'')) @ der @ ''01'' @
                          encodeVarInt_half (length (fallback_key pubKeyUncompressed)) @
                          fallback_key pubKeyUncompressed
          in signTransaction lib transactionHex privateKey ins utxos =
               Inr (take 82 transactionHex @ encodeVarInt_half (length scriptSig) @ scriptSig @
                    drop 84 transactionHex))"
    if m: "signTransaction_main lib transactionHex privateKey ins utxos = Inl e"
      and p: "ec_public_hex lib privateKey = Some pubKeyUncompressed"
      and sg: "ec_sign lib privateKey (doubleSha256 lib (fromHex transactionHex)) = Some (r, s)"
      and enc: "encodeDERSignature (padStart 64 CHR ''0'' (toString16 r))
                            (padStart 64 CHR ''0'' (toString16 s)) = Inr der"
    for e pubKeyUncompressed r s der
  proof -
    define scriptSig where "scriptSig = encodeVarInt_half (length (der @ ''01'')) @ der @ ''01'' @
                          encodeVarInt_half (length (fallback_key pubKeyUncompressed)) @
                          fallback_key pubKeyUncompressed"
    have "make_scriptSig lib privateKey (doubleSha256 lib (fromHex transactionHex))
            (fallback_key pubKeyUncompressed) = Inr scriptSig"
      unfolding make_scriptSig_Inr scriptSig_def using sg enc by blast
    with p have "signTransaction_fallback lib transactionHex privateKey =
        Inr (take 82 transactionHex @ encodeVarInt_half (length scriptSig) @ scriptSig @
             drop 84 transactionHex)"
      unfolding signTransaction_fallback_Inr by blast
    then have "signTransaction lib transactionHex privateKey ins utxos =
               Inr (take 82 transactionHex @ encodeVarInt_half (length scriptSig) @ scriptSig @
                    drop 84 transactionHex)"
      using m by (simp add: signTransaction_def)
    then show ?thesis unfolding Let_def scriptSig_def .
  qed
  have 4: "signTransaction lib transactionHex privateKey ins utxos = Inr transactionHex"
    if m: "signTransaction_main lib transactionHex privateKey ins utxos = Inl e"
      and f: "ec_public_hex lib privateKey = None \<or>
       ec_sign lib privateKey (doubleSha256 lib (fromHex transactionHex)) = None \<or>
       (\<exists>r s e2. ec_sign lib privateKey (doubleSha256 lib (fromHex transactionHex)) = Some (r, s) \<and>
          encodeDERSignature (padStart 64 CHR ''0'' (toString16 r))
                             (padStart 64 CHR ''0'' (toString16 s)) = Inl e2)"
    for e
  proof -
    have "\<not> (\<exists>spliced. signTransaction_fallback lib transactionHex privateKey = Inr spliced)"
      unfolding signTransaction_fallback_Inr make_scriptSig_Inr using f by auto
    then obtain e2 where "signTransaction_fallback lib transactionHex privateKey = Inl e2"
      by (cases "signTransaction_fallback lib transactionHex privateKey") auto
    then show ?thesis using m by (simp add: signTransaction_def)
  qed
  have 5: "\<exists>outs_hex. outputs_hex lib outs = Inr outs_hex \<and>
         take 82 transactionHex = ''01000000'' @ encodeVarInt (length ins) @ outpoint_hex (hd ins) \<and>
         drop 84 transactionHex =
           sequence_hex (hd ins) @
           concat (map (\<lambda>x. outpoint_hex x @ ''00'' @ sequence_hex x) (tl ins)) @
           encodeVarInt (length outs) @ outs_hex @ ''00000000''"
    if "createTransactionHex lib ins outs [] = Inr transactionHex \<and>
      ins \<noteq> [] \<and> length ins < 253 \<and> (\<forall>x \<in> set ins. wf_input x)" for outs
    using unsigned_hex_around_first_script [of lib ins outs transactionHex] that by blast
  from 1 2 3 4 5 show ?thesis by blast
qed




section \<open>Runs of the signer on concrete inputs\<close>

lemma pad64_small:
  "padStart 64 CHR ''0'' (toString16 1) = ''0000000000000000000000000000000000000000000000000000000000000001''"
  "padStart 64 CHR ''0'' (toString16 2) = ''0000000000000000000000000000000000000000000000000000000000000002''"
  by (simp_all add: hex_eval replicate_numeral)

lemma der_strip_small:
  "der_strip ''0000000000000000000000000000000000000000000000000000000000000001'' = ''01''"
  "der_strip ''0000000000000000000000000000000000000000000000000000000000000002'' = ''02''"
  by (simp_all add: der_strip_def parseInt16_def is_js_space_def hexval_def num_greater_def)

lemma encodeDERSignature_small:
  "encodeDERSignature (padStart 64 CHR ''0'' (toString16 1)) (padStart 64 CHR ''0'' (toString16 2))
     = Inr ''3006020101020102''"
proof -
  have p: "padStart 2 CHR ''0'' (toString16 1) = ''01''" "padStart 2 CHR ''0'' (toString16 6) = ''06''"
    by (simp_all add: hex_eval)
  have n: "\<not> secp256k1_n div 2 < 2" by (simp add: secp256k1_n_def)
  show ?thesis
    unfolding encodeDERSignature_def bigint_pad [of 64, simplified] bigint_curveOrder sum.case Let_def
    by (simp only: n if_False pad64_small der_strip_small)
      (simp add: hex_eval length_Cons_plus del: list.size(4))
qed

text \<open>With \<open>demo_lib\<close>, whose signature is always \<open>(1, 2)\<close>, every script has the same signature push.\<close>

lemma make_scriptSig_demo:
  "make_scriptSig demo_lib privateKey digest pub
     = Inr (''09'' @ ''3006020101020102'' @ ''01'' @ encodeVarInt_half (length pub) @ pub)"
proof -
  have s: "ec_sign demo_lib privateKey digest = Some (1, 2)" by (simp add: demo_lib_def)
  have v: "encodeVarInt_half (length (''3006020101020102'' @ ''01'')) = ''09''"
    by (simp add: encodeVarInt_half_def encodeVarInt_def hex_eval)
  show ?thesis
    unfolding make_scriptSig_def s option.case prod.case Let_def encodeDERSignature_small sum.case v
    by simp
qed

lemma encodeVarInt_half_66: "length pub = 66 \<Longrightarrow> encodeVarInt_half (length pub) = ''21''"
  by (simp add: encodeVarInt_half_def encodeVarInt_def hex_eval)

lemma encodeVarInt_half_88: "length s = 88 \<Longrightarrow> encodeVarInt_half (length s) = ''2c''"
  by (simp add: encodeVarInt_half_def encodeVarInt_def hex_eval)

lemma fallback_pubkey_demo:
  "(if (case parseInt16 (js_slice_from (''04'' @ demo_key @ demo_key) (Some (- 2))) of
          None \<Rightarrow> False | Some v \<Rightarrow> v mod 2 = 0) then ''02'' else ''03'') @
   take 64 (''04'' @ demo_key @ demo_key)
   = ''0304'' @ ''00000000000000000000000000000000000000000000000000000000000000''"
  by (simp add: demo_key_def js_slice_from_def rel_index_def parseInt16_def is_js_space_def hexval_def
      length_Cons_plus del: list.size(4))

lemma signTransaction_fallback_demo:
  "signTransaction_fallback demo_lib transactionHex demo_key
     = Inr (take 82 transactionHex @
            ''2c'' @ ''09'' @ ''3006020101020102'' @ ''01'' @ ''21'' @
            ''0304'' @ ''00000000000000000000000000000000000000000000000000000000000000'' @
            drop 84 transactionHex)"
proof -
  have p: "ec_public_hex demo_lib demo_key = Some (''04'' @ demo_key @ demo_key)"
    by (simp add: demo_lib_def)
  have l: "length (''0304'' @ ''00000000000000000000000000000000000000000000000000000000000000'') = 66"
    by (simp add: length_Cons_plus del: list.size(4))
  have l2: "length (''09'' @ ''3006020101020102'' @ ''01'' @ ''21'' @
            ''0304'' @ ''00000000000000000000000000000000000000000000000000000000000000'') = 88"
    by (simp add: length_Cons_plus del: list.size(4))
  show ?thesis
    unfolding signTransaction_fallback_def p option.case Let_def fallback_pubkey_demo
      make_scriptSig_demo sum.case encodeVarInt_half_66 [OF l]
    using encodeVarInt_half_88 [OF l2] by simp
qed

lemma toString10_0: "toString10 0 = ''0''"
  by (simp add: toString10.simps hexdigit_def hex_chars_def)

lemma signTransaction_main_demo_missing:
  "signTransaction_main demo_lib transactionHex demo_key [demo_input1, demo_input2] []
     = Inl (JsError ''Missing UTXO scriptPubKey for input 0'')"
proof -
  have u: "[0..<length [demo_input1, demo_input2]] = [0, 1]"
    by (simp add: upt_rec)
  show ?thesis
    by (simp add: signTransaction_main_def derivePublicKey_def demo_lib_def Let_def u
        sign_input_def toString10_0)
qed

lemma findOutputsPosition_of_parts:
  assumes ins: "\<forall>x \<in> set ins. wf_input x"
    and spks: "\<forall>s \<in> set scriptPubKeys. wf_script s"
    and count: "length ins < 2 ^ 64"
  shows "findOutputsPositionInHex
           (''01000000'' @ encodeVarInt (length ins) @ inputs_hex scriptPubKeys 0 ins @ Q) (length ins)
         = Some (int (length (''01000000'' @ encodeVarInt (length ins) @ inputs_hex scriptPubKeys 0 ins)))"
proof -
  define P where "P = ''01000000'' @ encodeVarInt (length ins)"
  define I where "I = inputs_hex scriptPubKeys 0 ins"
  define H where "H = ''01000000'' @ encodeVarInt (length ins) @ inputs_hex scriptPubKeys 0 ins @ Q"
  have H': "H = P @ I @ Q" by (simp add: H_def P_def I_def)
  have lP: "int (length P) = 8 + int (length (encodeVarInt (length ins)))" by (simp add: P_def)
  have c: "skip_input_count H (Some 8) = Some (int (length P))"
    unfolding lP H_def by (rule skip_input_count_varint [OF count])
  have "findOutputsPositionInHex H (length ins) = skip_inputs H (length ins) (Some (int (length P)))"
    by (simp add: findOutputsPositionInHex_def Let_def c)
  also have "\<dots> = Some (int (length P + length I))"
    unfolding H' I_def by (rule skip_inputs_inputs_hex [OF ins spks])
  finally show ?thesis by (simp add: H_def P_def I_def)
qed

lemma findOutputsPosition_demo1: "findOutputsPositionInHex demo_unsigned_hex1 1 = Some 92"
proof -
  have ins: "\<forall>x \<in> set [demo_input1]. wf_input x" by (simp add: wf_demo_inputs)
  have spks: "\<forall>s \<in> set ([] :: string list). wf_script s" by simp
  have count: "length [demo_input1] < 2 ^ 64" by simp
  have v: "encodeVarInt (length [demo_input1]) = ''01''"
    by (simp add: encodeVarInt_def hex_eval)
  have i: "inputs_hex [] 0 [demo_input1] =
     ''1f1e1d1c1b1a191817161514131211100f0e0d0c0b0a09080706050403020100'' @ ''00000000'' @ ''00'' @ ''ffffffff''"
    by (simp add: outpoint_hex_demo1 sequence_hex_demo1 script_at_Nil)
  have h: "demo_unsigned_hex1 = ''01000000'' @ encodeVarInt (length [demo_input1]) @
      inputs_hex [] 0 [demo_input1] @
      (''02'' @ ''80f0fa0200000000'' @ ''1976a914202020202020202020202020202020202020202088ac'' @
       ''d88efa0200000000'' @ ''1976a914202020202020202020202020202020202020202088ac'' @ ''00000000'')"
    unfolding v i by (simp add: demo_unsigned_hex1_def)
  have l: "length (''01000000'' @ encodeVarInt (length [demo_input1]) @ inputs_hex [] 0 [demo_input1]) = 92"
    unfolding v i by (simp add: length_Cons_plus del: list.size(4))
  have "findOutputsPositionInHex demo_unsigned_hex1 (length [demo_input1]) = Some 92"
    by (subst h, subst findOutputsPosition_of_parts [OF ins spks count]) (simp only: l, simp)
  then show ?thesis by simp
qed




lemma drop_demo1:
  "drop 92 demo_unsigned_hex1 =
     ''02'' @ ''80f0fa0200000000'' @ ''1976a914202020202020202020202020202020202020202088ac'' @
     ''d88efa0200000000'' @ ''1976a914202020202020202020202020202020202020202088ac'' @ ''00000000''"
  by (simp add: demo_unsigned_hex1_def)













lemma take_drop_demo:
  "take 82 demo_unsigned_hex =
     ''0100000002'' @ ''1f1e1d1c1b1a191817161514131211100f0e0d0c0b0a09080706050403020100'' @ ''00000000''"
  "drop 84 demo_unsigned_hex =
     ''ffffffff'' @
     ''1f1e1d1c1b1a191817161514131211100f0e0d0c0b0a09080706050403020100'' @ ''01000000'' @ ''00'' @ ''ffffffff'' @
     ''02'' @
     ''80f0fa0200000000'' @ ''1976a914202020202020202020202020202020202020202088ac'' @
     ''d88efa0200000000'' @ ''1976a914202020202020202020202020202020202020202088ac'' @
     ''00000000''"
  by (simp_all add: demo_unsigned_hex_def)

lemma signTransaction_demo_missing:
  "signTransaction demo_lib demo_unsigned_hex demo_key [demo_input1, demo_input2] []
     = Inr (''0100000002'' @
            ''1f1e1d1c1b1a191817161514131211100f0e0d0c0b0a09080706050403020100'' @ ''00000000'' @
            ''2c'' @ ''09'' @ ''3006020101020102'' @ ''01'' @ ''21'' @
            ''0304'' @ ''00000000000000000000000000000000000000000000000000000000000000'' @
            ''ffffffff'' @
            ''1f1e1d1c1b1a191817161514131211100f0e0d0c0b0a09080706050403020100'' @ ''01000000'' @
            ''00'' @ ''ffffffff'' @
            ''02'' @
            ''80f0fa0200000000'' @ ''1976a914202020202020202020202020202020202020202088ac'' @
            ''d88efa0200000000'' @ ''1976a914202020202020202020202020202020202020202088ac'' @
            ''00000000'')"
  unfolding signTransaction_def signTransaction_main_demo_missing sum.case
    signTransaction_fallback_demo take_drop_demo
  by simp

lemma signTransaction_strict_zero:
  "signTransaction_main strict_lib transactionHex zero_key ins utxos
     = Inl (WalletError ''Failed to derive public key: '')"
  "signTransaction strict_lib transactionHex zero_key ins utxos = Inr transactionHex"
proof -
  have v: "\<not> valid_scalar zero_key"
    by (simp add: valid_scalar_def zero_key_def hexval_def)
  show m: "signTransaction_main strict_lib transactionHex zero_key ins utxos
     = Inl (WalletError ''Failed to derive public key: '')"
    using v by (simp add: signTransaction_main_def derivePublicKey_def strict_lib_def)
  have "signTransaction_fallback strict_lib transactionHex zero_key = Inl (JsError ''getPublic'')"
    using v by (simp add: signTransaction_fallback_def strict_lib_def)
  then show "signTransaction strict_lib transactionHex zero_key ins utxos = Inr transactionHex"
    by (simp add: signTransaction_def m)
qed

text \<open>
  C1 as stated fails. With two inputs and no UTXO records, the main path throws
  \<^verbatim>\<open>Missing UTXO scriptPubKey for input 0\<close>; the call nevertheless returns a transaction in which
  the first input carries a script and the second still has the empty script \<^verbatim>\<open>00\<close>. And with a
  library that throws on the all-zero key, the call returns the unsigned hex unchanged.
\<close>

theorem signTransaction_partial_counterexample:
  "signTransaction_main demo_lib demo_unsigned_hex demo_key [demo_input1, demo_input2] []
     = Inl (JsError ''Missing UTXO scriptPubKey for input 0'') \<and>
   signTransaction demo_lib demo_unsigned_hex demo_key [demo_input1, demo_input2] []
     = Inr (''0100000002'' @
            ''1f1e1d1c1b1a191817161514131211100f0e0d0c0b0a09080706050403020100'' @ ''00000000'' @
            ''2c'' @ ''09'' @ ''3006020101020102'' @ ''01'' @ ''21'' @
            ''0304'' @ ''00000000000000000000000000000000000000000000000000000000000000'' @
            ''ffffffff'' @
            ''1f1e1d1c1b1a191817161514131211100f0e0d0c0b0a09080706050403020100'' @ ''01000000'' @
            ''00'' @ ''ffffffff'' @
            ''02'' @
            ''80f0fa0200000000'' @ ''1976a914202020202020202020202020202020202020202088ac'' @
            ''d88efa0200000000'' @ ''1976a914202020202020202020202020202020202020202088ac'' @
            ''00000000'') \<and>
   signTransaction_main strict_lib demo_unsigned_hex zero_key [demo_input1, demo_input2] []
     = Inl (WalletError ''Failed to derive public key: '') \<and>
   signTransaction strict_lib demo_unsigned_hex zero_key [demo_input1, demo_input2] []
     = Inr demo_unsigned_hex"
  by (simp only: signTransaction_main_demo_missing signTransaction_demo_missing
      signTransaction_strict_zero simp_thms)

lemma fallback_key_demo:
  "fallback_key (''04'' @ demo_key @ demo_key)
   = ''0304'' @ ''00000000000000000000000000000000000000000000000000000000000000''"
  unfolding fallback_key_def by (rule fallback_pubkey_demo)

lemma signed_tail_demo:
  "drop 84 demo_unsigned_hex =
     sequence_hex (hd [demo_input1, demo_input2]) @
     concat (map (\<lambda>x. outpoint_hex x @ ''00'' @ sequence_hex x) (tl [demo_input1, demo_input2])) @
     encodeVarInt (length demo_outputs) @ outs_hex @ ''00000000'' \<Longrightarrow>
   outputs_hex demo_lib demo_outputs = Inr outs_hex \<Longrightarrow>
   drop 84 demo_unsigned_hex =
     ''ffffffff'' @
     ''1f1e1d1c1b1a191817161514131211100f0e0d0c0b0a09080706050403020100'' @ ''01000000'' @ ''00'' @ ''ffffffff'' @
     ''02'' @
     ''80f0fa0200000000'' @ ''1976a914202020202020202020202020202020202020202088ac'' @
     ''d88efa0200000000'' @ ''1976a914202020202020202020202020202020202020202088ac'' @
     ''00000000''"
  by (simp add: outputs_hex_demo sequence_hex_demo1 sequence_hex_demo2 outpoint_hex_demo2
      encodeVarInt_demo_outputs)

theorem signTransaction_swallows_errors_witness:
  "createTransactionHex demo_lib [demo_input1, demo_input2] demo_outputs [] = Inr demo_unsigned_hex \<and>
   wf_input demo_input1 \<and> wf_input demo_input2 \<and>
   signTransaction_main demo_lib demo_unsigned_hex demo_key [demo_input1, demo_input2] []
     = Inl (JsError ''Missing UTXO scriptPubKey for input 0'') \<and>
   ec_public_hex demo_lib demo_key = Some (''04'' @ demo_key @ demo_key) \<and>
   ec_sign demo_lib demo_key (doubleSha256 demo_lib (fromHex demo_unsigned_hex)) = Some (1, 2) \<and>
   encodeDERSignature (padStart 64 CHR ''0'' (toString16 1)) (padStart 64 CHR ''0'' (toString16 2))
     = Inr ''3006020101020102'' \<and>
   signTransaction demo_lib demo_unsigned_hex demo_key [demo_input1, demo_input2] []
     = Inr (''01000000'' @ ''02'' @
            ''1f1e1d1c1b1a191817161514131211100f0e0d0c0b0a09080706050403020100'' @ ''00000000'' @
            ''2c'' @ ''09'' @ ''3006020101020102'' @ ''01'' @ ''21'' @
            ''0304'' @ ''00000000000000000000000000000000000000000000000000000000000000'' @
            ''ffffffff'' @
            ''1f1e1d1c1b1a191817161514131211100f0e0d0c0b0a09080706050403020100'' @ ''01000000'' @
            ''00'' @ ''ffffffff'' @
            ''02'' @
            ''80f0fa0200000000'' @ ''1976a914202020202020202020202020202020202020202088ac'' @
            ''d88efa0200000000'' @ ''1976a914202020202020202020202020202020202020202088ac'' @
            ''00000000'')"
proof -
  note T = signTransaction_swallows_errors
    [of demo_lib demo_unsigned_hex demo_key "[demo_input1, demo_input2]" "[]"]
  note m = signTransaction_main_demo_missing [of demo_unsigned_hex]
  have p: "ec_public_hex demo_lib demo_key = Some (''04'' @ demo_key @ demo_key)"
    by (simp add: demo_lib_def)
  have sg: "ec_sign demo_lib demo_key (doubleSha256 demo_lib (fromHex demo_unsigned_hex)) = Some (1, 2)"
    by (simp add: demo_lib_def)
  note enc = encodeDERSignature_small
  have wf: "\<forall>x \<in> set [demo_input1, demo_input2]. wf_input x" by (simp add: wf_demo_inputs)
  have l: "length (''0304'' @ ''00000000000000000000000000000000000000000000000000000000000000'') = 66"
    by (simp add: length_Cons_plus del: list.size(4))
  have l2: "length (''09'' @ ''3006020101020102'' @ ''01'' @ ''21'' @
            ''0304'' @ ''00000000000000000000000000000000000000000000000000000000000000'') = 88"
    by (simp add: length_Cons_plus del: list.size(4))
  have l3: "encodeVarInt_half (length (''3006020101020102'' @ ''01'')) = ''09''"
    by (simp add: encodeVarInt_half_def encodeVarInt_def hex_eval)
  from T have "\<forall>e. signTransaction_main demo_lib demo_unsigned_hex demo_key [demo_input1, demo_input2] [] = Inl e \<longrightarrow>
      (\<forall>pubKeyUncompressed r s der.
         ec_public_hex demo_lib demo_key = Some pubKeyUncompressed \<and>
         ec_sign demo_lib demo_key (doubleSha256 demo_lib (fromHex demo_unsigned_hex)) = Some (r, s) \<and>
         encodeDERSignature (padStart 64 CHR ''0'' (toString16 r))
                            (padStart 64 CHR ''0'' (toString16 s)) = Inr der \<longrightarrow>
         (let scriptSig = encodeVarInt_half (length (der @ ''01'')) @ der @ ''01'' @
                          encodeVarInt_half (length (fallback_key pubKeyUncompressed)) @
                          fallback_key pubKeyUncompressed
          in signTransaction demo_lib demo_unsigned_hex demo_key [demo_input1, demo_input2] [] =
               Inr (take 82 demo_unsigned_hex @ encodeVarInt_half (length scriptSig) @ scriptSig @
                    drop 84 demo_unsigned_hex)))"
    by blast
  from this [rule_format, OF m conjI [OF p conjI [OF sg enc]]]
  have s: "signTransaction demo_lib demo_unsigned_hex demo_key [demo_input1, demo_input2] [] =
        Inr (take 82 demo_unsigned_hex @ ''2c'' @ ''09'' @ ''3006020101020102'' @ ''01'' @ ''21'' @
            ''0304'' @ ''00000000000000000000000000000000000000000000000000000000000000'' @
             drop 84 demo_unsigned_hex)"
    unfolding Let_def fallback_key_demo l3 encodeVarInt_half_66 [OF l]
    using encodeVarInt_half_88 [OF l2] by simp
  from T have "\<forall>outs. createTransactionHex demo_lib [demo_input1, demo_input2] outs [] = Inr demo_unsigned_hex \<and>
      [demo_input1, demo_input2] \<noteq> [] \<and> length [demo_input1, demo_input2] < 253 \<and>
      (\<forall>x \<in> set [demo_input1, demo_input2]. wf_input x) \<longrightarrow>
      (\<exists>outs_hex. outputs_hex demo_lib outs = Inr outs_hex \<and>
         take 82 demo_unsigned_hex = ''01000000'' @ encodeVarInt (length [demo_input1, demo_input2]) @
           outpoint_hex (hd [demo_input1, demo_input2]) \<and>
         drop 84 demo_unsigned_hex =
           sequence_hex (hd [demo_input1, demo_input2]) @
           concat (map (\<lambda>x. outpoint_hex x @ ''00'' @ sequence_hex x) (tl [demo_input1, demo_input2])) @
           encodeVarInt (length outs) @ outs_hex @ ''00000000'')"
    by blast
  from this [rule_format, of demo_outputs] createTransactionHex_demo wf
  obtain outs_hex where oh: "outputs_hex demo_lib demo_outputs = Inr outs_hex"
    and tk: "take 82 demo_unsigned_hex = ''01000000'' @ encodeVarInt (length [demo_input1, demo_input2]) @
           outpoint_hex (hd [demo_input1, demo_input2])"
    and dr: "drop 84 demo_unsigned_hex =
           sequence_hex (hd [demo_input1, demo_input2]) @
           concat (map (\<lambda>x. outpoint_hex x @ ''00'' @ sequence_hex x) (tl [demo_input1, demo_input2])) @
           encodeVarInt (length demo_outputs) @ outs_hex @ ''00000000''"
    by auto
  have tk': "take 82 demo_unsigned_hex = ''01000000'' @ ''02'' @
            ''1f1e1d1c1b1a191817161514131211100f0e0d0c0b0a09080706050403020100'' @ ''00000000''"
    unfolding tk encodeVarInt_demo_inputs by (simp add: outpoint_hex_demo1)
  note dr' = signed_tail_demo [OF dr oh]
  have "signTransaction demo_lib demo_unsigned_hex demo_key [demo_input1, demo_input2] []
     = Inr (''01000000'' @ ''02'' @
            ''1f1e1d1c1b1a191817161514131211100f0e0d0c0b0a09080706050403020100'' @ ''00000000'' @
            ''2c'' @ ''09'' @ ''3006020101020102'' @ ''01'' @ ''21'' @
            ''0304'' @ ''00000000000000000000000000000000000000000000000000000000000000'' @
            ''ffffffff'' @
            ''1f1e1d1c1b1a191817161514131211100f0e0d0c0b0a09080706050403020100'' @ ''01000000'' @
            ''00'' @ ''ffffffff'' @
            ''02'' @
            ''80f0fa0200000000'' @ ''1976a914202020202020202020202020202020202020202088ac'' @
            ''d88efa0200000000'' @ ''1976a914202020202020202020202020202020202020202088ac'' @
            ''00000000'')"
    unfolding s tk' dr' by simp
  with createTransactionHex_demo wf_demo_inputs m p sg enc show ?thesis
    by (simp only: simp_thms)
qed

text \<open>A run with a signature whose \<open>s\<close> is in the upper half of the range.\<close>

lemma length_der_high:
  "length ((''3045'' @ ''0221'' @ ''008000000000000000000000000000000000000000000000000000000000000000'' @
          ''0220'' @ ''7FFFFFFFFFFFFFFFFFFFFFFFFFFFFFFEBAAEDCE6AF48A03BBFD25E8CD0364141'') @ ''01'') = 144"
  by (simp add: length_Cons_plus del: list.size(4))

lemma encodeVarInt_half_144: "length s = 144 \<Longrightarrow> encodeVarInt_half (length s) = ''48''"
  by (simp add: encodeVarInt_half_def encodeVarInt_def hex_eval)

lemma encodeVarInt_half_214: "length s = 214 \<Longrightarrow> encodeVarInt_half (length s) = ''6b''"
  by (simp add: encodeVarInt_half_def encodeVarInt_def hex_eval)

lemma make_scriptSig_high:
  "make_scriptSig high_s_lib privateKey digest pub
     = Inr (''48'' @ ''3045'' @ ''0221'' @ ''008000000000000000000000000000000000000000000000000000000000000000'' @
          ''0220'' @ ''7FFFFFFFFFFFFFFFFFFFFFFFFFFFFFFEBAAEDCE6AF48A03BBFD25E8CD0364141'' @ ''01'' @
            encodeVarInt_half (length pub) @ pub)"
proof -
  have s: "ec_sign high_s_lib privateKey digest = Some (2 ^ 255, 2 ^ 255)"
    by (simp add: high_s_lib_def)
  show ?thesis
    unfolding make_scriptSig_def s option.case prod.case Let_def pad64_r encodeDERSignature_literal
      sum.case encodeVarInt_half_144 [OF length_der_high]
    by simp
qed

lemma truthy_own:
  "truthy_script own_utxo = Some ''76a914202020202020202020202020202020202020202088ac''"
  by (simp add: truthy_script_def own_utxo_def)

lemma hash160_high: "toHex (hash160 high_s_lib data) = ''2020202020202020202020202020202020202020''"
  by (simp add: hash160_def ripemd160_def sha256_def high_s_lib_def demo_lib_def toHex_def replicate_numeral
      hexdigit_def hex_chars_def)

lemma detect_pubkey_own_high:
  "detect_pubkey high_s_lib demo_key [own_utxo] pub = pub"
  by (simp add: detect_pubkey_def truthy_own hash160_high Let_def length_Cons_plus
      del: list.size(4))

lemma signTransaction_main_high:
  "signTransaction_main high_s_lib demo_unsigned_hex1 demo_key [demo_input1] [own_utxo]
     = Inr (''0100000001'' @
            ''1f1e1d1c1b1a191817161514131211100f0e0d0c0b0a09080706050403020100'' @ ''00000000'' @
            ''6b'' @ ''48'' @
            ''3045'' @ ''0221'' @ ''008000000000000000000000000000000000000000000000000000000000000000'' @
            ''0220'' @ ''7FFFFFFFFFFFFFFFFFFFFFFFFFFFFFFEBAAEDCE6AF48A03BBFD25E8CD0364141'' @ ''01'' @
            ''21'' @ ''02'' @ demo_key @
            ''ffffffff'' @
            ''02'' @ ''80f0fa0200000000'' @ ''1976a914202020202020202020202020202020202020202088ac'' @
            ''d88efa0200000000'' @ ''1976a914202020202020202020202020202020202020202088ac'' @ ''00000000'')"
proof -
  have k: "derivePublicKey high_s_lib demo_key = Inr (''02'' @ demo_key)"
    by (simp add: derivePublicKey_def high_s_lib_def demo_lib_def)
  have u: "[0..<length [demo_input1]] = [0]" by simp
  have lp: "length (''02'' @ demo_key) = 66" by (simp add: length_keys)
  have si: "sign_input high_s_lib demo_unsigned_hex1 demo_key [demo_input1] [own_utxo] (''02'' @ demo_key) 0
            = Inr (''48'' @ ''3045'' @ ''0221'' @ ''008000000000000000000000000000000000000000000000000000000000000000'' @
          ''0220'' @ ''7FFFFFFFFFFFFFFFFFFFFFFFFFFFFFFEBAAEDCE6AF48A03BBFD25E8CD0364141'' @ ''01'' @ ''21'' @ ''02'' @ demo_key)"
    unfolding sign_input_def
    using encodeVarInt_half_66 [OF lp]
    by (simp add: truthy_own Let_def make_scriptSig_high del: list.size(4))
  have ls: "length (''48'' @ ''3045'' @ ''0221'' @ ''008000000000000000000000000000000000000000000000000000000000000000'' @
          ''0220'' @ ''7FFFFFFFFFFFFFFFFFFFFFFFFFFFFFFEBAAEDCE6AF48A03BBFD25E8CD0364141'' @ ''01'' @ ''21'' @ ''02'' @ demo_key) = 214"
    by (simp add: length_keys length_Cons_plus del: list.size(4))
  have v: "encodeVarInt (length [demo_input1]) = ''01''"
    by (simp add: encodeVarInt_def hex_eval)
  have pos: "findOutputsPositionInHex demo_unsigned_hex1 (length [demo_input1]) = Some 92"
    using findOutputsPosition_demo1 by simp
  have sl: "js_slice_from demo_unsigned_hex1 (Some 92) = drop 92 demo_unsigned_hex1"
    by (simp add: js_slice_from_def rel_index_def demo_unsigned_hex1_def length_Cons_plus
        del: list.size(4))
  show ?thesis
    unfolding signTransaction_main_def k sum.case Let_def detect_pubkey_own_high u
      sign_inputs.simps si pos sl drop_demo1 v signed_inputs_def
    using encodeVarInt_half_214 [OF ls]
    by (simp add: outpoint_hex_demo1 sequence_hex_demo1 del: list.size(4))
qed

theorem signTransaction_der_low_s_witness:
  "ec_sign high_s_lib demo_key
     (sighash_digest high_s_lib demo_unsigned_hex1 [demo_input1] 0
        ''76a914202020202020202020202020202020202020202088ac'') = Some (2 ^ 255, 2 ^ 255) \<and>
   (0::nat) < 2 ^ 255 \<and> 2 ^ 255 < secp256k1_n \<and> secp256k1_n div 2 < 2 ^ 255 \<and>
   low_s (2 ^ 255) = 0x7FFFFFFFFFFFFFFFFFFFFFFFFFFFFFFEBAAEDCE6AF48A03BBFD25E8CD0364141 \<and>
   der_low_s (2 ^ 255) (2 ^ 255)
     (''3045'' @ ''0221'' @ ''008000000000000000000000000000000000000000000000000000000000000000'' @
      ''0220'' @ ''7FFFFFFFFFFFFFFFFFFFFFFFFFFFFFFEBAAEDCE6AF48A03BBFD25E8CD0364141'') \<and>
   signTransaction high_s_lib demo_unsigned_hex1 demo_key [demo_input1] [own_utxo]
     = Inr (''0100000001'' @
            ''1f1e1d1c1b1a191817161514131211100f0e0d0c0b0a09080706050403020100'' @ ''00000000'' @
            ''6b'' @ ''48'' @
            ''3045'' @ ''0221'' @ ''008000000000000000000000000000000000000000000000000000000000000000'' @
            ''0220'' @ ''7FFFFFFFFFFFFFFFFFFFFFFFFFFFFFFEBAAEDCE6AF48A03BBFD25E8CD0364141'' @ ''01'' @
            ''21'' @ ''02'' @ demo_key @
            ''ffffffff'' @
            ''02'' @ ''80f0fa0200000000'' @ ''1976a914202020202020202020202020202020202020202088ac'' @
            ''d88efa0200000000'' @ ''1976a914202020202020202020202020202020202020202088ac'' @ ''00000000'')"
proof -
  have r: "(0::nat) < 2 ^ 255" "2 ^ 255 < secp256k1_n" by (simp_all add: secp256k1_n_def)
  have g: "secp256k1_n div 2 < 2 ^ 255" by (simp add: secp256k1_n_def)
  have l: "low_s (2 ^ 255) = 0x7FFFFFFFFFFFFFFFFFFFFFFFFFFFFFFEBAAEDCE6AF48A03BBFD25E8CD0364141"
    by (simp add: low_s_def secp256k1_n_def)
  have sg: "\<And>d. ec_sign high_s_lib demo_key d = Some (2 ^ 255, 2 ^ 255)"
    by (simp add: high_s_lib_def)
  have ecdsa: "\<forall>d r s. ec_sign high_s_lib demo_key d = Some (r, s) \<longrightarrow>
                 0 < r \<and> r < secp256k1_n \<and> 0 < s \<and> s < secp256k1_n"
    using r unfolding sg by blast
  note T = signTransaction_der_low_s [OF ecdsa, of demo_unsigned_hex1 "[demo_input1]" "[own_utxo]"]
  from T signTransaction_main_high
  have out: "signTransaction high_s_lib demo_unsigned_hex1 demo_key [demo_input1] [own_utxo]
     = Inr (''0100000001'' @
            ''1f1e1d1c1b1a191817161514131211100f0e0d0c0b0a09080706050403020100'' @ ''00000000'' @
            ''6b'' @ ''48'' @
            ''3045'' @ ''0221'' @ ''008000000000000000000000000000000000000000000000000000000000000000'' @
            ''0220'' @ ''7FFFFFFFFFFFFFFFFFFFFFFFFFFFFFFEBAAEDCE6AF48A03BBFD25E8CD0364141'' @ ''01'' @
            ''21'' @ ''02'' @ demo_key @
            ''ffffffff'' @
            ''02'' @ ''80f0fa0200000000'' @ ''1976a914202020202020202020202020202020202020202088ac'' @
            ''d88efa0200000000'' @ ''1976a914202020202020202020202020202020202020202088ac'' @ ''00000000'')"
    by blast
  from T signTransaction_main_high
  obtain scriptSigs where
    "\<forall>i < length [demo_input1]. \<exists>scriptPubKey r s sig pub.
                  i < length [own_utxo] \<and> truthy_script ([own_utxo] ! i) = Some scriptPubKey \<and>
                  ec_sign high_s_lib demo_key (sighash_digest high_s_lib demo_unsigned_hex1 [demo_input1] i scriptPubKey) = Some (r, s) \<and>
                  encodeDERSignature (padStart 64 CHR ''0'' (toString16 r))
                                     (padStart 64 CHR ''0'' (toString16 s)) = Inr sig \<and>
                  der_low_s r s sig \<and>
                  scriptSigs ! i = encodeVarInt_half (length (sig @ ''01'')) @ sig @ ''01'' @
                                   encodeVarInt_half (length pub) @ pub"
    by blast
  then obtain r' s' sig where
    e: "ec_sign high_s_lib demo_key (sighash_digest high_s_lib demo_unsigned_hex1 [demo_input1] 0
          ''76a914202020202020202020202020202020202020202088ac'') = Some (r', s')"
    and enc: "encodeDERSignature (padStart 64 CHR ''0'' (toString16 r'))
                                     (padStart 64 CHR ''0'' (toString16 s')) = Inr sig"
    and d: "der_low_s r' s' sig"
    by (auto simp: truthy_own)
  from e have rs: "r' = 2 ^ 255" "s' = 2 ^ 255" unfolding sg by simp_all
  from enc have "sig = ''3045'' @ ''0221'' @ ''008000000000000000000000000000000000000000000000000000000000000000'' @
      ''0220'' @ ''7FFFFFFFFFFFFFFFFFFFFFFFFFFFFFFEBAAEDCE6AF48A03BBFD25E8CD0364141''"
    unfolding rs pad64_r encodeDERSignature_literal by (simp only: sum.inject)
  with d have dl: "der_low_s (2 ^ 255) (2 ^ 255)
     (''3045'' @ ''0221'' @ ''008000000000000000000000000000000000000000000000000000000000000000'' @
      ''0220'' @ ''7FFFFFFFFFFFFFFFFFFFFFFFFFFFFFFEBAAEDCE6AF48A03BBFD25E8CD0364141'')"
    unfolding rs by simp
  from out dl sg r g l show ?thesis by (simp only: simp_thms)
qed

end
